(* ===== verification/CV_Prelude.thy ===== *)
theory CV_Prelude
  imports Main "HOL-Library.Sublist"
begin

text \<open>
  What every component of the development shares: Go's \<open>error\<close> values, the state-and-error
  computations in which the Go functions of the form \<open>func (...) (T, error)\<close> are written, and
  the part of Go's \<open>strings\<close>, \<open>strconv\<close> and \<open>encoding/hex\<close> packages that the program uses.

  A Go string is a sequence of bytes, here a \<open>string\<close> (a list of 8-bit characters).
  \<open>TrimSpace\<close> is modelled on bytes exactly, the UTF-8 encodings of the non-ASCII white space
  included. \<open>ToLower\<close> and \<open>ToUpper\<close> change the ASCII letters only, which is what the program
  relies on: each result is compared with ASCII constants or stored.
\<close>

named_theorems run_simps \<open>unfolding rules of the state-and-error computations\<close>
named_theorems str_simps \<open>rules on the string functions\<close>

section \<open>Go errors\<close>

text \<open>
  The sentinel errors of the packages, by their names in the code, an anonymous error
  (\<open>errors.New\<close> inside a function, or one from a library) and \<open>fmt.Errorf\<close> with \<open>%w\<close>.
\<close>

datatype goerr =
    ErrNotFound            \<comment> \<open>\<open>store.ErrNotFound\<close>\<close>
  | ErrAdminExists | ErrDuplicateEmail
  | ErrInvalidStatusTransition | ErrInvalidAgent | ErrInvalidCampaignState | ErrForbidden
  | ErrNoLeadsAvailable | ErrDuplicateDisposition | ErrExportTooLarge
  | ErrPresenceNotFound | ErrInvalidState | ErrClaimMiss
  | ErrCarrierCapacity | ErrInvalidE164 | ErrNoActiveCall | ErrCallNotFound | ErrCallForbidden
  | ErrNoAgent | ErrUnknownDID
  | ErrNoCreds
  | RedisNil | TxFailedErr
  | SqlNoRows            \<comment> \<open>\<open>sql.ErrNoRows\<close>\<close>
  | MigrateNoChange      \<comment> \<open>\<open>migrate.ErrNoChange\<close>\<close>
  | PgconnError string   \<comment> \<open>\<open>*pgconn.PgError\<close> of the driver pgx, with its SQLSTATE\<close>
  | PqError string       \<comment> \<open>\<open>*pq.Error\<close> of the driver lib/pq\<close>
  | ErrMsg string
  | ErrWrap string goerr

fun errors_is :: "goerr \<Rightarrow> goerr \<Rightarrow> bool" where
  "errors_is (ErrWrap m e) t \<longleftrightarrow> ErrWrap m e = t \<or> errors_is e t"
| "errors_is e t \<longleftrightarrow> e = t"

section \<open>Lists\<close>

text \<open>Changing the rows that are selected leaves the others as they were.\<close>

lemma filter_unchanged:
  "(\<And>x. P x \<Longrightarrow> P (f x)) \<Longrightarrow>
   filter (\<lambda>x. \<not> P x) (map (\<lambda>x. if P x then f x else x) xs) = filter (\<lambda>x. \<not> P x) xs"
  by (induction xs) auto

section \<open>Computations with a state and an error\<close>

type_synonym ('s, 'a) run = "'s \<Rightarrow> (goerr + 'a) \<times> 's"

definition retE :: "'a \<Rightarrow> ('s, 'a) run" where
  "retE x = (\<lambda>s. (Inr x, s))"

definition failE :: "goerr \<Rightarrow> ('s, 'a) run" where
  "failE e = (\<lambda>s. (Inl e, s))"

text \<open>\<open>x, err := m(); if err != nil { return err }; f(x)\<close>\<close>

definition bindE :: "('s, 'a) run \<Rightarrow> ('a \<Rightarrow> ('s, 'b) run) \<Rightarrow> ('s, 'b) run" where
  "bindE m f = (\<lambda>s. case m s of (Inl e, s') \<Rightarrow> (Inl e, s') | (Inr x, s') \<Rightarrow> f x s')"

text \<open>\<open>x, err := m()\<close> where the code goes on to look at \<open>err\<close> itself.\<close>

definition tryE :: "('s, 'a) run \<Rightarrow> (goerr + 'a \<Rightarrow> ('s, 'b) run) \<Rightarrow> ('s, 'b) run" where
  "tryE m f = (\<lambda>s. case m s of (r, s') \<Rightarrow> f r s')"

text \<open>\<open>if err != nil { return fmt.Errorf("...: %w", err) }\<close>\<close>

definition wrapE :: "string \<Rightarrow> ('s, 'a) run \<Rightarrow> ('s, 'a) run" where
  "wrapE m r = (\<lambda>s. case r s of (Inl e, s') \<Rightarrow> (Inl (ErrWrap m e), s') | (Inr x, s') \<Rightarrow> (Inr x, s'))"

lemma retE_run [run_simps, simp]: "retE x s = (Inr x, s)"
  by (simp add: retE_def)

lemma failE_run [run_simps, simp]: "failE e s = (Inl e, s)"
  by (simp add: failE_def)

lemma bindE_run [run_simps]:
  "bindE m f s = (case m s of (Inl e, s') \<Rightarrow> (Inl e, s') | (Inr x, s') \<Rightarrow> f x s')"
  by (simp add: bindE_def)

lemma tryE_run [run_simps]: "tryE m f s = (case m s of (r, s') \<Rightarrow> f r s')"
  by (simp add: tryE_def)

lemma wrapE_run [run_simps]:
  "wrapE m r s = (case r s of (Inl e, s') \<Rightarrow> (Inl (ErrWrap m e), s') | (Inr x, s') \<Rightarrow> (Inr x, s'))"
  by (simp add: wrapE_def)

lemma bindE_Inr_iff:
  "bindE m f s = (Inr y, s'') \<longleftrightarrow> (\<exists>x s'. m s = (Inr x, s') \<and> f x s' = (Inr y, s''))"
  by (auto simp: bindE_def split: prod.splits sum.splits)

lemma bindE_Inl_iff:
  "bindE m f s = (Inl e, s'') \<longleftrightarrow>
     m s = (Inl e, s'') \<or> (\<exists>x s'. m s = (Inr x, s') \<and> f x s' = (Inl e, s''))"
  by (auto simp: bindE_def split: prod.splits sum.splits)

lemma tryE_iff:
  "tryE m f s = q \<longleftrightarrow>
     (\<exists>e s'. m s = (Inl e, s') \<and> f (Inl e) s' = q) \<or> (\<exists>x s'. m s = (Inr x, s') \<and> f (Inr x) s' = q)"
  by (cases "m s"; cases "fst (m s)") (auto simp: tryE_def)

lemma wrapE_Inr_iff: "wrapE w m s = (Inr x, s') \<longleftrightarrow> m s = (Inr x, s')"
  by (auto simp: wrapE_def split: prod.splits sum.splits)

lemma wrapE_Inl_iff: "wrapE w m s = (Inl e, s') \<longleftrightarrow> (\<exists>e'. m s = (Inl e', s') \<and> e = ErrWrap w e')"
  by (auto simp: wrapE_def split: prod.splits sum.splits)

lemma bindE_iff:
  "bindE m f s = (r, s'') \<longleftrightarrow>
     (\<exists>e. m s = (Inl e, s'') \<and> r = Inl e) \<or> (\<exists>x s'. m s = (Inr x, s') \<and> f x s' = (r, s''))"
  by (auto simp: bindE_def split: prod.splits sum.splits)

lemma wrapE_iff: "wrapE w m s = (r, s') \<longleftrightarrow> (\<exists>r'. m s = (r', s') \<and> r = map_sum (ErrWrap w) id r')"
  by (auto simp: wrapE_def split: prod.splits sum.splits)

text \<open>How a computation that returned or failed must have run.\<close>

lemmas run_iffs = bindE_Inr_iff bindE_Inl_iff tryE_iff wrapE_Inr_iff wrapE_Inl_iff

text \<open>
  A state property that every step of a computation keeps is kept by the computation,
  whether it returns a value or an error.
\<close>

definition keeps :: "('s \<Rightarrow> bool) \<Rightarrow> ('s, 'a) run \<Rightarrow> bool" where
  "keeps P m \<longleftrightarrow> (\<forall>s. P s \<longrightarrow> P (snd (m s)))"

named_theorems keeps_intros \<open>introduction rules for \<open>keeps\<close>\<close>

lemma keepsI: "(\<And>s. P s \<Longrightarrow> P (snd (m s))) \<Longrightarrow> keeps P m"
  by (simp add: keeps_def)

lemma keepsD: "keeps P m \<Longrightarrow> P s \<Longrightarrow> P (snd (m s))"
  by (simp add: keeps_def)

lemma keeps_retE [keeps_intros, simp]: "keeps P (retE x)"
  and keeps_failE [keeps_intros, simp]: "keeps P (failE e)"
  by (simp_all add: keeps_def)

lemma keeps_bindE [keeps_intros]:
  "keeps P m \<Longrightarrow> (\<And>x. keeps P (f x)) \<Longrightarrow> keeps P (bindE m f)"
  by (auto simp: keeps_def bindE_def split: prod.splits sum.splits)

lemma keeps_tryE [keeps_intros]:
  "keeps P m \<Longrightarrow> (\<And>r. keeps P (f r)) \<Longrightarrow> keeps P (tryE m f)"
  by (auto simp: keeps_def tryE_def split: prod.splits)

lemma keeps_wrapE [keeps_intros]: "keeps P m \<Longrightarrow> keeps P (wrapE w m)"
  by (auto simp: keeps_def wrapE_def split: prod.splits sum.splits)

lemma keeps_If [keeps_intros]:
  "(b \<Longrightarrow> keeps P m) \<Longrightarrow> (\<not> b \<Longrightarrow> keeps P n) \<Longrightarrow> keeps P (if b then m else n)"
  by simp

lemma keeps_case_option [keeps_intros]:
  "(x = None \<Longrightarrow> keeps P m) \<Longrightarrow> (\<And>y. x = Some y \<Longrightarrow> keeps P (f y)) \<Longrightarrow>
   keeps P (case x of None \<Rightarrow> m | Some y \<Rightarrow> f y)"
  by (cases x) simp_all

lemma keeps_case_sum [keeps_intros]:
  "(\<And>e. x = Inl e \<Longrightarrow> keeps P (g e)) \<Longrightarrow> (\<And>y. x = Inr y \<Longrightarrow> keeps P (f y)) \<Longrightarrow>
   keeps P (case x of Inl e \<Rightarrow> g e | Inr y \<Rightarrow> f y)"
  by (cases x) simp_all

section \<open>Invariants\<close>

text \<open>The contract of a component's operations: each of them keeps the invariant, so every sequence does.\<close>

locale invariant_ops =
  fixes step :: "'op \<Rightarrow> 's \<Rightarrow> 's" and inv :: "'s \<Rightarrow> bool"
  assumes step_inv: "inv s \<Longrightarrow> inv (step x s)"
begin

lemma run_inv: "inv s \<Longrightarrow> inv (fold step xs s)"
  by (induction xs arbitrary: s) (simp_all add: step_inv)

end

end
