(* ===== verification/Go_Strings.thy ===== *)
theory Go_Strings
  imports CV_Prelude
begin

text \<open>
  The functions of Go's \<open>strings\<close> and \<open>strconv\<close> packages that the program calls. A string is
  the list of its bytes.
\<close>

section \<open>Bytes\<close>

abbreviation byte :: "char \<Rightarrow> nat" where
  "byte c \<equiv> of_char c"

lemma byte_lt [simp]: "byte c < 256"
  by (metis of_char_mod_256 mod_less_divisor zero_less_numeral)

lemma byte_inject [simp]: "byte c = byte d \<longleftrightarrow> c = d"
  by simp

definition is_digit :: "char \<Rightarrow> bool" where
  "is_digit c \<longleftrightarrow> 48 \<le> byte c \<and> byte c \<le> 57"

definition is_upper :: "char \<Rightarrow> bool" where
  "is_upper c \<longleftrightarrow> 65 \<le> byte c \<and> byte c \<le> 90"

definition is_lower :: "char \<Rightarrow> bool" where
  "is_lower c \<longleftrightarrow> 97 \<le> byte c \<and> byte c \<le> 122"

definition lower_char :: "char \<Rightarrow> char" where
  "lower_char c = (if is_upper c then char_of (byte c + 32) else c)"

definition upper_char :: "char \<Rightarrow> char" where
  "upper_char c = (if is_lower c then char_of (byte c - 32) else c)"

definition to_lower :: "string \<Rightarrow> string" where
  "to_lower s = map lower_char s"

definition to_upper :: "string \<Rightarrow> string" where
  "to_upper s = map upper_char s"

lemma lower_char_idem [simp]: "lower_char (lower_char c) = lower_char c"
  by (simp add: lower_char_def is_upper_def)

lemma to_lower_idem [simp]: "to_lower (to_lower s) = to_lower s"
  by (simp add: to_lower_def)

lemma to_lower_Nil_iff [simp]: "to_lower s = [] \<longleftrightarrow> s = []"
  by (simp add: to_lower_def)

section \<open>White space: \<open>strings.TrimSpace\<close>\<close>

text \<open>
  The UTF-8 encodings of the runes for which \<open>unicode.IsSpace\<close> holds: tab, newline, vertical
  tab, form feed, carriage return and space; U+0085 and U+00A0; U+1680; U+2000 to U+200A;
  U+2028 and U+2029; U+202F; U+205F; U+3000.
\<close>

definition go_spaces :: "string list" where
  "go_spaces =
     [[CHR 0x09], [CHR 0x0A], [CHR 0x0B], [CHR 0x0C], [CHR 0x0D], [CHR 0x20],
      [CHR 0xC2, CHR 0x85], [CHR 0xC2, CHR 0xA0], [CHR 0xE1, CHR 0x9A, CHR 0x80]] @
     map (\<lambda>b. [CHR 0xE2, CHR 0x80, b])
       [CHR 0x80, CHR 0x81, CHR 0x82, CHR 0x83, CHR 0x84, CHR 0x85, CHR 0x86, CHR 0x87,
        CHR 0x88, CHR 0x89, CHR 0x8A, CHR 0xA8, CHR 0xA9, CHR 0xAF] @
     [[CHR 0xE2, CHR 0x81, CHR 0x9F], [CHR 0xE3, CHR 0x80, CHR 0x80]]"

text \<open>Drop prefixes out of \<open>ps\<close> as long as there is one.\<close>

function trim_with :: "string list \<Rightarrow> string \<Rightarrow> string" where
  "trim_with ps s =
     (case find (\<lambda>p. p \<noteq> [] \<and> prefix p s) ps of
        None \<Rightarrow> s
      | Some p \<Rightarrow> trim_with ps (drop (length p) s))"
  by pat_completeness auto
termination
proof (relation "measure (\<lambda>(ps, s). length s)")
  fix ps s p
  assume "find (\<lambda>p. p \<noteq> [] \<and> prefix p s) ps = Some p"
  then have "p \<noteq> []" and "prefix p s"
    by (auto simp: find_Some_iff)
  then show "((ps, drop (length p) s), ps, s) \<in> measure (\<lambda>(ps, s). length s)"
    by (auto simp: prefix_def)
qed simp

declare trim_with.simps [simp del]

definition trim_left :: "string \<Rightarrow> string" where
  "trim_left s = trim_with go_spaces s"

definition trim_right :: "string \<Rightarrow> string" where
  "trim_right s = rev (trim_with (map rev go_spaces) (rev s))"

definition trim_space :: "string \<Rightarrow> string" where
  "trim_space s = trim_right (trim_left s)"

definition no_space_at :: "string list \<Rightarrow> string \<Rightarrow> bool" where
  "no_space_at ps s \<longleftrightarrow> (\<forall>p \<in> set ps. p \<noteq> [] \<longrightarrow> \<not> prefix p s)"

lemma trim_with_id: "no_space_at ps s \<Longrightarrow> trim_with ps s = s"
  by (subst trim_with.simps) (auto simp: no_space_at_def find_Some_iff split: option.split)

lemma trim_with_no_space: "no_space_at ps (trim_with ps s)"
proof (induction ps s rule: trim_with.induct)
  case (1 ps s)
  show ?case
  proof (cases "find (\<lambda>p. p \<noteq> [] \<and> prefix p s) ps")
    case None
    then have "no_space_at ps s"
      by (auto simp: find_None_iff no_space_at_def)
    then show ?thesis by (simp add: trim_with_id)
  next
    case (Some p)
    with "1" [OF Some] show ?thesis
      by (subst trim_with.simps) simp
  qed
qed

lemma trim_with_suffix: "suffix (trim_with ps s) s"
proof (induction ps s rule: trim_with.induct)
  case (1 ps s)
  show ?case
  proof (cases "find (\<lambda>p. p \<noteq> [] \<and> prefix p s) ps")
    case None
    then show ?thesis by (subst trim_with.simps) simp
  next
    case (Some p)
    have "suffix (drop (length p) s) s" by (rule suffix_drop)
    with "1" [OF Some] Some show ?thesis
      by (subst trim_with.simps) (auto intro: suffix_order.trans)
  qed
qed

lemma no_space_at_prefix: "no_space_at ps s \<Longrightarrow> prefix t s \<Longrightarrow> no_space_at ps t"
  by (auto simp: no_space_at_def intro: prefix_order.trans)

text \<open>A string is trimmed when no white space stands at either end.\<close>

definition trimmed :: "string \<Rightarrow> bool" where
  "trimmed s \<longleftrightarrow> no_space_at go_spaces s \<and> no_space_at (map rev go_spaces) (rev s)"

lemma trim_space_id: "trimmed s \<Longrightarrow> trim_space s = s"
  by (simp add: trimmed_def trim_space_def trim_left_def trim_right_def trim_with_id)

lemma trimmed_trim_space: "trimmed (trim_space s)"
proof -
  let ?l = "trim_left s"
  have l: "no_space_at go_spaces ?l"
    by (simp add: trim_left_def trim_with_no_space)
  have "suffix (rev (trim_right ?l)) (rev ?l)"
    by (simp add: trim_right_def trim_with_suffix)
  then have "prefix (trim_right ?l) ?l"
    by (simp add: suffix_to_prefix)
  with l have "no_space_at go_spaces (trim_right ?l)"
    by (rule no_space_at_prefix)
  moreover have "no_space_at (map rev go_spaces) (rev (trim_right ?l))"
    by (simp add: trim_right_def trim_with_no_space)
  ultimately show ?thesis
    by (simp add: trimmed_def trim_space_def)
qed

lemma trim_space_idem [simp]: "trim_space (trim_space s) = trim_space s"
  by (rule trim_space_id) (rule trimmed_trim_space)

lemma set_trim_space: "set (trim_space s) \<subseteq> set s"
proof -
  have "set (trim_right t) \<subseteq> set t" for t
    using set_mono_suffix [OF trim_with_suffix [of "map rev go_spaces" "rev t"]]
    by (simp add: trim_right_def)
  moreover have "set (trim_left t) \<subseteq> set t" for t
    by (simp add: trim_left_def set_mono_suffix trim_with_suffix)
  ultimately show ?thesis
    unfolding trim_space_def by blast
qed

text \<open>A string without white-space bytes at its ends is trimmed.\<close>

definition plain_char :: "char \<Rightarrow> bool" where
  "plain_char c \<longleftrightarrow> 33 \<le> byte c \<and> byte c < 127"

lemma go_spaces_not_plain:
  "p \<in> set go_spaces \<Longrightarrow> p \<noteq> [] \<and> \<not> plain_char (hd p) \<and> \<not> plain_char (last p)"
  unfolding go_spaces_def by (auto simp: plain_char_def)

lemma trimmed_plain:
  assumes "s = [] \<or> plain_char (hd s) \<and> plain_char (last s)"
  shows "trimmed s"
proof -
  have *: "no_space_at ps t" if "t = [] \<or> plain_char (hd t)"
    and "\<And>p. p \<in> set ps \<Longrightarrow> p \<noteq> [] \<and> \<not> plain_char (hd p)" for ps t
    using that by (auto simp: no_space_at_def prefix_def)
  from assms have "no_space_at go_spaces s"
    using go_spaces_not_plain by (intro *) auto
  moreover from assms have "no_space_at (map rev go_spaces) (rev s)"
    using go_spaces_not_plain by (intro *) (auto simp: hd_rev)
  ultimately show ?thesis by (simp add: trimmed_def)
qed

lemma trim_space_Nil [simp]: "trim_space [] = []"
  by (simp add: trim_space_id trimmed_plain)

section \<open>Substrings\<close>

abbreviation has_prefix :: "string \<Rightarrow> string \<Rightarrow> bool" where
  "has_prefix s p \<equiv> prefix p s"

abbreviation has_suffix :: "string \<Rightarrow> string \<Rightarrow> bool" where
  "has_suffix s p \<equiv> suffix p s"

definition trim_prefix :: "string \<Rightarrow> string \<Rightarrow> string" where
  "trim_prefix s p = (if prefix p s then drop (length p) s else s)"

definition trim_suffix :: "string \<Rightarrow> string \<Rightarrow> string" where
  "trim_suffix s p = (if suffix p s then take (length s - length p) s else s)"

fun str_contains :: "string \<Rightarrow> string \<Rightarrow> bool" where
  "str_contains [] p \<longleftrightarrow> p = []"
| "str_contains (c # s) p \<longleftrightarrow> prefix p (c # s) \<or> str_contains s p"

lemma trim_prefix_append [simp]: "trim_prefix (p @ s) p = s"
  by (simp add: trim_prefix_def)

lemma trim_suffix_append [simp]: "trim_suffix (s @ p) p = s"
  by (simp add: trim_suffix_def suffix_def)

lemma str_contains_sublist: "str_contains s p \<longleftrightarrow> sublist p s"
  by (induction s p rule: str_contains.induct) (auto simp: sublist_Cons_right)

text \<open>\<open>strings.Split\<close> with a separator of one byte, and \<open>strings.Join\<close>.\<close>

fun split_on :: "char \<Rightarrow> string \<Rightarrow> string list" where
  "split_on c [] = [[]]"
| "split_on c (x # s) =
     (if x = c then [] # split_on c s
      else (case split_on c s of [] \<Rightarrow> [[x]] | p # ps \<Rightarrow> (x # p) # ps))"

fun str_join :: "string \<Rightarrow> string list \<Rightarrow> string" where
  "str_join sep [] = []"
| "str_join sep [x] = x"
| "str_join sep (x # y # xs) = x @ sep @ str_join sep (y # xs)"

lemma split_on_no_sep: "c \<notin> set s \<Longrightarrow> split_on c s = [s]"
  by (induction s) auto

lemma split_on_append: "c \<notin> set s \<Longrightarrow> split_on c (s @ c # t) = s # split_on c t"
  by (induction s) auto

lemma split_on_not_Nil [simp]: "split_on c s \<noteq> []"
  by (induction s) (auto split: list.splits)

lemma split_on_join: "str_join [c] (split_on c s) = s"
proof (induction s)
  case Nil
  then show ?case by simp
next
  case (Cons x s)
  then show ?case
    by (cases "split_on c s"; cases "tl (split_on c s)") (auto split: list.splits)
qed

lemma split_on_parts: "p \<in> set (split_on c s) \<Longrightarrow> c \<notin> set p"
  by (induction s arbitrary: p) (auto split: if_splits list.splits)

text \<open>\<open>strings.NewReplacer\<close> with patterns of one byte: every byte is replaced on its own.\<close>

definition replace_bytes :: "(char \<times> string) list \<Rightarrow> string \<Rightarrow> string" where
  "replace_bytes r s = concat (map (\<lambda>c. case map_of r c of None \<Rightarrow> [c] | Some t \<Rightarrow> t) s)"

lemma replace_bytes_Nil [simp]: "replace_bytes r [] = []"
  by (simp add: replace_bytes_def)

lemma replace_bytes_Cons:
  "replace_bytes r (c # s) = (case map_of r c of None \<Rightarrow> [c] | Some t \<Rightarrow> t) @ replace_bytes r s"
  by (simp add: replace_bytes_def)

lemma replace_bytes_append: "replace_bytes r (s @ t) = replace_bytes r s @ replace_bytes r t"
  by (simp add: replace_bytes_def)

lemma replace_bytes_id: "set s \<inter> fst ` set r = {} \<Longrightarrow> replace_bytes r s = s"
  by (induction s) (auto simp: replace_bytes_Cons map_of_eq_None_iff split: option.split
      dest!: map_of_SomeD intro: rev_image_eqI)

end
