(* ===== verification/Go_Conv.thy ===== *)
theory Go_Conv
  imports Go_Strings
begin

text \<open>
  Decimal numbers (\<open>strconv.FormatInt\<close>, \<open>strconv.ParseInt(s, 10, 64)\<close>, the \<open>%d\<close> of \<open>fmt\<close>),
  \<open>encoding/hex\<close> and the unpadded alphabets of \<open>encoding/base64\<close>, with their round trips.
\<close>

section \<open>Decimal numbers\<close>

definition digit_char :: "nat \<Rightarrow> char" where
  "digit_char d = char_of (48 + d)"

definition digit_val :: "char \<Rightarrow> nat" where
  "digit_val c = byte c - 48"

fun nat_str :: "nat \<Rightarrow> string" where
  "nat_str n = (if n < 10 then [digit_char n] else nat_str (n div 10) @ [digit_char (n mod 10)])"

declare nat_str.simps [simp del]

definition int_str :: "int \<Rightarrow> string" where
  "int_str i = (if i < 0 then CHR ''-'' # nat_str (nat (- i)) else nat_str (nat i))"

definition digits_val :: "string \<Rightarrow> nat" where
  "digits_val s = foldl (\<lambda>n c. 10 * n + digit_val c) 0 s"

definition parse_nat :: "string \<Rightarrow> nat option" where
  "parse_nat s = (if s = [] \<or> \<not> list_all is_digit s then None else Some (digits_val s))"

definition in_int64 :: "int \<Rightarrow> bool" where
  "in_int64 i \<longleftrightarrow> - (2 ^ 63) \<le> i \<and> i < 2 ^ 63"

text \<open>\<open>strconv.ParseInt(s, 10, 64)\<close>: an optional sign, at least one digit, in range.\<close>

definition parse_int :: "string \<Rightarrow> int option" where
  "parse_int s =
     (case (case s of
              [] \<Rightarrow> None
            | c # t \<Rightarrow>
                if c = CHR ''-'' then map_option (\<lambda>n. - int n) (parse_nat t)
                else if c = CHR ''+'' then map_option int (parse_nat t)
                else map_option int (parse_nat s)) of
        None \<Rightarrow> None
      | Some i \<Rightarrow> if in_int64 i then Some i else None)"

lemma is_digit_digit_char [simp]: "d < 10 \<Longrightarrow> is_digit (digit_char d)"
  by (simp add: is_digit_def digit_char_def)

lemma digit_val_digit_char [simp]: "d < 10 \<Longrightarrow> digit_val (digit_char d) = d"
  by (simp add: digit_val_def digit_char_def)

lemma nat_str_not_Nil [simp]: "nat_str n \<noteq> []"
  by (subst nat_str.simps) simp

lemma nat_str_digits: "list_all is_digit (nat_str n)"
proof (induction n rule: nat_str.induct)
  case (1 n)
  then show ?case by (subst nat_str.simps) auto
qed

lemma digits_val_nat_str [simp]: "digits_val (nat_str n) = n"
proof (induction n rule: nat_str.induct)
  case (1 n)
  then show ?case
    by (subst nat_str.simps) (auto simp: digits_val_def)
qed

lemma parse_nat_nat_str [simp]: "parse_nat (nat_str n) = Some n"
  by (simp add: parse_nat_def nat_str_digits)

lemma nat_str_inject [simp]: "nat_str m = nat_str n \<longleftrightarrow> m = n"
  by (metis digits_val_nat_str)

lemma hd_nat_str_digit: "is_digit (hd (nat_str n))"
  using nat_str_digits [of n] by (cases "nat_str n") auto

lemma parse_int_int_str:
  assumes "in_int64 i"
  shows "parse_int (int_str i) = Some i"
proof (cases "i < 0")
  case True
  then show ?thesis using assms by (simp add: parse_int_def int_str_def)
next
  case False
  obtain c t where s: "nat_str (nat i) = c # t"
    by (cases "nat_str (nat i)") auto
  have "is_digit c"
    using hd_nat_str_digit [of "nat i"] s by simp
  then have "c \<noteq> CHR ''-''" "c \<noteq> CHR ''+''"
    by (auto simp: is_digit_def)
  moreover have "parse_nat (c # t) = Some (nat i)"
    using parse_nat_nat_str [of "nat i"] s by simp
  ultimately show ?thesis
    using False assms s by (simp add: parse_int_def int_str_def)
qed

lemma set_nat_str: "c \<in> set (nat_str n) \<Longrightarrow> is_digit c"
  using nat_str_digits [of n] by (simp add: list_all_iff)

lemma set_int_str: "c \<in> set (int_str i) \<Longrightarrow> is_digit c \<or> c = CHR ''-''"
  by (auto simp: int_str_def dest: set_nat_str split: if_splits)

section \<open>Hexadecimal: \<open>encoding/hex\<close>\<close>

definition hex_digit :: "nat \<Rightarrow> char" where
  "hex_digit n = (if n < 10 then char_of (48 + n) else char_of (87 + n))"

definition hex_val :: "char \<Rightarrow> nat option" where
  "hex_val c =
     (if is_digit c then Some (byte c - 48)
      else if 97 \<le> byte c \<and> byte c \<le> 102 then Some (byte c - 87)
      else if 65 \<le> byte c \<and> byte c \<le> 70 then Some (byte c - 55)
      else None)"

fun hex_encode :: "string \<Rightarrow> string" where
  "hex_encode [] = []"
| "hex_encode (c # s) = hex_digit (byte c div 16) # hex_digit (byte c mod 16) # hex_encode s"

text \<open>\<open>hex.DecodeString\<close>: an error on a byte that is no hex digit and on an odd length.\<close>

fun hex_decode :: "string \<Rightarrow> string option" where
  "hex_decode [] = Some []"
| "hex_decode [c] = None"
| "hex_decode (c # d # s) =
     (case (hex_val c, hex_val d, hex_decode s) of
        (Some a, Some b, Some t) \<Rightarrow> Some (char_of (16 * a + b) # t)
      | _ \<Rightarrow> None)"

lemma hex_val_hex_digit [simp]: "n < 16 \<Longrightarrow> hex_val (hex_digit n) = Some n"
  by (auto simp: hex_val_def hex_digit_def is_digit_def)

lemma byte_div_16: "byte c div 16 < 16"
  using byte_lt [of c] by (simp add: div_less_iff_less_mult)

lemma byte_div_4: "byte c div 4 < 64"
  using byte_lt [of c] by (simp add: div_less_iff_less_mult)

lemma byte_div_64: "byte c div 64 < 4"
  using byte_lt [of c] by (simp add: div_less_iff_less_mult)

lemma hex_digit_chars: "n < 16 \<Longrightarrow> is_digit (hex_digit n) \<or> 97 \<le> byte (hex_digit n) \<and> byte (hex_digit n) \<le> 102"
  by (auto simp: hex_digit_def is_digit_def)

lemma hex_decode_encode [simp]: "hex_decode (hex_encode s) = Some s"
  by (induction s) (simp_all add: byte_div_16)

lemma length_hex_encode [simp]: "length (hex_encode s) = 2 * length s"
  by (induction s) simp_all

lemma hex_decode_length: "hex_decode s = Some t \<Longrightarrow> length s = 2 * length t"
  by (induction s arbitrary: t rule: hex_decode.induct) (auto split: option.splits)

lemma hex_encode_chars: "c \<in> set (hex_encode s) \<Longrightarrow> is_digit c \<or> 97 \<le> byte c \<and> byte c \<le> 102"
proof (induction s)
  case (Cons a s)
  then show ?case
    using hex_digit_chars [OF byte_div_16, of a] hex_digit_chars [of "byte a mod 16"] by auto
qed simp

section \<open>Base 64 without padding: \<open>base64.RawStdEncoding\<close>, \<open>base64.RawURLEncoding\<close>\<close>

text \<open>An alphabet is given by its last two characters, \<open>+/\<close> or \<open>-_\<close>.\<close>

type_synonym b64 = "char \<times> char"

definition RawStd :: b64 where
  "RawStd = (CHR ''+'', CHR ''/'')"

definition RawURL :: b64 where
  "RawURL = (CHR ''-'', CHR ''_'')"

definition b64_char :: "b64 \<Rightarrow> nat \<Rightarrow> char" where
  "b64_char e n =
     (if n < 26 then char_of (65 + n) else if n < 52 then char_of (71 + n)
      else if n < 62 then char_of (n - 4) else if n = 62 then fst e else snd e)"

definition b64_val :: "b64 \<Rightarrow> char \<Rightarrow> nat option" where
  "b64_val e c =
     (if is_upper c then Some (byte c - 65) else if is_lower c then Some (byte c - 71)
      else if is_digit c then Some (byte c + 4)
      else if c = fst e then Some 62 else if c = snd e then Some 63 else None)"

fun b64_sextets :: "string \<Rightarrow> nat list" where
  "b64_sextets [] = []"
| "b64_sextets [a] = [byte a div 4, byte a mod 4 * 16]"
| "b64_sextets [a, b] = [byte a div 4, byte a mod 4 * 16 + byte b div 16, byte b mod 16 * 4]"
| "b64_sextets (a # b # c # s) =
     byte a div 4 # (byte a mod 4 * 16 + byte b div 16) # (byte b mod 16 * 4 + byte c div 64) #
     byte c mod 64 # b64_sextets s"

definition b64_encode :: "b64 \<Rightarrow> string \<Rightarrow> string" where
  "b64_encode e s = map (b64_char e) (b64_sextets s)"

text \<open>
  Decoding skips carriage returns and newlines, fails on any other byte outside the alphabet
  and on a last group of one character; the unused bits of the last group are not looked at
  (the encodings are not \<open>Strict\<close>).
\<close>

fun b64_bytes :: "nat list \<Rightarrow> string option" where
  "b64_bytes [] = Some []"
| "b64_bytes [w] = None"
| "b64_bytes [w, x] = Some [char_of (w * 4 + x div 16)]"
| "b64_bytes [w, x, y] = Some [char_of (w * 4 + x div 16), char_of (x mod 16 * 16 + y div 4)]"
| "b64_bytes (w # x # y # z # s) =
     map_option (\<lambda>t. char_of (w * 4 + x div 16) # char_of (x mod 16 * 16 + y div 4) #
                     char_of (y mod 4 * 64 + z) # t) (b64_bytes s)"

definition b64_decode :: "b64 \<Rightarrow> string \<Rightarrow> string option" where
  "b64_decode e s =
     (let vs = map (b64_val e) (filter (\<lambda>c. c \<noteq> CHR 0x0A \<and> c \<noteq> CHR 0x0D) s)
      in if None \<in> set vs then None else b64_bytes (map the vs))"

definition b64_ok :: "b64 \<Rightarrow> bool" where
  "b64_ok e \<longleftrightarrow> (\<forall>n < 64. b64_val e (b64_char e n) = Some n \<and>
     b64_char e n \<noteq> CHR 0x0A \<and> b64_char e n \<noteq> CHR 0x0D)"

lemma b64_okI:
  assumes "\<not> is_upper (fst e)" "\<not> is_lower (fst e)" "\<not> is_digit (fst e)"
    and "\<not> is_upper (snd e)" "\<not> is_lower (snd e)" "\<not> is_digit (snd e)"
    and "fst e \<noteq> snd e" "{fst e, snd e} \<inter> {CHR 0x0A, CHR 0x0D} = {}"
  shows "b64_ok e"
  unfolding b64_ok_def
proof (intro allI impI)
  fix n :: nat
  assume "n < 64"
  then consider "n < 26" | "26 \<le> n" "n < 52" | "52 \<le> n" "n < 62" | "n = 62" | "n = 63"
    by linarith
  then show "b64_val e (b64_char e n) = Some n \<and> b64_char e n \<noteq> CHR 0x0A \<and> b64_char e n \<noteq> CHR 0x0D"
  proof cases
    case 4
    with assms show ?thesis by (auto simp: b64_val_def b64_char_def)
  next
    case 5
    with assms show ?thesis by (auto simp: b64_val_def b64_char_def)
  next
    case 1
    then have "byte (b64_char e n) = 65 + n" by (simp add: b64_char_def)
    with 1 show ?thesis by (auto simp: b64_val_def is_upper_def)
  next
    case 2
    then have "byte (b64_char e n) = 71 + n" by (simp add: b64_char_def)
    with 2 show ?thesis by (auto simp: b64_val_def is_upper_def is_lower_def)
  next
    case 3
    then have "byte (b64_char e n) = n - 4" by (simp add: b64_char_def)
    with 3 show ?thesis by (auto simp: b64_val_def is_upper_def is_lower_def is_digit_def)
  qed
qed

lemma b64_ok_alphabets [simp]: "b64_ok RawStd" "b64_ok RawURL"
  by (rule b64_okI; simp add: RawStd_def RawURL_def is_upper_def is_lower_def is_digit_def)+

lemma b64_sextets_lt: "n \<in> set (b64_sextets s) \<Longrightarrow> n < 64"
proof (induction s rule: b64_sextets.induct)
  case (4 a b c s)
  then show ?case
    using byte_div_4 [of a] byte_div_16 [of b] byte_div_64 [of c] by auto
next
  case (3 a b)
  then show ?case
    using byte_div_4 [of a] byte_div_16 [of b] by auto
next
  case (2 a)
  then show ?case
    using byte_div_4 [of a] by auto
qed simp

lemma b64_bytes_sextets [simp]: "b64_bytes (b64_sextets s) = Some s"
proof (induction s rule: b64_sextets.induct)
  case (4 a b c s)
  have "(byte b mod 16 * 4 + byte c div 64) div 4 = byte b mod 16"
    "(byte b mod 16 * 4 + byte c div 64) mod 4 = byte c div 64"
    using byte_div_64 [of c] by auto
  moreover have "(byte a mod 4 * 16 + byte b div 16) div 16 = byte a mod 4"
    "(byte a mod 4 * 16 + byte b div 16) mod 16 = byte b div 16"
    using byte_div_16 [of b] by auto
  ultimately show ?case using 4 by (simp add: mult.commute)
next
  case (3 a b)
  have "(byte a mod 4 * 16 + byte b div 16) div 16 = byte a mod 4"
    "(byte a mod 4 * 16 + byte b div 16) mod 16 = byte b div 16"
    using byte_div_16 [of b] by auto
  then show ?case by (simp add: mult.commute)
qed simp_all

lemma b64_decode_encode:
  assumes "b64_ok e"
  shows "b64_decode e (b64_encode e s) = Some s"
proof -
  have lt: "\<forall>n \<in> set (b64_sextets s). n < 64"
    using b64_sextets_lt by blast
  have f: "filter (\<lambda>c. c \<noteq> CHR 0x0A \<and> c \<noteq> CHR 0x0D) (b64_encode e s) = b64_encode e s"
    using lt assms by (auto simp: b64_encode_def b64_ok_def filter_id_conv)
  have v: "map (b64_val e) (b64_encode e s) = map Some (b64_sextets s)"
    using lt assms by (auto simp: b64_encode_def b64_ok_def)
  show ?thesis
    unfolding b64_decode_def f v by (simp add: Let_def o_def image_iff)
qed

lemmas b64_roundtrip [simp] =
  b64_decode_encode [OF b64_ok_alphabets(1)] b64_decode_encode [OF b64_ok_alphabets(2)]

end
