(* ===== verification/Services.thy ===== *)
theory Services
  imports Go_Conv "HOL-Library.Word"
begin

text \<open>
  The code outside the repository that the Go services call, as parameters of the model: the
  package \<open>google/uuid\<close> (\<^theory_text>\<open>uuid_lib\<close>) and a Redis server behind \<open>go-redis\<close>
  (\<^theory_text>\<open>redis\<close>, a record of the commands the code issues). What the code relies on is stated
  as the assumptions of two locales; the definitions of the components take the records as
  arguments. A reference instance of each shows that the assumptions can hold together.
\<close>

section \<open>UUIDs\<close>

type_synonym uuid = "128 word"   \<comment> \<open>\<open>uuid.UUID\<close> is \<open>[16]byte\<close>\<close>

definition uuid_Nil :: uuid where
  "uuid_Nil = 0"

record uuid_lib =
  ustr :: "uuid \<Rightarrow> string"            \<comment> \<open>\<open>UUID.String\<close>\<close>
  uparse :: "string \<Rightarrow> uuid option"   \<comment> \<open>\<open>uuid.Parse\<close>, \<open>None\<close> for an error\<close>

definition uuid_char :: "char \<Rightarrow> bool" where
  "uuid_char c \<longleftrightarrow> is_digit c \<or> 97 \<le> byte c \<and> byte c \<le> 102 \<or> c = CHR ''-''"

text \<open>\<open>String\<close> gives lower-case hexadecimal digits and dashes, and \<open>Parse\<close> reads them back.\<close>

locale uuid_library =
  fixes U :: uuid_lib
  assumes uparse_ustr [simp]: "uparse U (ustr U u) = Some u"
    and ustr_chars: "c \<in> set (ustr U u) \<Longrightarrow> uuid_char c"
    and ustr_not_Nil [simp]: "ustr U u \<noteq> []"
begin

lemma ustr_inject [simp]: "ustr U u = ustr U v \<longleftrightarrow> u = v"
  by (metis option.inject uparse_ustr)

lemma ustr_no_char: "\<not> uuid_char c \<Longrightarrow> c \<notin> set (ustr U u)"
  using ustr_chars by blast

lemma ustr_no_bar [simp]: "CHR ''|'' \<notin> set (ustr U u)"
  by (rule ustr_no_char) (simp add: uuid_char_def is_digit_def)

lemma ustr_no_colon [simp]: "CHR '':'' \<notin> set (ustr U u)"
  by (rule ustr_no_char) (simp add: uuid_char_def is_digit_def)

end

text \<open>A reference instance: a UUID is printed as its value in decimal.\<close>

definition ref_uuid :: uuid_lib where
  "ref_uuid =
     \<lparr>ustr = (\<lambda>u. nat_str (unat u)),
      uparse = (\<lambda>s. case parse_nat s of
                      None \<Rightarrow> None
                    | Some n \<Rightarrow> if n < 2 ^ 128 then Some (of_nat n) else None)\<rparr>"

interpretation ref_uuid: uuid_library ref_uuid
proof
  fix u :: uuid and c
  have "unat u < 2 ^ 128"
    using unsigned_less [of u] by simp
  then show "uparse ref_uuid (ustr ref_uuid u) = Some u"
    by (simp add: ref_uuid_def)
  show "ustr ref_uuid u \<noteq> []"
    by (simp add: ref_uuid_def)
  assume "c \<in> set (ustr ref_uuid u)"
  then show "uuid_char c"
    by (auto simp: ref_uuid_def uuid_char_def dest: set_nat_str)
qed

section \<open>Redis\<close>

text \<open>
  One field per command the code sends. \<open>rGet\<close> returns \<open>None\<close> for the reply \<open>redis.Nil\<close>.
  \<open>rMultiSet\<close> is a \<open>MULTI\<close> ... \<open>EXEC\<close> of \<open>SET\<close> commands (key, value, time to live in seconds,
  0 for none), which fails with \<open>TxFailedErr\<close> when a key under \<open>rWatch\<close> has changed.
  \<open>rEval\<close> runs a script, given as the commands it issues, on the server.
\<close>

record 'r redis =
  rGet :: "string \<Rightarrow> ('r, string option) run"
  rSet :: "string \<Rightarrow> string \<Rightarrow> int \<Rightarrow> ('r, unit) run"
  rDel :: "string \<Rightarrow> ('r, unit) run"
  rExists :: "string \<Rightarrow> ('r, int) run"
  rIncr :: "string \<Rightarrow> ('r, int) run"
  rDecr :: "string \<Rightarrow> ('r, int) run"
  rExpire :: "string \<Rightarrow> int \<Rightarrow> ('r, unit) run"
  rScan :: "nat \<Rightarrow> string \<Rightarrow> nat \<Rightarrow> ('r, string list \<times> nat) run"
  rWatch :: "string \<Rightarrow> ('r, unit) run"
  rMultiSet :: "(string \<times> string \<times> int) list \<Rightarrow> ('r, unit) run"
  rEval :: "('r, int) run \<Rightarrow> ('r, int) run"
  rPublish :: "string \<Rightarrow> string \<Rightarrow> ('r, unit) run"

type_synonym keyspace = "string \<rightharpoonup> string"

text \<open>The number a counter key holds: a missing key counts as 0.\<close>

definition counter_of :: "string option \<Rightarrow> int option" where
  "counter_of v = (case v of None \<Rightarrow> Some 0 | Some s \<Rightarrow> parse_int s)"

fun set_all :: "(string \<times> string \<times> int) list \<Rightarrow> keyspace \<Rightarrow> keyspace" where
  "set_all [] m = m"
| "set_all ((k, v, t) # xs) m = set_all xs (m(k \<mapsto> v))"

text \<open>
  The documented effect of each command on the keys that are set (\<open>view\<close>). A command that
  fails leaves the keys as they were; no key expires in the middle of a call (the times to
  live the code sets are two hours, a day and, for the call-rate counters, two seconds).
\<close>

locale redis_service =
  fixes R :: "'r redis" and view :: "'r \<Rightarrow> keyspace"
  assumes get_ok: "rGet R k s = (Inr v, s') \<Longrightarrow> view s k = v \<and> view s' = view s"
    and get_err: "rGet R k s = (Inl e, s') \<Longrightarrow> view s' = view s"
    and set_ok: "rSet R k x t s = (Inr u, s') \<Longrightarrow> view s' = (view s)(k \<mapsto> x)"
    and set_err: "rSet R k x t s = (Inl e, s') \<Longrightarrow> view s' = view s"
    and del_ok: "rDel R k s = (Inr u, s') \<Longrightarrow> view s' = (view s)(k := None)"
    and del_err: "rDel R k s = (Inl e, s') \<Longrightarrow> view s' = view s"
    and exists_ok: "rExists R k s = (Inr n, s') \<Longrightarrow>
      n = (if view s k = None then 0 else 1) \<and> view s' = view s"
    and exists_err: "rExists R k s = (Inl e, s') \<Longrightarrow> view s' = view s"
    and incr_ok: "rIncr R k s = (Inr n, s') \<Longrightarrow>
      counter_of (view s k) = Some (n - 1) \<and> in_int64 n \<and> view s' = (view s)(k \<mapsto> int_str n)"
    and incr_err: "rIncr R k s = (Inl e, s') \<Longrightarrow> view s' = view s"
    and decr_ok: "rDecr R k s = (Inr n, s') \<Longrightarrow>
      counter_of (view s k) = Some (n + 1) \<and> in_int64 n \<and> view s' = (view s)(k \<mapsto> int_str n)"
    and decr_err: "rDecr R k s = (Inl e, s') \<Longrightarrow> view s' = view s"
    and expire_view: "rExpire R k t s = (ru, s') \<Longrightarrow> view s' = view s"
    and scan_view: "rScan R c p cnt s = (pg, s') \<Longrightarrow> view s' = view s"
    and watch_view: "rWatch R k s = (ru, s') \<Longrightarrow> view s' = view s"
    and multi_ok: "rMultiSet R xs s = (Inr u, s') \<Longrightarrow> view s' = set_all xs (view s)"
    and multi_err: "rMultiSet R xs s = (Inl e, s') \<Longrightarrow> view s' = view s"
    and eval_ok: "rEval R sc s = (Inr n, s') \<Longrightarrow> sc s = (Inr n, s')"
    and eval_err: "rEval R sc s = (Inl e, s') \<Longrightarrow> view s' = view s \<or> view s' = view (snd (sc s))"
    and publish_view: "rPublish R ch msg s = (ru, s') \<Longrightarrow> view s' = view s"
begin

lemmas redis_laws = get_ok get_err set_ok set_err del_ok del_err exists_ok exists_err
  incr_ok incr_err decr_ok decr_err expire_view scan_view watch_view multi_ok multi_err
  publish_view

end

text \<open>
  A reference instance: the keys and a script of the failures to come, one entry per command,
  \<open>Some e\<close> for a command that fails with \<open>e\<close>; past its end every command succeeds. One
  \<open>SCAN\<close> returns all the keys the pattern's prefix selects, in the order of the list \<open>mr_order\<close>.
\<close>

record mem_redis_state =
  mr_keys :: keyspace
  mr_order :: "string list"
  mr_faults :: "goerr option list"
  mr_published :: "(string \<times> string) list"

definition mr_init :: mem_redis_state where
  "mr_init = \<lparr>mr_keys = Map.empty, mr_order = [], mr_faults = [], mr_published = []\<rparr>"

definition mr_step :: "(mem_redis_state \<Rightarrow> (goerr + 'a) \<times> mem_redis_state) \<Rightarrow> (mem_redis_state, 'a) run" where
  "mr_step f s =
     (case mr_faults s of
        [] \<Rightarrow> f s
      | None # fs \<Rightarrow> f (s\<lparr>mr_faults := fs\<rparr>)
      | Some e # fs \<Rightarrow> (Inl e, s\<lparr>mr_faults := fs\<rparr>))"

definition mr_count :: "int \<Rightarrow> string \<Rightarrow> (mem_redis_state, int) run" where
  "mr_count d k = mr_step (\<lambda>s.
     case counter_of (mr_keys s k) of
       None \<Rightarrow> (Inl (ErrMsg ''ERR value is not an integer or out of range''), s)
     | Some n \<Rightarrow>
         if in_int64 (n + d) then (Inr (n + d), s\<lparr>mr_keys := (mr_keys s)(k \<mapsto> int_str (n + d))\<rparr>)
         else (Inl (ErrMsg ''ERR increment or decrement would overflow''), s))"

definition mem_redis :: "mem_redis_state redis" where
  "mem_redis =
     \<lparr>rGet = (\<lambda>k. mr_step (\<lambda>s. (Inr (mr_keys s k), s))),
      rSet = (\<lambda>k v t. mr_step (\<lambda>s. (Inr (), s\<lparr>mr_keys := (mr_keys s)(k \<mapsto> v)\<rparr>))),
      rDel = (\<lambda>k. mr_step (\<lambda>s. (Inr (), s\<lparr>mr_keys := (mr_keys s)(k := None)\<rparr>))),
      rExists = (\<lambda>k. mr_step (\<lambda>s. (Inr (if mr_keys s k = None then 0 else 1), s))),
      rIncr = mr_count 1,
      rDecr = mr_count (- 1),
      rExpire = (\<lambda>k t. mr_step (\<lambda>s. (Inr (), s))),
      rScan = (\<lambda>c p n. mr_step (\<lambda>s.
        (Inr (filter (\<lambda>k. mr_keys s k \<noteq> None \<and> prefix (butlast p) k) (mr_order s), 0), s))),
      rWatch = (\<lambda>k. mr_step (\<lambda>s. (Inr (), s))),
      rMultiSet = (\<lambda>xs. mr_step (\<lambda>s. (Inr (), s\<lparr>mr_keys := set_all xs (mr_keys s)\<rparr>))),
      rEval = (\<lambda>sc. sc),
      rPublish = (\<lambda>c m. mr_step (\<lambda>s. (Inr (), s\<lparr>mr_published := (c, m) # mr_published s\<rparr>)))\<rparr>"

lemma mr_step_cases:
  assumes "mr_step f s = (r, s')"
  obtains (fault) e fs where "r = Inl e" "s' = s\<lparr>mr_faults := fs\<rparr>"
  | (run) fs where "f (s\<lparr>mr_faults := fs\<rparr>) = (r, s')"
proof (cases "mr_faults s")
  case Nil
  then have eq: "s\<lparr>mr_faults := []\<rparr> = s" by (cases s) simp
  from assms Nil have "f s = (r, s')" by (simp add: mr_step_def)
  then show ?thesis using run [of "[]"] unfolding eq by blast
next
  case (Cons a fs)
  with assms show ?thesis
    by (cases a) (auto simp: mr_step_def intro: fault run)
qed

lemma mr_count_view:
  assumes "mr_count d k s = (r, s')"
  shows "case r of
      Inl e \<Rightarrow> mr_keys s' = mr_keys s
    | Inr n \<Rightarrow> counter_of (mr_keys s k) = Some (n - d) \<and> in_int64 n \<and>
        mr_keys s' = (mr_keys s)(k \<mapsto> int_str n)"
  using assms unfolding mr_count_def
  by (elim mr_step_cases) (auto split: option.splits if_splits)

interpretation mem: redis_service mem_redis mr_keys
  by unfold_locales
     (auto simp: mem_redis_def elim!: mr_step_cases dest: mr_count_view split: prod.splits sum.splits)

lemmas mem_service = mem.redis_service_axioms

end
