(* ===== verification/Cps_Limiter.thy ===== *)
theory Cps_Limiter
  imports Services
begin

text \<open>
  The call-rate limiter: \<open>internal/cps/limiter.go\<close>, a counter per key and second, with its
  server-side script, and \<open>services/edge/internal/cpsgate/cpsgate.go\<close>, the key conventions
  of the edge. Instants are nanoseconds since the Unix epoch.
\<close>

type_synonym time = int

definition second :: time where
  "second = 1000000000"

definition time_Unix :: "time \<Rightarrow> int" where
  "time_Unix t = t div second"

definition windowTTLSeconds :: int where
  "windowTTLSeconds = 2"

text \<open>The script: count the call, give the new key its life time, take the count back over the cap.\<close>

definition allowScript :: "'r redis \<Rightarrow> string \<Rightarrow> int \<Rightarrow> int \<Rightarrow> ('r, int) run" where
  "allowScript R key maxCPS ttl =
     bindE (rIncr R key) (\<lambda>count.
     bindE (if count = 1 then rExpire R key ttl else retE ()) (\<lambda>_.
     if count > maxCPS then bindE (rDecr R key) (\<lambda>_. retE 0) else retE 1))"

definition windowKey :: "string \<Rightarrow> time \<Rightarrow> string" where
  "windowKey key now = key @ '':'' @ int_str (time_Unix now)"

definition Allow :: "'r redis \<Rightarrow> string \<Rightarrow> int \<Rightarrow> time \<Rightarrow> ('r, bool) run" where
  "Allow R key maxCPS now =
     (if maxCPS \<le> 0 then retE False
      else bindE (rEval R (allowScript R (windowKey key now) maxCPS windowTTLSeconds))
             (\<lambda>res. retE (res = 1)))"

definition globalKey :: string where
  "globalKey = ''cps:global''"

definition CarrierKey :: "string \<Rightarrow> string" where
  "CarrierKey cid = ''cps:carrier:'' @ cid"

definition AllowGlobal :: "'r redis \<Rightarrow> int \<Rightarrow> time \<Rightarrow> ('r, bool) run" where
  "AllowGlobal R maxCPS now = Allow R globalKey maxCPS now"

definition AllowCarrier :: "'r redis \<Rightarrow> string \<Rightarrow> int \<Rightarrow> time \<Rightarrow> ('r, bool) run" where
  "AllowCarrier R carrierID maxCPS now = Allow R (CarrierKey carrierID) maxCPS now"

section \<open>Requests one after the other\<close>

text \<open>A request to the limiter: key, cap and instant. A failed one does not stop the next.\<close>

type_synonym cps_request = "string \<times> int \<times> time"

definition req_window :: "cps_request \<Rightarrow> string" where
  "req_window q = windowKey (fst q) (snd (snd q))"

fun allow_all :: "'r redis \<Rightarrow> cps_request list \<Rightarrow> 'r \<Rightarrow> (cps_request \<times> (goerr + bool)) list \<times> 'r" where
  "allow_all R [] s = ([], s)"
| "allow_all R ((key, cap, now) # qs) s =
     (case Allow R key cap now s of
        (r, s') \<Rightarrow> (case allow_all R qs s' of (rs, s'') \<Rightarrow> (((key, cap, now), r) # rs, s'')))"

text \<open>How many requests of a window were let through.\<close>

definition allowed :: "string \<Rightarrow> (cps_request \<times> (goerr + bool)) list \<Rightarrow> nat" where
  "allowed w rs = length (filter (\<lambda>(q, r). req_window q = w \<and> r = Inr True) rs)"

lemma allowed_Nil [simp]: "allowed w [] = 0"
  by (simp add: allowed_def)

lemma allowed_Cons [simp]:
  "allowed w ((q, r) # rs) = (if req_window q = w \<and> r = Inr True then Suc (allowed w rs) else allowed w rs)"
  by (simp add: allowed_def)

text \<open>What a cap of \<open>k\<close> makes of \<open>n\<close> calls when \<open>c\<close> are already counted.\<close>

definition capped :: "nat \<Rightarrow> nat \<Rightarrow> nat \<Rightarrow> bool list" where
  "capped k c n = replicate (min n (k - c)) True @ replicate (n - (k - c)) False"

lemma capped_0 [simp]: "capped k c 0 = []"
  by (simp add: capped_def)

lemma capped_below: "c < k \<Longrightarrow> capped k c (Suc n) = True # capped k (Suc c) n"
  by (auto simp: capped_def dest!: less_imp_Suc_add)

lemma capped_full: "k \<le> c \<Longrightarrow> capped k c (Suc n) = False # capped k c n"
  by (simp add: capped_def)

context redis_service begin

text \<open>What a call does to the counter of a window, whether or not a command fails.\<close>

lemma allowScript_ok:
  assumes "allowScript R k cap ttl s = (Inr n, s')" and "counter_of (view s k) = Some c"
  shows "if cap \<le> c then n = 0 \<and> counter_of (view s' k) = Some c
         else n = 1 \<and> counter_of (view s' k) = Some (c + 1)"
  using assms unfolding allowScript_def
  by (auto simp: run_simps counter_of_def parse_int_int_str split: prod.splits sum.splits if_splits
      dest!: redis_laws)

text \<open>Whatever fails, the counter never falls below what it was, and no other key changes.\<close>

lemma allowScript_any:
  assumes "allowScript R k cap ttl s = (r, s')" and "counter_of (view s k) = Some c"
  shows "\<exists>c'. counter_of (view s' k) = Some c' \<and> c \<le> c'"
  using assms unfolding allowScript_def
  by (auto simp: run_simps counter_of_def parse_int_int_str split: prod.splits sum.splits if_splits
      dest!: redis_laws)

lemma allowScript_frame:
  assumes "allowScript R k cap ttl s = (r, s')" and "j \<noteq> k"
  shows "view s' j = view s j"
  using assms unfolding allowScript_def
  by (auto simp: run_simps split: prod.splits sum.splits if_splits dest!: redis_laws)

lemma Allow_ok:
  assumes "Allow R key cap now s = (Inr b, s')" and "0 < cap"
    and "counter_of (view s (windowKey key now)) = Some c"
  shows "b = (c < cap)"
    and "counter_of (view s' (windowKey key now)) = Some (if c < cap then c + 1 else c)"
  using assms unfolding Allow_def
  by (auto simp: run_simps split: prod.splits sum.splits if_splits dest!: eval_ok
      dest: allowScript_ok)

lemma Allow_view:
  assumes "Allow R key cap now s = (r, s')"
  shows "view s' = view s \<or>
    view s' = view (snd (allowScript R (windowKey key now) cap windowTTLSeconds s))"
  using assms unfolding Allow_def
  by (auto simp: run_simps split: prod.splits sum.splits if_splits dest!: eval_ok dest: eval_err)

lemma Allow_any:
  assumes "Allow R key cap now s = (r, s')" and "counter_of (view s (windowKey key now)) = Some c"
  shows "\<exists>c'. counter_of (view s' (windowKey key now)) = Some c' \<and> c \<le> c'"
  using Allow_view [OF assms(1)] assms(2)
    allowScript_any [OF surjective_pairing [of "allowScript R _ _ _ _"] assms(2)] by auto

lemma Allow_frame:
  assumes "Allow R key cap now s = (r, s')" and "j \<noteq> windowKey key now"
  shows "view s' j = view s j"
  using Allow_view [OF assms(1)]
    allowScript_frame [OF surjective_pairing [of "allowScript R _ _ _ _"] assms(2)] by auto

lemma allow_all_exact:
  assumes "allow_all R (map (\<lambda>t. (key, cap, t)) ts) s = (rs, s')" and "0 < cap"
    and "\<forall>t \<in> set ts. windowKey key t = w" and "\<forall>x \<in> set rs. \<not> isl (snd x)"
    and "counter_of (view s w) = Some (int c)"
  shows "map snd rs = map Inr (capped (nat cap) c (length ts))"
  using assms
proof (induction ts arbitrary: s rs c)
  case Nil
  then show ?case by simp
next
  case (Cons t ts)
  obtain r s1 where r: "Allow R key cap t s = (r, s1)" by (cases "Allow R key cap t s")
  obtain rs' where rs': "allow_all R (map (\<lambda>t. (key, cap, t)) ts) s1 = (rs', s')"
    and rs: "rs = ((key, cap, t), r) # rs'"
    using Cons.prems(1) r by (auto split: prod.splits)
  obtain b where b: "r = Inr b"
    using Cons.prems(4) rs by (cases r) auto
  have w: "windowKey key t = w" using Cons.prems(3) by simp
  let ?c = "if int c < cap then Suc c else c"
  have "b = (int c < cap)" and c': "counter_of (view s1 w) = Some (int ?c)"
    using Allow_ok [OF r [unfolded b] Cons.prems(2), of "int c"] Cons.prems(5) w by auto
  moreover have "map snd rs' = map Inr (capped (nat cap) ?c (length ts))"
    using Cons.IH [OF rs' Cons.prems(2) _ _ c'] Cons.prems rs by auto
  ultimately show ?case
    unfolding rs b by (auto simp: capped_below capped_full zless_nat_eq_int_zless)
qed

lemma allow_all_bound:
  assumes "allow_all R qs s = (rs, s')"
    and "\<forall>(k, c, t) \<in> set qs. windowKey k t = w \<longrightarrow> c = cap"
    and "counter_of (view s w) = Some c" and "0 \<le> c"
  shows "int (allowed w rs) \<le> max 0 (cap - c)"
  using assms
proof (induction qs arbitrary: s rs c)
  case Nil
  then show ?case by simp
next
  case (Cons q qs)
  obtain key cp now where q: "q = (key, cp, now)" by (cases q)
  obtain r s1 where r: "Allow R key cp now s = (r, s1)" by (cases "Allow R key cp now s")
  obtain rs' where rs': "allow_all R qs s1 = (rs', s')" and rs: "rs = (q, r) # rs'"
    using Cons.prems(1) r q by (auto split: prod.splits)
  show ?case
  proof (cases "windowKey key now = w")
    case True
    with Cons.prems(2) q have cp: "cp = cap" by auto
    obtain c1 where c1: "counter_of (view s1 w) = Some c1" "c \<le> c1"
      using Allow_any [OF r, of c] True Cons.prems(3) by auto
    have le: "int (allowed w rs') \<le> max 0 (cap - c1)"
      using Cons.IH [OF rs' _ c1(1)] Cons.prems c1(2) by auto
    show ?thesis
    proof (cases "r = Inr True")
      case True
      then have "0 < cap" using r cp by (auto simp: Allow_def split: if_splits)
      with True have "c < cap" "c1 = c + 1"
        using Allow_ok [OF r [unfolded True] _, of c] cp \<open>windowKey key now = w\<close> Cons.prems(3) c1(1) by auto
      with le show ?thesis using True rs by (auto split: if_splits)
    qed (use le c1 rs in auto)
  next
    case False
    then have "view s1 w = view s w"
      using Allow_frame [OF r] by metis
    then show ?thesis
      using Cons.IH [OF rs'] Cons.prems False rs q by (auto simp: req_window_def)
  qed
qed

end

section \<open>Properties\<close>

text \<open>
  C1. A window whose counter stands at \<open>c\<close> lets exactly the first \<open>cap - c\<close> of any number of
  calls through and refuses the rest, when no command fails.
\<close>

theorem cps_window_exact:
  assumes "redis_service R view"
    and "allow_all R (map (\<lambda>t. (key, cap, t)) ts) s = (rs, s')" and "0 < cap"
    and "\<forall>t \<in> set ts. windowKey key t = w" and "\<forall>x \<in> set rs. \<not> isl (snd x)"
    and "counter_of (view s w) = Some (int c)"
  shows "map snd rs = map Inr (replicate (min (length ts) (nat cap - c)) True @
           replicate (length ts - (nat cap - c)) False)"
  using redis_service.allow_all_exact [OF assms] by (simp add: capped_def)

theorem cps_window_exact_witness:
  "map snd (fst (allow_all mem_redis [(''k'', 1, 5), (''k'', 1, 7)] mr_init)) = [Inr True, Inr False]"
proof -
  let ?rs = "fst (allow_all mem_redis (map (\<lambda>t. (''k'', 1, t)) [5, 7]) mr_init)"
  have w: "\<forall>t \<in> set [5, 7]. windowKey ''k'' t = ''k:0''"
    by code_simp
  have ok: "\<forall>x \<in> set ?rs. \<not> isl (snd x)"
    by code_simp
  have c: "counter_of (mr_keys mr_init ''k:0'') = Some (int 0)"
    by (simp add: mr_init_def counter_of_def)
  show ?thesis
    using cps_window_exact [OF mem_service surjective_pairing _ w ok c] by (simp add: numeral_2_eq_2)
qed

text \<open>
  However requests to the limiter are mixed and whichever commands fail, a window whose
  requests share a cap lets at most \<open>cap\<close> of them through.
\<close>

theorem cps_window_safety:
  assumes "redis_service R view"
    and "\<forall>(k, c, t) \<in> set qs. windowKey k t = w \<longrightarrow> c = cap"
    and "view s w = None"
  shows "int (allowed w (fst (allow_all R qs s))) \<le> max 0 cap"
  using redis_service.allow_all_bound [OF assms(1) surjective_pairing assms(2), of s 0] assms(3)
  by (simp add: counter_of_def)

theorem cps_window_safety_witness:
  "int (allowed ''a:0'' (fst (allow_all mem_redis
     [(''a'', 1, 0), (''b'', 3, 0), (''a'', 1, 1)]
     (mr_init\<lparr>mr_faults := [None, Some (ErrMsg ''timeout'')]\<rparr>)))) \<le> max 0 1"
proof -
  have a: "\<forall>(k, c, t) \<in> set [(''a'', 1, 0), (''b'', 3, 0), (''a'', 1, 1)].
      windowKey k t = ''a:0'' \<longrightarrow> c = (1 :: int)"
    by code_simp
  show ?thesis
    by (rule cps_window_safety [OF mem_service a]) (simp add: mr_init_def)
qed

end
