(* ===== verification/Go_Json.thy ===== *)
theory Go_Json
  imports Go_Conv
begin

text \<open>
  The part of Go's \<open>encoding/json\<close> behind the values the edge keeps in Redis: \<open>Marshal\<close> of a
  struct of strings and \<open>Unmarshal\<close> of any text into such a struct. Bytes from 0x80 on are
  copied as they are (the strings are taken to be valid UTF-8 without U+2028 and U+2029).
\<close>

section \<open>Values and their text\<close>

datatype json =
    JNull | JBool bool | JNum string | JStr string | JArr "json list" | JObj "(string \<times> json) list"

definition quote_char :: char where
  "quote_char = CHR 0x22"

definition backslash :: char where
  "backslash = CHR 0x5C"

definition u_escape :: "nat \<Rightarrow> string" where
  "u_escape n = [backslash, CHR ''u'', CHR ''0'', CHR ''0'', hex_digit (n div 16), hex_digit (n mod 16)]"

text \<open>One byte of a string, with the HTML-safe escapes of \<open>Marshal\<close>.\<close>

definition json_byte :: "char \<Rightarrow> string" where
  "json_byte c =
     (if c = quote_char then [backslash, quote_char]
      else if c = backslash then [backslash, backslash]
      else if c = CHR 0x08 then [backslash, CHR ''b'']
      else if c = CHR 0x0C then [backslash, CHR ''f'']
      else if c = CHR 0x0A then [backslash, CHR ''n'']
      else if c = CHR 0x0D then [backslash, CHR ''r'']
      else if c = CHR 0x09 then [backslash, CHR ''t'']
      else if byte c < 32 \<or> c = CHR ''<'' \<or> c = CHR ''>'' \<or> c = CHR ''&'' then u_escape (byte c)
      else [c])"

definition json_string :: "string \<Rightarrow> string" where
  "json_string s = quote_char # concat (map json_byte s) @ [quote_char]"

definition json_member :: "string \<times> string \<Rightarrow> string" where
  "json_member kv = json_string (fst kv) @ CHR '':'' # json_string (snd kv)"

text \<open>\<open>json.Marshal\<close> of a struct of strings, as the list of its fields.\<close>

definition json_object :: "(string \<times> string) list \<Rightarrow> string" where
  "json_object kvs = CHR ''{'' # str_join '','' (map json_member kvs) @ ''}''"

section \<open>Reading a text\<close>

definition json_ws :: "char \<Rightarrow> bool" where
  "json_ws c \<longleftrightarrow> c = CHR 0x20 \<or> c = CHR 0x09 \<or> c = CHR 0x0A \<or> c = CHR 0x0D"

definition skip_ws :: "string \<Rightarrow> string" where
  "skip_ws s = dropWhile json_ws s"

text \<open>The next character that is no white space, if it is \<open>c\<close>.\<close>

definition eat :: "char \<Rightarrow> string \<Rightarrow> string option" where
  "eat c s = (case skip_ws s of [] \<Rightarrow> None | d # t \<Rightarrow> if d = c then Some t else None)"

definition utf8_encode :: "nat \<Rightarrow> string" where
  "utf8_encode n =
     (if n < 0x80 then [char_of n]
      else if n < 0x800 then [char_of (0xC0 + n div 64), char_of (0x80 + n mod 64)]
      else if n < 0x10000 then
        [char_of (0xE0 + n div 4096), char_of (0x80 + n div 64 mod 64), char_of (0x80 + n mod 64)]
      else [char_of (0xF0 + n div 262144), char_of (0x80 + n div 4096 mod 64),
            char_of (0x80 + n div 64 mod 64), char_of (0x80 + n mod 64)])"

fun hex4 :: "string \<Rightarrow> (nat \<times> string) option" where
  "hex4 (a # b # c # d # s) =
     (case (hex_val a, hex_val b, hex_val c, hex_val d) of
        (Some w, Some x, Some y, Some z) \<Rightarrow> Some (((w * 16 + x) * 16 + y) * 16 + z, s)
      | _ \<Rightarrow> None)"
| "hex4 _ = None"

definition high_surrogate :: "nat \<Rightarrow> bool" where
  "high_surrogate n \<longleftrightarrow> 0xD800 \<le> n \<and> n < 0xDC00"

definition low_surrogate :: "nat \<Rightarrow> bool" where
  "low_surrogate n \<longleftrightarrow> 0xDC00 \<le> n \<and> n < 0xE000"

text \<open>The code point of \<open>\uXXXX\<close>: a surrogate pair is joined, a lone surrogate replaced.\<close>

definition u_rune :: "string \<Rightarrow> (nat \<times> string) option" where
  "u_rune s =
     (case hex4 s of
        None \<Rightarrow> None
      | Some (n, t) \<Rightarrow>
          if high_surrogate n then
            (case (if prefix [backslash, CHR ''u''] t then hex4 (drop 2 t) else None) of
               Some (m, t') \<Rightarrow>
                 if low_surrogate m then Some (0x10000 + (n - 0xD800) * 0x400 + (m - 0xDC00), t')
                 else Some (0xFFFD, t)
             | None \<Rightarrow> Some (0xFFFD, t))
          else if low_surrogate n then Some (0xFFFD, t)
          else Some (n, t))"

definition simple_escape :: "char \<Rightarrow> char option" where
  "simple_escape c =
     (if c = quote_char \<or> c = backslash \<or> c = CHR ''/'' then Some c
      else if c = CHR ''b'' then Some (CHR 0x08) else if c = CHR ''f'' then Some (CHR 0x0C)
      else if c = CHR ''n'' then Some (CHR 0x0A) else if c = CHR ''r'' then Some (CHR 0x0D)
      else if c = CHR ''t'' then Some (CHR 0x09) else None)"

lemma hex4_length: "hex4 s = Some (n, t) \<Longrightarrow> length t < length s"
  by (induction s rule: hex4.induct) (auto split: option.splits)

lemma u_rune_length: "u_rune s = Some (n, t) \<Longrightarrow> length t < length s"
  unfolding u_rune_def
  by (auto split: option.splits if_splits dest!: hex4_length)

text \<open>The rest of a string after its opening quote.\<close>

function pstr :: "string \<Rightarrow> (string \<times> string) option" where
  "pstr [] = None"
| "pstr (c # s) =
     (if c = quote_char then Some ([], s)
      else if c = backslash then
        (case s of
           [] \<Rightarrow> None
         | d # t \<Rightarrow>
             if d = CHR ''u'' then
               (case u_rune t of
                  None \<Rightarrow> None
                | Some (n, r) \<Rightarrow> map_option (\<lambda>(x, r'). (utf8_encode n @ x, r')) (pstr r))
             else (case simple_escape d of
                     None \<Rightarrow> None
                   | Some e \<Rightarrow> map_option (\<lambda>(x, r'). (e # x, r')) (pstr t)))
      else if byte c < 32 then None
      else map_option (\<lambda>(x, r). (c # x, r)) (pstr s))"
  by pat_completeness auto
termination
  by (relation "measure length") (auto dest: u_rune_length)

declare pstr.simps(2) [simp del]

text \<open>Numbers: an optional minus, an integer part without leading zeros, fraction, exponent.\<close>

definition digits_then :: "string \<Rightarrow> (string \<times> string) option" where
  "digits_then s = (if takeWhile is_digit s = [] then None
                    else Some (takeWhile is_digit s, dropWhile is_digit s))"

definition pnum_frac :: "string \<Rightarrow> (string \<times> string) option" where
  "pnum_frac s =
     (if prefix ''.'' s then map_option (\<lambda>(d, r). (CHR ''.'' # d, r)) (digits_then (tl s))
      else Some ([], s))"

definition pnum_exp :: "string \<Rightarrow> (string \<times> string) option" where
  "pnum_exp s =
     (if prefix ''e'' s \<or> prefix ''E'' s then
        (let t = tl s; sign = (if prefix ''+'' t \<or> prefix ''-'' t then take 1 t else [])
         in map_option (\<lambda>(d, r). (hd s # sign @ d, r)) (digits_then (drop (length sign) t)))
      else Some ([], s))"

definition pnum :: "string \<Rightarrow> (string \<times> string) option" where
  "pnum s =
     (let neg = (if prefix ''-'' s then ''-'' else []); t = drop (length neg) s
      in case (if prefix ''0'' t then Some (''0'', tl t) else digits_then t) of
           None \<Rightarrow> None
         | Some (i, r) \<Rightarrow> (case pnum_frac r of
               None \<Rightarrow> None
             | Some (f, r') \<Rightarrow> map_option (\<lambda>(e, q). (neg @ i @ f @ e, q)) (pnum_exp r')))"

text \<open>
  A value, with fuel. Every call for a value inside another follows at least one character of
  its own, so the length of the text is enough fuel.
\<close>

fun pval :: "nat \<Rightarrow> string \<Rightarrow> (json \<times> string) option"
  and pelems :: "nat \<Rightarrow> string \<Rightarrow> (json list \<times> string) option"
  and pmembers :: "nat \<Rightarrow> string \<Rightarrow> ((string \<times> json) list \<times> string) option" where
  "pval 0 s = None"
| "pval (Suc f) s =
     (case skip_ws s of
        [] \<Rightarrow> None
      | c # t \<Rightarrow>
          if c = quote_char then map_option (\<lambda>(x, r). (JStr x, r)) (pstr t)
          else if c = CHR ''{'' then
            (case eat (CHR ''}'') t of
               Some r \<Rightarrow> Some (JObj [], r)
             | None \<Rightarrow> map_option (\<lambda>(ms, r). (JObj ms, r)) (pmembers f t))
          else if c = CHR ''['' then
            (case eat (CHR '']'') t of
               Some r \<Rightarrow> Some (JArr [], r)
             | None \<Rightarrow> map_option (\<lambda>(vs, r). (JArr vs, r)) (pelems f t))
          else if prefix ''true'' (c # t) then Some (JBool True, drop 3 t)
          else if prefix ''false'' (c # t) then Some (JBool False, drop 4 t)
          else if prefix ''null'' (c # t) then Some (JNull, drop 3 t)
          else map_option (\<lambda>(n, r). (JNum n, r)) (pnum (c # t)))"
| "pelems 0 s = None"
| "pelems (Suc f) s =
     (case pval f s of
        None \<Rightarrow> None
      | Some (v, r) \<Rightarrow>
          (case eat (CHR '','') r of
             Some r' \<Rightarrow> map_option (\<lambda>(vs, q). (v # vs, q)) (pelems f r')
           | None \<Rightarrow> map_option (\<lambda>r'. ([v], r')) (eat (CHR '']'') r)))"
| "pmembers 0 s = None"
| "pmembers (Suc f) s =
     (case Option.bind (eat quote_char s) pstr of
        None \<Rightarrow> None
      | Some (k, r) \<Rightarrow>
          (case Option.bind (eat (CHR '':'') r) (pval f) of
             None \<Rightarrow> None
           | Some (v, r') \<Rightarrow>
               (case eat (CHR '','') r' of
                  Some q \<Rightarrow> map_option (\<lambda>(ms, q'). ((k, v) # ms, q')) (pmembers f q)
                | None \<Rightarrow> map_option (\<lambda>q. ([(k, v)], q)) (eat (CHR ''}'') r'))))"

definition json_parse :: "string \<Rightarrow> json option" where
  "json_parse s =
     (case pval (2 * length s + 2) s of
        None \<Rightarrow> None
      | Some (v, r) \<Rightarrow> if skip_ws r = [] then Some v else None)"

section \<open>Unmarshal into a struct of strings\<close>

text \<open>
  The fields are named by their tags. A key selects the field it equals, or else the one it
  equals up to the case of its letters; the last occurrence of a field wins; \<open>null\<close> leaves a
  field alone; any other value that is no string is an error.
\<close>

definition find_field :: "string list \<Rightarrow> string \<Rightarrow> string option" where
  "find_field fs k =
     (case find (\<lambda>f. f = k) fs of
        Some f \<Rightarrow> Some f
      | None \<Rightarrow> find (\<lambda>f. to_lower f = to_lower k) fs)"

fun fill_fields :: "string list \<Rightarrow> (string \<times> json) list \<Rightarrow> (string \<Rightarrow> string) \<Rightarrow> (string \<Rightarrow> string) option" where
  "fill_fields fs [] v = Some v"
| "fill_fields fs ((k, j) # ms) v =
     (case find_field fs k of
        None \<Rightarrow> fill_fields fs ms v
      | Some f \<Rightarrow>
          (case j of
             JStr x \<Rightarrow> fill_fields fs ms (v(f := x))
           | JNull \<Rightarrow> fill_fields fs ms v
           | _ \<Rightarrow> None))"

definition unmarshal :: "string list \<Rightarrow> string \<Rightarrow> (string \<Rightarrow> string) option" where
  "unmarshal fs s =
     (case json_parse s of
        Some (JObj ms) \<Rightarrow> fill_fields fs ms (\<lambda>_. [])
      | Some JNull \<Rightarrow> Some (\<lambda>_. [])
      | _ \<Rightarrow> None)"

section \<open>Round trip\<close>

lemma hex_val_0 [simp]: "hex_val (CHR ''0'') = Some 0"
  by (simp add: hex_val_def is_digit_def)

lemma u_rune_u_escape: "byte c < 128 \<Longrightarrow>
  u_rune (CHR ''0'' # CHR ''0'' # hex_digit (byte c div 16) # hex_digit (byte c mod 16) # t) = Some (byte c, t)"
  by (simp add: u_rune_def byte_div_16 high_surrogate_def low_surrogate_def)

lemma pstr_plain:
  assumes "c \<noteq> quote_char" and "c \<noteq> backslash" and "32 \<le> byte c"
  shows "pstr (c # t) = map_option (\<lambda>(x, r). (c # x, r)) (pstr t)"
  using assms by (subst pstr.simps(2)) simp

lemma pstr_escape:
  assumes "simple_escape d = Some e" and "d \<noteq> CHR ''u''"
  shows "pstr (backslash # d # t) = map_option (\<lambda>(x, r). (e # x, r)) (pstr t)"
  using assms by (subst pstr.simps(2)) (simp add: quote_char_def backslash_def)

lemma pstr_u_escape:
  assumes "byte c < 128"
  shows "pstr (u_escape (byte c) @ t) = map_option (\<lambda>(x, r). (c # x, r)) (pstr t)"
  using assms unfolding u_escape_def
  by (subst append_Cons, subst pstr.simps(2))
     (simp add: u_rune_u_escape utf8_encode_def quote_char_def backslash_def split: option.split)

lemma json_byte_special:
  "json_byte quote_char = [backslash, quote_char]" "json_byte backslash = [backslash, backslash]"
  "json_byte (CHR 0x08) = [backslash, CHR ''b'']" "json_byte (CHR 0x0C) = [backslash, CHR ''f'']"
  "json_byte (CHR 0x0A) = [backslash, CHR ''n'']" "json_byte (CHR 0x0D) = [backslash, CHR ''r'']"
  "json_byte (CHR 0x09) = [backslash, CHR ''t'']"
  by (simp_all add: json_byte_def quote_char_def backslash_def)

lemma simple_escape_table:
  "simple_escape quote_char = Some quote_char" "simple_escape backslash = Some backslash"
  "simple_escape (CHR ''b'') = Some (CHR 0x08)" "simple_escape (CHR ''f'') = Some (CHR 0x0C)"
  "simple_escape (CHR ''n'') = Some (CHR 0x0A)" "simple_escape (CHR ''r'') = Some (CHR 0x0D)"
  "simple_escape (CHR ''t'') = Some (CHR 0x09)"
  by (simp_all add: simple_escape_def quote_char_def backslash_def)

lemma not_u [simp]: "quote_char \<noteq> CHR ''u''" "backslash \<noteq> CHR ''u''"
  by (simp_all add: quote_char_def backslash_def)

definition json_special :: "char \<Rightarrow> bool" where
  "json_special c \<longleftrightarrow> c = quote_char \<or> c = backslash \<or> c = CHR 0x08 \<or> c = CHR 0x0C \<or>
     c = CHR 0x0A \<or> c = CHR 0x0D \<or> c = CHR 0x09"

definition json_html :: "char \<Rightarrow> bool" where
  "json_html c \<longleftrightarrow> byte c < 32 \<or> c = CHR ''<'' \<or> c = CHR ''>'' \<or> c = CHR ''&''"

lemma json_byte_cases:
  "\<not> json_special c \<Longrightarrow> json_byte c = (if json_html c then u_escape (byte c) else [c])"
  by (simp add: json_byte_def json_special_def json_html_def)

lemma json_html_byte: "json_html c \<Longrightarrow> byte c < 128"
  by (auto simp: json_html_def)

lemma pstr_json_special:
  assumes "json_special c"
  shows "pstr (json_byte c @ t) = map_option (\<lambda>(x, r). (c # x, r)) (pstr t)"
  using assms unfolding json_special_def
  by (elim disjE; simp only: json_byte_special append_Cons append_Nil)
     (rule pstr_escape, rule simple_escape_table, simp)+

lemma pstr_json_byte: "pstr (json_byte c @ t) = map_option (\<lambda>(x, r). (c # x, r)) (pstr t)"
proof (cases "json_special c")
  case True
  then show ?thesis by (rule pstr_json_special)
next
  case False
  show ?thesis
  proof (cases "json_html c")
    case True
    then show ?thesis
      using pstr_u_escape [OF json_html_byte] by (simp add: json_byte_cases False)
  next
    case plain: False
    then have "c \<noteq> quote_char" "c \<noteq> backslash" "32 \<le> byte c"
      using False by (simp_all add: json_special_def json_html_def)
    from pstr_plain [OF this] show ?thesis by (simp add: json_byte_cases False plain)
  qed
qed

lemma pstr_json_string: "pstr (concat (map json_byte s) @ quote_char # t) = Some (s, t)"
proof (induction s)
  case Nil
  show ?case by (subst list.map, subst concat.simps, subst append_Nil, subst pstr.simps(2)) simp
next
  case (Cons c s)
  then show ?case by (simp add: pstr_json_byte)
qed

lemma skip_ws_id [simp]: "\<not> json_ws c \<Longrightarrow> skip_ws (c # s) = c # s"
  by (simp add: skip_ws_def)

lemma eat_hit [simp]: "\<not> json_ws c \<Longrightarrow> eat c (c # s) = Some s"
  by (simp add: eat_def)

lemma eat_miss: "\<not> json_ws d \<Longrightarrow> d \<noteq> c \<Longrightarrow> eat c (d # s) = None"
  by (simp add: eat_def)

lemma not_ws [simp]: "\<not> json_ws quote_char" "\<not> json_ws (CHR '':'')" "\<not> json_ws (CHR '','')"
  "\<not> json_ws (CHR ''{'')" "\<not> json_ws (CHR ''}'')"
  by (simp_all add: json_ws_def quote_char_def)

lemma pval_json_string: "pval (Suc f) (json_string s @ t) = Some (JStr s, t)"
  by (simp add: json_string_def pstr_json_string)

lemma pmembers_member:
  "pmembers (Suc (Suc g)) (json_member (k, v) @ u) =
     (case eat (CHR '','') u of
        Some q \<Rightarrow> map_option (\<lambda>(ms, q'). ((k, JStr v) # ms, q')) (pmembers (Suc g) q)
      | None \<Rightarrow> map_option (\<lambda>q. ([(k, JStr v)], q)) (eat (CHR ''}'') u))"
  by (simp add: json_member_def json_string_def pstr_json_string)

lemma pmembers_json:
  assumes "kvs \<noteq> []" and "length kvs < f"
  shows "pmembers f (str_join '','' (map json_member kvs) @ CHR ''}'' # t) =
    Some (map (\<lambda>(k, v). (k, JStr v)) kvs, t)"
  using assms
proof (induction kvs arbitrary: f)
  case Nil
  then show ?case by simp
next
  case (Cons kv kvs)
  obtain k v where kv: "kv = (k, v)" by (cases kv)
  obtain g where f: "f = Suc (Suc g)"
    using Cons.prems(2) by (cases f; cases "f - 1") auto
  show ?case
  proof (cases kvs)
    case Nil
    then show ?thesis
      unfolding kv f by (simp add: pmembers_member eat_miss del: pmembers.simps)
  next
    case (Cons kv' kvs')
    have "pmembers (Suc g) (str_join '','' (map json_member kvs) @ CHR ''}'' # t) =
        Some (map (\<lambda>(k, v). (k, JStr v)) kvs, t)"
      using Cons.IH [of "Suc g"] Cons.prems Cons f by simp
    then show ?thesis
      unfolding kv f Cons by (simp add: pmembers_member del: pmembers.simps)
  qed
qed

lemma length_json_object: "length kvs < length (json_object kvs)"
proof -
  have "length kvs \<le> length (str_join '','' (map json_member kvs))"
  proof (induction kvs rule: induct_list012)
    case (2 kv)
    then show ?case by (simp add: json_member_def)
  qed (simp_all add: json_member_def)
  then show ?thesis by (simp add: json_object_def)
qed

lemma json_member_quote: "str_join '','' (map json_member (kv # kvs)) =
  quote_char # tl (str_join '','' (map json_member (kv # kvs)))"
  by (cases kvs) (simp_all add: json_member_def json_string_def)

lemma json_parse_object:
  assumes "kvs \<noteq> []"
  shows "json_parse (json_object kvs) = Some (JObj (map (\<lambda>(k, v). (k, JStr v)) kvs))"
proof -
  let ?f = "2 * length (json_object kvs) + 1"
  let ?body = "str_join '','' (map json_member kvs) @ ''}''"
  have "length kvs < ?f"
    using length_json_object [of kvs] by simp
  then have "pmembers ?f ?body = Some (map (\<lambda>(k, v). (k, JStr v)) kvs, [])"
    using pmembers_json [OF assms, of ?f "[]"] by simp
  moreover have "eat (CHR ''}'') ?body = None"
  proof -
    obtain kv kvs' where k: "kvs = kv # kvs'" using assms by (cases kvs) auto
    have "quote_char \<noteq> CHR ''}''" by (simp add: quote_char_def)
    then show ?thesis
      unfolding k by (subst json_member_quote) (simp add: eat_miss del: list.map)
  qed
  ultimately have "pval (Suc ?f) (json_object kvs) = Some (JObj (map (\<lambda>(k, v). (k, JStr v)) kvs), [])"
    by (simp add: json_object_def quote_char_def del: pmembers.simps)
  then show ?thesis
    by (simp add: json_parse_def skip_ws_def del: pval.simps)
qed

lemma find_field_exact: "k \<in> set fs \<Longrightarrow> find_field fs k = Some k"
  by (auto simp: find_field_def find_None_iff find_Some_iff split: option.split)

lemma fill_fields_strings:
  assumes "fst ` set kvs \<subseteq> set fs" and "distinct (map fst kvs)"
  shows "fill_fields fs (map (\<lambda>(k, v). (k, JStr v)) kvs) g =
    Some (\<lambda>f. case map_of kvs f of Some x \<Rightarrow> x | None \<Rightarrow> g f)"
  using assms
proof (induction kvs arbitrary: g)
  case Nil
  then show ?case by simp
next
  case (Cons kv kvs)
  obtain k v where kv: "kv = (k, v)" by (cases kv)
  have "map_of kvs k = None"
    using Cons.prems(2) kv by (simp add: map_of_eq_None_iff)
  then have eq: "(\<lambda>f. case map_of kvs f of Some x \<Rightarrow> x | None \<Rightarrow> (g(k := v)) f) =
      (\<lambda>f. case map_of (kv # kvs) f of Some x \<Rightarrow> x | None \<Rightarrow> g f)"
    by (auto simp: kv fun_eq_iff split: option.split)
  have "fill_fields fs (map (\<lambda>(k, v). (k, JStr v)) (kv # kvs)) g =
      fill_fields fs (map (\<lambda>(k, v). (k, JStr v)) kvs) (g(k := v))"
    using Cons.prems kv by (simp add: find_field_exact)
  also have "\<dots> = Some (\<lambda>f. case map_of kvs f of Some x \<Rightarrow> x | None \<Rightarrow> (g(k := v)) f)"
    using Cons.prems by (intro Cons.IH) auto
  finally show ?case unfolding eq .
qed

lemma unmarshal_object:
  assumes "kvs \<noteq> []" and "fst ` set kvs \<subseteq> set fs" and "distinct (map fst kvs)"
  shows "unmarshal fs (json_object kvs) = Some (\<lambda>f. case map_of kvs f of Some x \<Rightarrow> x | None \<Rightarrow> [])"
  using assms by (simp add: unmarshal_def json_parse_object fill_fields_strings)

text \<open>A text that starts with a letter other than those of the literals is no JSON value.\<close>

lemma unmarshal_bare:
  assumes "\<not> json_ws c" "c \<notin> {quote_char, CHR ''{'', CHR ''['', CHR ''t'', CHR ''f'', CHR ''n'', CHR ''-''}"
    and "\<not> is_digit c"
  shows "unmarshal fs (c # s) = None"
proof -
  have "c \<noteq> CHR ''0''" using assms(3) by (auto simp: is_digit_def)
  moreover have "digits_then (c # s) = None" using assms(3) by (simp add: digits_then_def)
  ultimately have "pnum (c # s) = None" using assms(2) by (auto simp: pnum_def)
  then show ?thesis
    using assms by (auto simp: unmarshal_def json_parse_def)
qed

end
