(* ===== verification/Presence.thy ===== *)
theory Presence
  imports Cps_Limiter Go_Json
begin

text \<open>
  Agent presence, \<open>services/edge/internal/agent/presence.go\<close>: one Redis key per agent, whose
  value is a bare state or, for an agent that joined a campaign, a JSON object. The claims of
  inbound calls (\<open>available\<close> to \<open>on_call\<close>) are optimistic transactions.
\<close>

section \<open>Values\<close>

text \<open>\<open>State\<close> is a Go string type; its three constants.\<close>

type_synonym State = string

definition StateAvailable :: State where
  "StateAvailable = ''available''"

definition StatePaused :: State where
  "StatePaused = ''paused''"

definition StateOnCall :: State where
  "StateOnCall = ''on_call''"

lemmas State_defs = StateAvailable_def StatePaused_def StateOnCall_def

record presenceValue =
  pvState :: State
  pvCampaignID :: string

definition DefaultTTL :: int where
  "DefaultTTL = 2 * 3600"

text \<open>A time to live that is not positive becomes the default. In seconds.\<close>

definition NewPresence_ttl :: "int \<Rightarrow> int" where
  "NewPresence_ttl ttl = (if ttl \<le> 0 then DefaultTTL else ttl)"

definition Key :: "uuid_lib \<Rightarrow> uuid \<Rightarrow> string" where
  "Key U u = ''agent:'' @ ustr U u"

definition presence_fields :: "string list" where
  "presence_fields = [''state'', ''campaign_id'']"

definition parsePresence :: "string \<Rightarrow> goerr + presenceValue" where
  "parsePresence raw =
     (case unmarshal presence_fields raw of
        Some v \<Rightarrow>
          if v ''state'' \<noteq> [] then Inr \<lparr>pvState = v ''state'', pvCampaignID = v ''campaign_id''\<rparr>
          else if raw = StateAvailable \<or> raw = StatePaused \<or> raw = StateOnCall
          then Inr \<lparr>pvState = raw, pvCampaignID = []\<rparr>
          else Inl (ErrMsg ''invalid presence'')
      | None \<Rightarrow>
          if raw = StateAvailable \<or> raw = StatePaused \<or> raw = StateOnCall
          then Inr \<lparr>pvState = raw, pvCampaignID = []\<rparr>
          else Inl (ErrMsg ''invalid presence''))"

definition encodePresence :: "presenceValue \<Rightarrow> string" where
  "encodePresence v =
     (if pvCampaignID v = [] then pvState v
      else json_object [(''state'', pvState v), (''campaign_id'', pvCampaignID v)])"

section \<open>Operations\<close>

text \<open>\<open>redis.Nil\<close> is reported as \<open>ErrNotFound\<close> (of the package \<open>agent\<close>).\<close>

definition readPresence :: "'r redis \<Rightarrow> uuid_lib \<Rightarrow> uuid \<Rightarrow> ('r, presenceValue) run" where
  "readPresence R U u =
     bindE (rGet R (Key U u)) (\<lambda>val.
       case val of
         None \<Rightarrow> failE ErrPresenceNotFound
       | Some raw \<Rightarrow> (case parsePresence raw of Inl e \<Rightarrow> failE e | Inr v \<Rightarrow> retE v))"

definition writePresence :: "'r redis \<Rightarrow> uuid_lib \<Rightarrow> int \<Rightarrow> uuid \<Rightarrow> presenceValue \<Rightarrow> ('r, unit) run" where
  "writePresence R U ttl u v = rSet R (Key U u) (encodePresence v) ttl"

definition Start :: "'r redis \<Rightarrow> uuid_lib \<Rightarrow> int \<Rightarrow> uuid \<Rightarrow> ('r, unit) run" where
  "Start R U ttl u = writePresence R U ttl u \<lparr>pvState = StateAvailable, pvCampaignID = []\<rparr>"

definition Stop :: "'r redis \<Rightarrow> uuid_lib \<Rightarrow> uuid \<Rightarrow> ('r, unit) run" where
  "Stop R U u = rDel R (Key U u)"

definition Get :: "'r redis \<Rightarrow> uuid_lib \<Rightarrow> uuid \<Rightarrow> ('r, State) run" where
  "Get R U u = bindE (readPresence R U u) (\<lambda>v. retE (pvState v))"

definition SetCampaign :: "'r redis \<Rightarrow> uuid_lib \<Rightarrow> int \<Rightarrow> uuid \<Rightarrow> uuid option \<Rightarrow> ('r, unit) run" where
  "SetCampaign R U ttl u campaignID =
     bindE (readPresence R U u) (\<lambda>v.
       writePresence R U ttl u
         (case campaignID of
            None \<Rightarrow> v\<lparr>pvCampaignID := []\<rparr>
          | Some c \<Rightarrow> if c = uuid_Nil then v\<lparr>pvCampaignID := []\<rparr>
                      else v\<lparr>pvCampaignID := ustr U c\<rparr>))"

definition SetState :: "'r redis \<Rightarrow> uuid_lib \<Rightarrow> int \<Rightarrow> uuid \<Rightarrow> State \<Rightarrow> ('r, unit) run" where
  "SetState R U ttl u state =
     (if state \<noteq> StateAvailable \<and> state \<noteq> StatePaused then failE ErrInvalidState
      else bindE (rExists R (Key U u)) (\<lambda>n.
           if n = 0 then failE ErrPresenceNotFound
           else bindE (readPresence R U u) (\<lambda>v.
                writePresence R U ttl u (v\<lparr>pvState := state\<rparr>))))"

text \<open>
  What a claim and a release write over the value they read, \<open>None\<close> for a value they leave
  alone: the bodies of the two watched transactions.
\<close>

definition claim_value :: "string \<Rightarrow> string option" where
  "claim_value raw =
     (case parsePresence raw of
        Inl _ \<Rightarrow> None
      | Inr v \<Rightarrow> if pvState v \<noteq> StateAvailable then None
                 else Some (encodePresence (v\<lparr>pvState := StateOnCall\<rparr>)))"

definition release_value :: "string \<Rightarrow> string option" where
  "release_value raw =
     (case parsePresence raw of
        Inl _ \<Rightarrow> None
      | Inr v \<Rightarrow> if pvState v \<noteq> StateOnCall then None
                 else Some (encodePresence (v\<lparr>pvState := StateAvailable\<rparr>)))"

definition claimTxn :: "'r redis \<Rightarrow> string \<Rightarrow> int \<Rightarrow> ('r, unit) run" where
  "claimTxn R key ttl =
     bindE (rWatch R key) (\<lambda>_.
     bindE (rGet R key) (\<lambda>val.
       case val of
         None \<Rightarrow> failE ErrClaimMiss
       | Some raw \<Rightarrow> (case claim_value raw of
           None \<Rightarrow> failE ErrClaimMiss
         | Some new \<Rightarrow> rMultiSet R [(key, new, ttl)])))"

definition ClaimAvailable :: "'r redis \<Rightarrow> uuid_lib \<Rightarrow> int \<Rightarrow> uuid \<Rightarrow> ('r, bool) run" where
  "ClaimAvailable R U ttl u =
     tryE (claimTxn R (Key U u) ttl) (\<lambda>r.
       case r of
         Inl e \<Rightarrow> if errors_is e ErrClaimMiss then retE False
                  else if e = TxFailedErr then retE False else failE e
       | Inr _ \<Rightarrow> retE True)"

definition releaseTxn :: "'r redis \<Rightarrow> string \<Rightarrow> int \<Rightarrow> ('r, unit) run" where
  "releaseTxn R key ttl =
     bindE (rWatch R key) (\<lambda>_.
     bindE (rGet R key) (\<lambda>val.
       case val of
         None \<Rightarrow> retE ()
       | Some raw \<Rightarrow> (case release_value raw of
           None \<Rightarrow> retE ()
         | Some new \<Rightarrow> rMultiSet R [(key, new, ttl)])))"

definition ReleaseOnCall :: "'r redis \<Rightarrow> uuid_lib \<Rightarrow> int \<Rightarrow> uuid \<Rightarrow> ('r, unit) run" where
  "ReleaseOnCall R U ttl u =
     tryE (releaseTxn R (Key U u) ttl) (\<lambda>r.
       case r of
         Inl e \<Rightarrow> if e = TxFailedErr then retE () else failE e
       | Inr _ \<Rightarrow> retE ())"

section \<open>Reading back what was written\<close>

text \<open>A state whose first character cannot start a JSON value.\<close>

lemma unmarshal_states [simp]:
  "unmarshal fs StateAvailable = None" "unmarshal fs StatePaused = None"
  "unmarshal fs StateOnCall = None"
  by (simp_all add: State_defs unmarshal_bare json_ws_def quote_char_def is_digit_def)

lemma parse_states [simp]:
  "parsePresence StateAvailable = Inr \<lparr>pvState = StateAvailable, pvCampaignID = []\<rparr>"
  "parsePresence StatePaused = Inr \<lparr>pvState = StatePaused, pvCampaignID = []\<rparr>"
  "parsePresence StateOnCall = Inr \<lparr>pvState = StateOnCall, pvCampaignID = []\<rparr>"
  by (simp_all add: parsePresence_def)

definition known_state :: "State \<Rightarrow> bool" where
  "known_state s \<longleftrightarrow> s = StateAvailable \<or> s = StatePaused \<or> s = StateOnCall"

lemma known_states [simp]:
  "known_state StateAvailable" "known_state StatePaused" "known_state StateOnCall"
  by (simp_all add: known_state_def)

lemma State_distinct [simp]:
  "StateAvailable \<noteq> StatePaused" "StateAvailable \<noteq> StateOnCall" "StatePaused \<noteq> StateOnCall"
  "StatePaused \<noteq> StateAvailable" "StateOnCall \<noteq> StateAvailable" "StateOnCall \<noteq> StatePaused"
  "StateAvailable \<noteq> []" "StatePaused \<noteq> []" "StateOnCall \<noteq> []"
  by (simp_all add: State_defs)

lemma parse_encode:
  assumes "known_state (pvState v) \<or> pvState v \<noteq> [] \<and> pvCampaignID v \<noteq> []"
  shows "parsePresence (encodePresence v) = Inr v"
proof (cases "pvCampaignID v = []")
  case True
  with assms show ?thesis
    by (cases v) (auto simp: encodePresence_def known_state_def)
next
  case False
  have "pvState v \<noteq> []" using assms by (auto simp: known_state_def)
  with False show ?thesis
    by (simp add: encodePresence_def parsePresence_def unmarshal_object presence_fields_def)
qed


lemma parse_claimed [simp]:
  "parsePresence (encodePresence (v\<lparr>pvState := StateOnCall\<rparr>)) = Inr (v\<lparr>pvState := StateOnCall\<rparr>)"
  "parsePresence (encodePresence (v\<lparr>pvState := StateAvailable\<rparr>)) = Inr (v\<lparr>pvState := StateAvailable\<rparr>)"
  "parsePresence (encodePresence (v\<lparr>pvState := StatePaused\<rparr>)) = Inr (v\<lparr>pvState := StatePaused\<rparr>)"
  by (simp_all add: parse_encode)

lemma claim_claimed [simp]: "claim_value (encodePresence (v\<lparr>pvState := StateOnCall\<rparr>)) = None"
  by (simp add: claim_value_def)

lemma claim_valueD:
  "claim_value raw = Some new \<Longrightarrow>
   \<exists>v. parsePresence raw = Inr v \<and> pvState v = StateAvailable \<and>
       new = encodePresence (v\<lparr>pvState := StateOnCall\<rparr>)"
  by (auto simp: claim_value_def split: sum.splits if_splits)

lemma release_claim_value:
  "claim_value raw = Some new \<Longrightarrow>
   \<exists>v. parsePresence raw = Inr v \<and> release_value new = Some (encodePresence v)"
  by (auto dest!: claim_valueD simp: release_value_def)
     (metis presenceValue.surjective presenceValue.update_convs(1))

section \<open>The operations on a Redis server\<close>

text \<open>The stored value of an agent.\<close>

definition presence_at :: "keyspace \<Rightarrow> uuid_lib \<Rightarrow> uuid \<Rightarrow> presenceValue option" where
  "presence_at m U u =
     (case m (Key U u) of
        None \<Rightarrow> None
      | Some raw \<Rightarrow> (case parsePresence raw of Inl _ \<Rightarrow> None | Inr v \<Rightarrow> Some v))"

lemma presence_at_upd [simp]:
  "presence_at (m(Key U u \<mapsto> raw)) U u = (case parsePresence raw of Inl _ \<Rightarrow> None | Inr v \<Rightarrow> Some v)"
  by (simp add: presence_at_def)

context redis_service begin

lemma readPresence_ok:
  "readPresence R U u s = (Inr v, s') \<Longrightarrow> presence_at (view s) U u = Some v \<and> view s' = view s"
  unfolding readPresence_def presence_at_def
  by (auto simp: run_simps split: prod.splits sum.splits option.splits dest!: redis_laws)

lemma readPresence_view: "readPresence R U u s = (r, s') \<Longrightarrow> view s' = view s"
  unfolding readPresence_def
  by (auto simp: run_simps split: prod.splits sum.splits option.splits dest!: redis_laws)

lemma claimTxn_ok:
  assumes "claimTxn R k ttl s = (Inr x, s')"
  shows "\<exists>raw new. view s k = Some raw \<and> claim_value raw = Some new \<and> view s' = (view s)(k \<mapsto> new)"
  using assms unfolding claimTxn_def
  by (auto simp: run_simps split: prod.splits sum.splits option.splits dest!: redis_laws)

lemma claimTxn_err: "claimTxn R k ttl s = (Inl e, s') \<Longrightarrow> view s' = view s"
  unfolding claimTxn_def
  by (auto simp: run_simps split: prod.splits sum.splits option.splits dest!: redis_laws)

lemma ClaimAvailable_True:
  assumes "ClaimAvailable R U ttl u s = (Inr True, s')"
  shows "\<exists>raw new. view s (Key U u) = Some raw \<and> claim_value raw = Some new \<and>
           view s' = (view s)(Key U u \<mapsto> new)"
  using assms unfolding ClaimAvailable_def
  by (auto simp: run_simps split: prod.splits sum.splits if_splits dest!: claimTxn_ok)

lemma ClaimAvailable_other:
  "ClaimAvailable R U ttl u s = (r, s') \<Longrightarrow> r \<noteq> Inr True \<Longrightarrow> view s' = view s"
  unfolding ClaimAvailable_def
  by (auto simp: run_simps split: prod.splits sum.splits if_splits dest!: claimTxn_err)

lemma releaseTxn_view:
  assumes "releaseTxn R k ttl s = (Inr x, s')"
  shows "view s' = (case Option.bind (view s k) release_value of
                      None \<Rightarrow> view s | Some new \<Rightarrow> (view s)(k \<mapsto> new))"
  using assms unfolding releaseTxn_def
  by (auto simp: run_simps split: prod.splits sum.splits option.splits dest!: redis_laws)

lemma releaseTxn_err: "releaseTxn R k ttl s = (Inl e, s') \<Longrightarrow> view s' = view s"
  unfolding releaseTxn_def
  by (auto simp: run_simps split: prod.splits sum.splits option.splits dest!: redis_laws)

lemma ReleaseOnCall_view:
  "ReleaseOnCall R U ttl u s = (r, s') \<Longrightarrow>
   view s' = view s \<or> view s' = (case Option.bind (view s (Key U u)) release_value of
                                  None \<Rightarrow> view s | Some new \<Rightarrow> (view s)(Key U u \<mapsto> new))"
  unfolding ReleaseOnCall_def
  by (auto simp: run_simps split: prod.splits sum.splits if_splits dest!: releaseTxn_view releaseTxn_err)

lemma SetState_ok:
  assumes "SetState R U ttl u st s = (Inr x, s')"
  shows "(st = StateAvailable \<or> st = StatePaused) \<and>
    (\<exists>v. presence_at (view s) U u = Some v \<and>
         view s' = (view s)(Key U u \<mapsto> encodePresence (v\<lparr>pvState := st\<rparr>)))"
  using assms unfolding SetState_def writePresence_def
  by (auto simp: run_simps split: prod.splits sum.splits if_splits dest!: redis_laws readPresence_ok)

lemma SetState_err: "SetState R U ttl u st s = (Inl e, s') \<Longrightarrow> view s' = view s"
  unfolding SetState_def writePresence_def
  by (auto simp: run_simps split: prod.splits sum.splits if_splits
      dest!: redis_laws dest: readPresence_view)

end

section \<open>Claims that overlap\<close>

text \<open>
  Several calls of \<open>ClaimAvailable\<close> and other writers of one key, in the steps of the optimistic
  transaction: \<open>WATCH\<close> notes the version of the key, \<open>GET\<close> reads the value and \<open>EXEC\<close> writes
  the claimed value when the version is still the one noted. A state counts the claims that
  succeeded and the writes of others that left the agent claimable again.
\<close>

datatype claimer = Idle | Watched nat | Fetched nat "string option" | Claimed bool

record claim_state =
  cl_value :: "string option"
  cl_version :: nat
  cl_procs :: "nat \<Rightarrow> claimer"
  cl_wins :: nat
  cl_grants :: nat

definition claimable :: "string option \<Rightarrow> bool" where
  "claimable v \<longleftrightarrow> Option.bind v claim_value \<noteq> None"

definition exec_claim :: "nat \<Rightarrow> claim_state \<Rightarrow> claim_state" where
  "exec_claim p s =
     (case cl_procs s p of
        Fetched ver val \<Rightarrow>
          (case Option.bind val claim_value of
             None \<Rightarrow> s\<lparr>cl_procs := (cl_procs s)(p := Claimed False)\<rparr>
           | Some new \<Rightarrow>
               if cl_version s = ver then
                 s\<lparr>cl_value := Some new, cl_version := cl_version s + 1,
                   cl_procs := (cl_procs s)(p := Claimed True), cl_wins := cl_wins s + 1\<rparr>
               else s\<lparr>cl_procs := (cl_procs s)(p := Claimed False)\<rparr>)
      | _ \<Rightarrow> s)"

inductive claim_step :: "claim_state \<Rightarrow> claim_state \<Rightarrow> bool" where
  watch: "cl_procs s p = Idle \<Longrightarrow>
    claim_step s (s\<lparr>cl_procs := (cl_procs s)(p := Watched (cl_version s))\<rparr>)"
| fetch: "cl_procs s p = Watched ver \<Longrightarrow>
    claim_step s (s\<lparr>cl_procs := (cl_procs s)(p := Fetched ver (cl_value s))\<rparr>)"
| exec: "claim_step s (exec_claim p s)"
| other: "claim_step s (s\<lparr>cl_value := v, cl_version := cl_version s + 1,
    cl_grants := cl_grants s + (if claimable v then 1 else 0)\<rparr>)"

definition claim_inv :: "claim_state \<Rightarrow> bool" where
  "claim_inv s \<longleftrightarrow>
     cl_wins s + (if claimable (cl_value s) then 1 else 0) \<le> cl_grants s \<and>
     (\<forall>p ver. cl_procs s p = Watched ver \<longrightarrow> ver \<le> cl_version s) \<and>
     (\<forall>p ver val. cl_procs s p = Fetched ver val \<longrightarrow>
        ver \<le> cl_version s \<and> (ver = cl_version s \<longrightarrow> val = cl_value s))"

lemma not_claimable_claimed: "claim_value raw = Some new \<Longrightarrow> \<not> claimable (Some new)"
  by (auto simp: claimable_def dest!: claim_valueD)

lemma claim_inv_versions:
  assumes "claim_inv s"
  shows "cl_procs s p = Fetched ver val \<Longrightarrow> ver \<le> Suc (cl_version s) \<and> ver \<noteq> Suc (cl_version s)"
    and "cl_procs s p = Watched ver \<Longrightarrow> ver \<le> Suc (cl_version s)"
  using assms unfolding claim_inv_def by (fastforce, fastforce)

lemma claim_inv_exec:
  assumes "claim_inv s"
  shows "claim_inv (exec_claim p s)"
proof (cases "cl_procs s p")
  case (Fetched ver val)
  show ?thesis
  proof (cases "\<exists>new. Option.bind val claim_value = Some new \<and> cl_version s = ver")
    case True
    then obtain new where new: "Option.bind val claim_value = Some new" "cl_version s = ver" by blast
    with assms Fetched have "val = cl_value s" by (auto simp: claim_inv_def)
    with new have "claimable (cl_value s)" and "\<not> claimable (Some new)"
      by (auto simp: claimable_def bind_eq_Some_conv not_claimable_claimed dest: claim_valueD)
    moreover have "Suc (cl_wins s) \<le> cl_grants s"
      using assms \<open>claimable (cl_value s)\<close> by (simp add: claim_inv_def)
    ultimately show ?thesis
      using new Fetched claim_inv_versions [OF assms]
      by (auto simp: claim_inv_def exec_claim_def)
  next
    case False
    with assms Fetched show ?thesis
      by (auto simp: claim_inv_def exec_claim_def split: option.splits)
  qed
qed (use assms in \<open>auto simp: claim_inv_def exec_claim_def\<close>)

lemma claim_inv_step: "claim_step s t \<Longrightarrow> claim_inv s \<Longrightarrow> claim_inv t"
proof (induction rule: claim_step.induct)
  case (exec s p)
  then show ?case by (rule claim_inv_exec)
next
  case (other s v)
  then have "cl_wins s \<le> cl_grants s" by (simp add: claim_inv_def)
  with claim_inv_versions [OF other] show ?case
    by (auto simp: claim_inv_def)
qed (auto simp: claim_inv_def)

lemma claim_inv_steps: "claim_step\<^sup>*\<^sup>* s t \<Longrightarrow> claim_inv s \<Longrightarrow> claim_inv t"
  by (induction rule: rtranclp_induct) (auto dest: claim_inv_step)

definition claim_start :: "string option \<Rightarrow> claim_state" where
  "claim_start v = \<lparr>cl_value = v, cl_version = 0, cl_procs = (\<lambda>_. Idle), cl_wins = 0,
     cl_grants = (if claimable v then 1 else 0)\<rparr>"

lemma claim_inv_start: "claim_inv (claim_start v)"
  by (simp add: claim_inv_def claim_start_def)

section \<open>Properties\<close>

text \<open>
  Whatever state and campaign an agent's presence holds, writing it and reading it back gives
  the same value, in the bare and in the JSON form.
\<close>

theorem presence_write_read:
  assumes "redis_service R view" and "known_state (pvState v)"
    and "writePresence R U ttl u v s = (Inr (), s')" and "readPresence R U u s' = (r, s'')"
    and "\<not> isl r"
  shows "r = Inr v"
proof -
  have "presence_at (view s') U u = Some v"
    using redis_service.set_ok [OF assms(1)] assms(2, 3)
    by (auto simp: writePresence_def parse_encode)
  then show ?thesis
    using redis_service.readPresence_ok [OF assms(1), of U u s'] assms(4, 5) by (cases r) auto
qed

theorem presence_write_read_witness:
  "fst (readPresence mem_redis ref_uuid 7
     (snd (writePresence mem_redis ref_uuid 10 7 \<lparr>pvState = ''paused'', pvCampaignID = ''12''\<rparr> mr_init)))
   = Inr \<lparr>pvState = ''paused'', pvCampaignID = ''12''\<rparr>"
proof -
  let ?v = "\<lparr>pvState = ''paused'', pvCampaignID = ''12''\<rparr>"
  let ?w = "writePresence mem_redis ref_uuid 10 7 ?v mr_init"
  have w: "?w = (Inr (), snd ?w)"
    by (simp add: writePresence_def mem_redis_def mr_step_def mr_init_def)
  have r: "\<not> isl (fst (readPresence mem_redis ref_uuid 7 (snd ?w)))"
    by code_simp
  have k: "known_state (pvState ?v)"
    by (simp add: known_state_def StatePaused_def)
  show ?thesis
    by (rule presence_write_read [OF mem_service k w surjective_pairing r])
qed

text \<open>
  A claim that succeeds found the agent available and leaves exactly that agent on a call,
  in the same campaign; a claim that does not succeed changes no key.
\<close>

theorem claim_available:
  assumes "redis_service R view" and "ClaimAvailable R U ttl u s = (r, s')"
  shows "if r = Inr True
         then \<exists>v. presence_at (view s) U u = Some v \<and> pvState v = StateAvailable \<and>
                  presence_at (view s') U u = Some (v\<lparr>pvState := StateOnCall\<rparr>) \<and>
                  (\<forall>k. k \<noteq> Key U u \<longrightarrow> view s' k = view s k)
         else view s' = view s"
proof (cases "r = Inr True")
  case True
  obtain raw new where "view s (Key U u) = Some raw" "claim_value raw = Some new"
    "view s' = (view s)(Key U u \<mapsto> new)"
    using redis_service.ClaimAvailable_True [OF assms(1)] assms(2) True by blast
  then show ?thesis
    using True by (auto simp: presence_at_def dest!: claim_valueD)
next
  case False
  then show ?thesis
    using redis_service.ClaimAvailable_other [OF assms] by simp
qed

theorem claim_available_witness:
  "\<exists>s'. ClaimAvailable mem_redis ref_uuid 10 7 (snd (Start mem_redis ref_uuid 10 7 mr_init)) = (Inr True, s') \<and>
     presence_at (mr_keys s') ref_uuid 7 = Some \<lparr>pvState = StateOnCall, pvCampaignID = []\<rparr>"
proof -
  let ?s = "snd (Start mem_redis ref_uuid 10 7 mr_init)"
  let ?c = "ClaimAvailable mem_redis ref_uuid 10 7 ?s"
  have c: "?c = (Inr True, snd ?c)"
    by (rule prod_eqI) (code_simp, simp)
  have p: "presence_at (mr_keys ?s) ref_uuid 7 = Some \<lparr>pvState = StateAvailable, pvCampaignID = []\<rparr>"
    by code_simp
  show ?thesis
    using claim_available [OF mem_service c] p c by (intro exI [of _ "snd ?c"]) auto
qed

text \<open>
  C2. However the steps of several claims and other writes of one agent's key interleave, the
  claims that succeed are at most as many as the times the agent was made available: none of
  two overlapping claims is won twice.
\<close>

theorem claim_exclusive:
  assumes "claim_step\<^sup>*\<^sup>* (claim_start v) t"
  shows "cl_wins t \<le> cl_grants t"
  using claim_inv_steps [OF assms claim_inv_start] by (simp add: claim_inv_def)

theorem claim_exclusive_witness:
  "\<exists>t. claim_step\<^sup>*\<^sup>* (claim_start (Some ''available'')) t \<and> cl_procs t 0 = Claimed True \<and>
     cl_wins t \<le> cl_grants t"
proof -
  let ?s0 = "claim_start (Some ''available'')"
  let ?s1 = "?s0\<lparr>cl_procs := (cl_procs ?s0)(0 := Watched (cl_version ?s0))\<rparr>"
  let ?s2 = "?s1\<lparr>cl_procs := (cl_procs ?s1)(0 := Fetched 0 (cl_value ?s1))\<rparr>"
  let ?t = "exec_claim 0 ?s2"
  have "claim_step ?s0 ?s1" by (rule claim_step.watch) (simp add: claim_start_def)
  moreover have "claim_step ?s1 ?s2" by (rule claim_step.fetch) (simp add: claim_start_def)
  moreover have "claim_step ?s2 ?t" by (rule claim_step.exec)
  ultimately have steps: "claim_step\<^sup>*\<^sup>* ?s0 ?t"
    by (meson converse_rtranclp_into_rtranclp r_into_rtranclp)
  have av: "claim_value ''available'' = Some (encodePresence \<lparr>pvState = StateOnCall, pvCampaignID = []\<rparr>)"
    using parse_states(1) unfolding StateAvailable_def
    by (simp add: claim_value_def StateAvailable_def)
  have "cl_procs ?t 0 = Claimed True"
    by (simp add: exec_claim_def claim_start_def av)
  with claim_exclusive [OF steps] steps show ?thesis by blast
qed

text \<open>
  Releasing an agent after a successful claim gives back the presence the agent had before
  the claim, and no other key changes.
\<close>

theorem claim_release:
  assumes "redis_service R view"
    and "ClaimAvailable R U ttl u s = (Inr True, s')" and "releaseTxn R (Key U u) ttl s' = (Inr (), s'')"
  shows "presence_at (view s'') U u = presence_at (view s) U u \<and>
    (\<forall>k. k \<noteq> Key U u \<longrightarrow> view s'' k = view s k)"
proof -
  obtain raw new where c: "view s (Key U u) = Some raw" "claim_value raw = Some new"
    "view s' = (view s)(Key U u \<mapsto> new)"
    using redis_service.ClaimAvailable_True [OF assms(1, 2)] by blast
  obtain v where v: "parsePresence raw = Inr v" "release_value new = Some (encodePresence v)"
    using release_claim_value [OF c(2)] by blast
  have "view s'' = (view s')(Key U u \<mapsto> encodePresence v)"
    using redis_service.releaseTxn_view [OF assms(1, 3)] c v by simp
  moreover have "pvState v = StateAvailable"
    using claim_valueD [OF c(2)] v(1) by auto
  ultimately show ?thesis
    using c v by (simp add: presence_at_def parse_encode)
qed

theorem claim_release_witness:
  "let s0 = snd (Start mem_redis ref_uuid 10 7 mr_init);
       s1 = snd (ClaimAvailable mem_redis ref_uuid 10 7 s0);
       s2 = snd (releaseTxn mem_redis (Key ref_uuid 7) 10 s1)
   in presence_at (mr_keys s1) ref_uuid 7 \<noteq> presence_at (mr_keys s0) ref_uuid 7 \<and>
      presence_at (mr_keys s2) ref_uuid 7 = presence_at (mr_keys s0) ref_uuid 7"
proof -
  let ?s0 = "snd (Start mem_redis ref_uuid 10 7 mr_init)"
  let ?c = "ClaimAvailable mem_redis ref_uuid 10 7 ?s0"
  let ?r = "releaseTxn mem_redis (Key ref_uuid 7) 10 (snd ?c)"
  have c: "?c = (Inr True, snd ?c)" by (rule prod_eqI) (code_simp, simp)
  have r: "?r = (Inr (), snd ?r)" by (rule prod_eqI) (code_simp, simp)
  have d: "presence_at (mr_keys (snd ?c)) ref_uuid 7 \<noteq> presence_at (mr_keys ?s0) ref_uuid 7"
    by code_simp
  show ?thesis
    using claim_release [OF mem_service c r] d by (simp add: Let_def)
qed

end
