(* ===== verification/Authkit.thy ===== *)
theory Authkit
  imports Services Cps_Limiter
begin

text \<open>
  The shared packages \<open>internal/authkit\<close> (password hashes, session and pending-login tokens,
  TOTP) and \<open>internal/cryptokit\<close> (AES-256-GCM). The primitives of \<open>golang.org/x/crypto\<close>,
  \<open>crypto/*\<close> and \<open>pquerna/otp\<close> are the parameter \<^theory_text>\<open>crypto\<close>; random bytes are
  arguments, \<open>None\<close> for a failed read.
\<close>

section \<open>The primitives\<close>

text \<open>
  \<open>argon2id\<close> is \<open>argon2.IDKey\<close> (password, salt, time, memory, threads, key length), which
  panics (\<open>None\<close>) on parameters out of range. \<open>gcm_open\<close> is \<open>None\<close> when the tag does not match.
\<close>

record crypto =
  argon2id :: "string \<Rightarrow> string \<Rightarrow> nat \<Rightarrow> nat \<Rightarrow> nat \<Rightarrow> nat \<Rightarrow> string option"
  sha256 :: "string \<Rightarrow> string"
  hmac256 :: "string \<Rightarrow> string \<Rightarrow> string"
  gcm_seal :: "string \<Rightarrow> string \<Rightarrow> string \<Rightarrow> string"
  gcm_open :: "string \<Rightarrow> string \<Rightarrow> string \<Rightarrow> string option"
  totp_validate :: "string \<Rightarrow> string \<Rightarrow> time \<Rightarrow> bool"

locale crypto_library =
  fixes C :: crypto
  assumes argon2id_ok: "1 \<le> t \<Longrightarrow> 1 \<le> p \<Longrightarrow> 1 \<le> n \<Longrightarrow> \<exists>h. argon2id C pw salt t m p n = Some h \<and> length h = n"
    and gcm_open_seal: "length key = 32 \<Longrightarrow> length nonce = 12 \<Longrightarrow>
      gcm_open C key nonce (gcm_seal C key nonce pt) = Some pt"

definition ref_crypto :: crypto where
  "ref_crypto =
     \<lparr>argon2id = (\<lambda>pw salt t m p n. if t = 0 \<or> p = 0 \<or> n = 0 then None
                     else Some (take n (pw @ salt @ replicate n (CHR 0x00)))),
      sha256 = (\<lambda>x. take 32 (x @ replicate 32 (CHR 0x00))),
      hmac256 = (\<lambda>k x. take 32 (k @ x @ replicate 32 (CHR 0x00))),
      gcm_seal = (\<lambda>k n x. x @ take 16 k),
      gcm_open = (\<lambda>k n x. if suffix (take 16 k) x then Some (take (length x - length (take 16 k)) x) else None),
      totp_validate = (\<lambda>code secret now. code = secret)\<rparr>"

interpretation ref_crypto: crypto_library ref_crypto
  by unfold_locales (auto simp: ref_crypto_def suffix_def)

section \<open>Passwords: \<open>password.go\<close>\<close>

definition argonTime :: nat where
  "argonTime = 3"

definition argonMemory :: nat where
  "argonMemory = 64 * 1024"

definition argonThreads :: nat where
  "argonThreads = 2"

definition argonKeyLen :: nat where
  "argonKeyLen = 32"

definition argonSaltLen :: nat where
  "argonSaltLen = 16"

text \<open>\<open>argon2.Version\<close>.\<close>

definition argon2_Version :: nat where
  "argon2_Version = 0x13"

lemmas argon_defs = argonTime_def argonMemory_def argonThreads_def argonKeyLen_def argonSaltLen_def
  argon2_Version_def

text \<open>The result of a function that may panic is an option.\<close>

definition HashPassword :: "crypto \<Rightarrow> string option \<Rightarrow> string \<Rightarrow> (goerr + string) option" where
  "HashPassword C rnd pw =
     (case rnd of
        None \<Rightarrow> Some (Inl (ErrMsg ''generate salt''))
      | Some salt \<Rightarrow>
          (case argon2id C pw salt argonTime argonMemory argonThreads argonKeyLen of
             None \<Rightarrow> None
           | Some hash \<Rightarrow>
               Some (Inr (''$argon2id$v='' @ nat_str argon2_Version @
                 ''$m='' @ nat_str argonMemory @ '',t='' @ nat_str argonTime @ '',p='' @ nat_str argonThreads @
                 ''$'' @ b64_encode RawStd salt @ ''$'' @ b64_encode RawStd hash))))"

text \<open>
  \<open>fmt.Sscanf\<close>: a literal must stand in the input, \<open>%d\<close> skips blanks, where a newline is an
  error, and reads a number that fits its type; what follows the last verb is not looked at.
\<close>

definition newline :: char where
  "newline = CHR 0x0A"

definition scan_lit :: "string \<Rightarrow> string \<Rightarrow> string option" where
  "scan_lit p s = (if prefix p s then Some (drop (length p) s) else None)"

definition scan_uint :: "string \<Rightarrow> (nat \<times> string) option" where
  "scan_uint s =
     (let t = trim_with (filter (\<lambda>p. p \<noteq> [newline]) go_spaces) s; ds = takeWhile is_digit t
      in if ds = [] \<or> \<not> digits_val ds < 2 ^ 32 then None
         else Some (digits_val ds, drop (length ds) t))"

definition scan_int :: "string \<Rightarrow> (int \<times> string) option" where
  "scan_int s =
     (let t = trim_with (filter (\<lambda>p. p \<noteq> [newline]) go_spaces) s;
          sign = (if prefix ''-'' t \<or> prefix ''+'' t then take 1 t else []);
          ds = takeWhile is_digit (drop (length sign) t)
      in if ds = [] then None
         else map_option (\<lambda>i. (i, drop (length sign + length ds) t)) (parse_int (sign @ ds)))"

definition scan_version :: "string \<Rightarrow> int option" where
  "scan_version s = map_option fst (Option.bind (scan_lit ''v='' s) scan_int)"

definition scan_params :: "string \<Rightarrow> (nat \<times> nat \<times> nat) option" where
  "scan_params s =
     Option.bind (Option.bind (scan_lit ''m='' s) scan_uint) (\<lambda>(m, r).
     Option.bind (Option.bind (scan_lit '',t='' r) scan_uint) (\<lambda>(t, r').
     Option.bind (Option.bind (scan_lit '',p='' r') scan_uint) (\<lambda>(p, _). Some (m, t, p))))"

record argon2id_parts =
  ap_salt :: string
  ap_hash :: string
  ap_time :: nat
  ap_memory :: nat
  ap_threads :: nat    \<comment> \<open>\<open>uint8\<close>\<close>
  ap_keyLen :: nat

definition decodeArgon2idHash :: "string \<Rightarrow> goerr + argon2id_parts" where
  "decodeArgon2idHash encoded =
     (let parts = split_on (CHR ''$'') encoded
      in if length parts \<noteq> 6 \<or> parts ! 1 \<noteq> ''argon2id'' then Inl (ErrMsg ''invalid argon2id hash format'')
         else case scan_version (parts ! 2) of
           None \<Rightarrow> Inl (ErrMsg ''parse version'')
         | Some version \<Rightarrow>
             if version \<noteq> int argon2_Version then Inl (ErrMsg ''unsupported argon2 version'')
             else case scan_params (parts ! 3) of
               None \<Rightarrow> Inl (ErrMsg ''parse params'')
             | Some (m, t, p) \<Rightarrow>
                 (case b64_decode RawStd (parts ! 4) of
                    None \<Rightarrow> Inl (ErrMsg ''decode salt'')
                  | Some salt \<Rightarrow>
                      (case b64_decode RawStd (parts ! 5) of
                         None \<Rightarrow> Inl (ErrMsg ''decode hash'')
                       | Some hash \<Rightarrow>
                           Inr \<lparr>ap_salt = salt, ap_hash = hash, ap_time = t, ap_memory = m,
                                ap_threads = p mod 256, ap_keyLen = length hash mod 2 ^ 32\<rparr>)))"

definition VerifyPassword :: "crypto \<Rightarrow> string \<Rightarrow> string \<Rightarrow> bool option" where
  "VerifyPassword C hash pw =
     (case decodeArgon2idHash hash of
        Inl _ \<Rightarrow> Some False
      | Inr a \<Rightarrow>
          (case argon2id C pw (ap_salt a) (ap_time a) (ap_memory a) (ap_threads a) (ap_keyLen a) of
             None \<Rightarrow> None
           | Some got \<Rightarrow> Some (got = ap_hash a)))"

section \<open>Tokens: \<open>session.go\<close>\<close>

definition sessionTokenBytes :: nat where
  "sessionTokenBytes = 32"

definition HashToken :: "crypto \<Rightarrow> string \<Rightarrow> string" where
  "HashToken C plain = hex_encode (sha256 C plain)"

definition NewSessionToken :: "crypto \<Rightarrow> string option \<Rightarrow> goerr + (string \<times> string)" where
  "NewSessionToken C rnd =
     (case rnd of
        None \<Rightarrow> Inl (ErrMsg ''generate session token'')
      | Some buf \<Rightarrow> (let plain = b64_encode RawURL buf in Inr (plain, HashToken C plain)))"

definition NewPendingToken ::
  "crypto \<Rightarrow> uuid_lib \<Rightarrow> uuid \<Rightarrow> string \<Rightarrow> time \<Rightarrow> time \<Rightarrow> goerr + string" where
  "NewPendingToken C U userID secret ttl now =
     (if length secret < 32 then Inl (ErrMsg ''session secret must be at least 32 bytes'')
      else let expires = time_Unix (now + ttl);
               payload = ustr U userID @ ''|'' @ int_str expires;
               sig = hex_encode (hmac256 C secret payload)
           in Inr (b64_encode RawURL (payload @ ''|'' @ sig)))"

definition ParsePendingToken ::
  "crypto \<Rightarrow> uuid_lib \<Rightarrow> string \<Rightarrow> string \<Rightarrow> time \<Rightarrow> goerr + uuid" where
  "ParsePendingToken C U token secret now =
     (if length secret < 32 then Inl (ErrMsg ''session secret must be at least 32 bytes'')
      else case b64_decode RawURL token of
        None \<Rightarrow> Inl (ErrMsg ''decode pending token'')
      | Some raw \<Rightarrow>
          (let parts = split_on (CHR ''|'') raw
           in if length parts \<noteq> 3 then Inl (ErrMsg ''invalid pending token format'')
              else case uparse U (parts ! 0) of
                None \<Rightarrow> Inl (ErrMsg ''parse user id'')
              | Some userID \<Rightarrow>
                  (case parse_int (parts ! 1) of
                     None \<Rightarrow> Inl (ErrMsg ''parse expiry'')
                   | Some expires \<Rightarrow>
                       if time_Unix now > expires then Inl (ErrMsg ''pending token expired'')
                       else let payload = parts ! 0 @ ''|'' @ parts ! 1;
                                expected = hex_encode (hmac256 C secret payload)
                            in if expected \<noteq> parts ! 2 then Inl (ErrMsg ''invalid pending token signature'')
                               else Inr userID)))"

section \<open>TOTP: \<open>totp.go\<close>\<close>

definition totpIssuer :: string where
  "totpIssuer = ''CallVoice''"

text \<open>\<open>url.QueryEscape\<close> and \<open>url.PathEscape\<close>: the bytes that stand for themselves differ.\<close>

definition url_unreserved :: "char \<Rightarrow> bool" where
  "url_unreserved c \<longleftrightarrow> is_upper c \<or> is_lower c \<or> is_digit c \<or> c \<in> set ''-_.~''"

definition pct :: "char \<Rightarrow> string" where
  "pct c = CHR ''%'' # to_upper (hex_encode [c])"

definition query_escape :: "string \<Rightarrow> string" where
  "query_escape s = concat (map (\<lambda>c. if url_unreserved c then [c] else if c = CHR '' '' then ''+'' else pct c) s)"

definition path_escape :: "string \<Rightarrow> string" where
  "path_escape s = concat (map (\<lambda>c. if url_unreserved c \<or> c \<in> set ''$&+=:@'' then [c] else pct c) s)"

text \<open>\<open>url.Values.Encode\<close> writes the keys in order.\<close>

definition OTPAuthURL :: "string \<Rightarrow> string \<Rightarrow> string" where
  "OTPAuthURL secret email =
     ''otpauth://totp/'' @ path_escape (totpIssuer @ '':'' @ email) @ ''?'' @
     str_join ''&'' (map (\<lambda>(k, v). query_escape k @ ''='' @ query_escape v)
       [(''algorithm'', ''SHA1''), (''digits'', ''6''), (''issuer'', totpIssuer),
        (''period'', ''30''), (''secret'', secret)])"

text \<open>\<open>totp.Generate\<close> and \<open>totp.GenerateCode\<close> are parameters: a secret for the options, and the code at a time.\<close>

record GenerateOpts =
  go_Issuer :: string
  go_AccountName :: string
  go_Period :: nat
  go_Digits :: nat
  go_Algorithm :: string

definition GenerateTOTPSecret :: "(GenerateOpts \<Rightarrow> goerr + string) \<Rightarrow> goerr + string" where
  "GenerateTOTPSecret generate =
     map_sum (ErrWrap ''generate totp secret'') id
       (generate \<lparr>go_Issuer = totpIssuer, go_AccountName = ''setup'', go_Period = 30, go_Digits = 6, go_Algorithm = ''SHA1''\<rparr>)"

definition GenerateTOTPCode :: "(string \<Rightarrow> time \<Rightarrow> goerr + string) \<Rightarrow> string \<Rightarrow> time \<Rightarrow> goerr + string" where
  "GenerateTOTPCode generateCode secret now = generateCode secret now"

definition ValidateTOTP :: "crypto \<Rightarrow> string \<Rightarrow> string \<Rightarrow> time \<Rightarrow> bool" where
  "ValidateTOTP C secret code now = totp_validate C code secret now"

section \<open>AES-256-GCM: \<open>aesgcm.go\<close>\<close>

definition keySize :: nat where
  "keySize = 32"

text \<open>\<open>gcm.NonceSize()\<close> of the standard library's GCM.\<close>

definition nonceSize :: nat where
  "nonceSize = 12"

definition newGCM :: "string \<Rightarrow> goerr + unit" where
  "newGCM key = (if length key \<noteq> keySize then Inl (ErrMsg ''key must be 32 bytes'') else Inr ())"

definition Encrypt :: "crypto \<Rightarrow> string \<Rightarrow> string \<Rightarrow> string option \<Rightarrow> goerr + string" where
  "Encrypt C key plaintext rnd =
     (case newGCM key of
        Inl e \<Rightarrow> Inl e
      | Inr _ \<Rightarrow> (case rnd of
            None \<Rightarrow> Inl (ErrMsg ''generate nonce'')
          | Some nonce \<Rightarrow> Inr (nonce @ gcm_seal C key nonce plaintext)))"

definition Decrypt :: "crypto \<Rightarrow> string \<Rightarrow> string \<Rightarrow> goerr + string" where
  "Decrypt C key blob =
     (case newGCM key of
        Inl e \<Rightarrow> Inl e
      | Inr _ \<Rightarrow>
          if length blob < nonceSize then Inl (ErrMsg ''ciphertext too short'')
          else (case gcm_open C key (take nonceSize blob) (drop nonceSize blob) of
                  None \<Rightarrow> Inl (ErrMsg ''decrypt'')
                | Some pt \<Rightarrow> Inr pt))"

definition ParseKey :: "string \<Rightarrow> goerr + string" where
  "ParseKey raw =
     (if length raw = 2 * keySize then
        (case hex_decode raw of
           None \<Rightarrow> Inl (ErrMsg ''decode hex key'')
         | Some key \<Rightarrow> if length key \<noteq> keySize then Inl (ErrMsg ''key must be 32 bytes'') else Inr key)
      else if length raw = keySize then Inr raw
      else Inl (ErrMsg ''key must be 32 raw bytes or 64 hex characters''))"

section \<open>Lemmas\<close>

lemma b64_char_set:
  assumes "c \<in> set (b64_encode e s)"
  shows "is_upper c \<or> is_lower c \<or> is_digit c \<or> c = fst e \<or> c = snd e"
proof -
  obtain n where n: "n < 64" "c = b64_char e n"
    using assms b64_sextets_lt by (auto simp: b64_encode_def)
  then consider "n < 26" | "26 \<le> n" "n < 52" | "52 \<le> n" "n < 62" | "62 \<le> n"
    by linarith
  then show ?thesis
  proof cases
    case 3
    then have "48 \<le> n - 4 \<and> n - 4 \<le> 57" by auto
    with n 3 show ?thesis by (simp add: b64_char_def is_digit_def)
  qed (use n in \<open>simp_all add: b64_char_def is_upper_def is_lower_def\<close>)
qed

lemma b64_no_dollar [simp]: "CHR ''$'' \<notin> set (b64_encode RawStd s)"
  by (auto dest!: b64_char_set simp: is_upper_def is_lower_def is_digit_def RawStd_def)

lemma scan_blank:
  assumes "s \<noteq> []" and "plain_char (hd s)"
  shows "trim_with (filter (\<lambda>p. p \<noteq> [newline]) go_spaces) s = s"
proof (rule trim_with_id, unfold no_space_at_def, intro ballI impI)
  fix p
  assume "p \<in> set (filter (\<lambda>p. p \<noteq> [newline]) go_spaces)" "p \<noteq> []"
  then show "\<not> prefix p s"
    using go_spaces_not_plain [of p] assms by (auto simp: prefix_def)
qed

lemma is_digit_plain: "is_digit c \<Longrightarrow> plain_char c"
  by (simp add: is_digit_def plain_char_def)

lemma takeWhile_nat_str:
  "r = [] \<or> \<not> is_digit (hd r) \<Longrightarrow> takeWhile is_digit (nat_str n @ r) = nat_str n"
  using nat_str_digits [of n]
  by (cases r) (auto simp: takeWhile_append list_all_iff)

lemma scan_blank_nat_str [simp]:
  "trim_with (filter (\<lambda>p. p \<noteq> [newline]) go_spaces) (nat_str n @ r) = nat_str n @ r"
  using hd_nat_str_digit [of n] by (intro scan_blank) (auto dest: is_digit_plain)

lemma scan_uint_nat_str:
  assumes "n < 2 ^ 32" and "r = [] \<or> \<not> is_digit (hd r)"
  shows "scan_uint (nat_str n @ r) = Some (n, r)"
  using assms by (simp add: scan_uint_def Let_def takeWhile_nat_str)

lemma scan_int_nat_str:
  assumes "n < 2 ^ 63" and "r = [] \<or> \<not> is_digit (hd r)"
  shows "scan_int (nat_str n @ r) = Some (int n, r)"
proof -
  have h: "is_digit (hd (nat_str n))" by (rule hd_nat_str_digit)
  obtain c t where c: "nat_str n = c # t" by (cases "nat_str n") auto
  have nosign: "\<not> (prefix ''-'' (nat_str n @ r) \<or> prefix ''+'' (nat_str n @ r))"
    using h by (auto simp: c is_digit_def)
  have "parse_int (nat_str n) = Some (int n)"
    using parse_int_int_str [of "int n"] assms(1) by (simp add: int_str_def in_int64_def)
  with nosign assms show ?thesis
    by (simp add: scan_int_def Let_def takeWhile_nat_str)
qed

lemma scan_version_str: "n < 2 ^ 63 \<Longrightarrow> scan_version (''v='' @ nat_str n) = Some (int n)"
  using scan_int_nat_str [of n "[]"] by (simp add: scan_version_def scan_lit_def)

lemma scan_params_str:
  assumes "m < 2 ^ 32" and "t < 2 ^ 32" and "p < 2 ^ 32"
  shows "scan_params (''m='' @ nat_str m @ '',t='' @ nat_str t @ '',p='' @ nat_str p) = Some (m, t, p)"
  using scan_uint_nat_str [OF assms(1), of "'',t='' @ nat_str t @ '',p='' @ nat_str p"]
    scan_uint_nat_str [OF assms(2), of "'',p='' @ nat_str p"] scan_uint_nat_str [OF assms(3), of "[]"]
  by (simp add: scan_params_def scan_lit_def is_digit_def)

lemma nat_str_no_dollar [simp]: "CHR ''$'' \<notin> set (nat_str n)"
  by (auto dest!: set_nat_str simp: is_digit_def)

text \<open>What a PHC string made of its parts decodes to.\<close>

definition phc :: "nat \<Rightarrow> nat \<Rightarrow> nat \<Rightarrow> nat \<Rightarrow> string \<Rightarrow> string \<Rightarrow> string" where
  "phc v m t p salt hash =
     CHR ''$'' # ''argon2id'' @ CHR ''$'' # (''v='' @ nat_str v) @ CHR ''$'' #
       (''m='' @ nat_str m @ '',t='' @ nat_str t @ '',p='' @ nat_str p) @ CHR ''$'' #
       b64_encode RawStd salt @ CHR ''$'' # b64_encode RawStd hash"

lemma split_phc:
  "split_on (CHR ''$'') (phc v m t p salt hash) =
     [[], ''argon2id'', ''v='' @ nat_str v, ''m='' @ nat_str m @ '',t='' @ nat_str t @ '',p='' @ nat_str p,
      b64_encode RawStd salt, b64_encode RawStd hash]"
proof -
  have s: "split_on (CHR ''$'') (CHR ''$'' # r) = [] # split_on (CHR ''$'') r" for r
    by simp
  show ?thesis
    unfolding phc_def s
    by (subst split_on_append, simp)+ (simp add: split_on_no_sep)
qed

lemma decode_parts:
  assumes "split_on (CHR ''$'') s = [a, ''argon2id'', pv, pp, ps, ph]"
    and "scan_version pv = Some (int argon2_Version)" and "scan_params pp = Some (m, t, p)"
    and "b64_decode RawStd ps = Some salt" and "b64_decode RawStd ph = Some hash"
  shows "decodeArgon2idHash s =
    Inr \<lparr>ap_salt = salt, ap_hash = hash, ap_time = t, ap_memory = m, ap_threads = p mod 256,
         ap_keyLen = length hash mod 2 ^ 32\<rparr>"
  using assms(2-) unfolding decodeArgon2idHash_def assms(1) Let_def by simp

lemma decode_phc:
  assumes "m < 2 ^ 32" and "t < 2 ^ 32" and "p < 2 ^ 32"
  shows "decodeArgon2idHash (phc argon2_Version m t p salt hash) =
    Inr \<lparr>ap_salt = salt, ap_hash = hash, ap_time = t, ap_memory = m, ap_threads = p mod 256,
         ap_keyLen = length hash mod 2 ^ 32\<rparr>"
proof (rule decode_parts)
  show "scan_version (''v='' @ nat_str argon2_Version) = Some (int argon2_Version)"
    by (rule scan_version_str) (simp add: argon2_Version_def)
  show "scan_params (''m='' @ nat_str m @ '',t='' @ nat_str t @ '',p='' @ nat_str p) = Some (m, t, p)"
    by (rule scan_params_str [OF assms])
qed (rule split_phc b64_roundtrip)+

text \<open>The text of a pending token splits at its two bars.\<close>

lemma split_pending:
  assumes "CHR ''|'' \<notin> set a" and "CHR ''|'' \<notin> set b" and "CHR ''|'' \<notin> set c"
  shows "split_on (CHR ''|'') ((a @ ''|'' @ b) @ ''|'' @ c) = [a, b, c]"
  using assms by (simp add: split_on_append split_on_no_sep)

lemma hex_encode_no_bar [simp]: "CHR ''|'' \<notin> set (hex_encode s)"
  by (auto dest!: hex_encode_chars simp: is_digit_def)

lemma int_str_no_bar [simp]: "CHR ''|'' \<notin> set (int_str i)"
  by (auto dest!: set_int_str simp: is_digit_def)

definition pending_text :: "crypto \<Rightarrow> uuid_lib \<Rightarrow> uuid \<Rightarrow> int \<Rightarrow> string \<Rightarrow> string" where
  "pending_text C U u e secret =
     (let payload = ustr U u @ ''|'' @ int_str e
      in payload @ ''|'' @ hex_encode (hmac256 C secret payload))"

lemma parse_pending_text:
  assumes "uuid_library U" and "\<not> length secret < 32" and "in_int64 e"
  shows "ParsePendingToken C U (b64_encode RawURL (pending_text C U u e secret)) secret now =
    (if time_Unix now \<le> e then Inr u else Inl (ErrMsg ''pending token expired''))"
proof -
  have parts: "split_on (CHR ''|'') (pending_text C U u e secret) =
      [ustr U u, int_str e, hex_encode (hmac256 C secret (ustr U u @ ''|'' @ int_str e))]"
    unfolding pending_text_def Let_def
    by (rule split_pending) (simp_all add: uuid_library.ustr_no_bar [OF assms(1)])
  show ?thesis
    using assms(2, 3) unfolding ParsePendingToken_def b64_roundtrip(2) Let_def option.case parts
    by (simp add: uuid_library.uparse_ustr [OF assms(1)] parse_int_int_str)
qed

text \<open>A hash that was made here verifies as the key it was made from.\<close>

lemma verify_hashed:
  assumes "crypto_library C" and "HashPassword C (Some salt) pw = Some (Inr h)"
  shows "VerifyPassword C h pw' =
    Some (argon2id C pw' salt argonTime argonMemory argonThreads argonKeyLen =
          argon2id C pw salt argonTime argonMemory argonThreads argonKeyLen)"
proof -
  obtain hash where hash: "argon2id C pw salt argonTime argonMemory argonThreads argonKeyLen = Some hash"
    "length hash = argonKeyLen"
    using crypto_library.argon2id_ok [OF assms(1), of argonTime argonThreads argonKeyLen pw salt argonMemory]
    by (auto simp: argon_defs)
  obtain got where got: "argon2id C pw' salt argonTime argonMemory argonThreads argonKeyLen = Some got"
    using crypto_library.argon2id_ok [OF assms(1), of argonTime argonThreads argonKeyLen pw' salt argonMemory]
    by (auto simp: argon_defs)
  have h: "h = phc argon2_Version argonMemory argonTime argonThreads salt hash"
    using assms(2) hash(1) by (simp add: HashPassword_def phc_def)
  have "decodeArgon2idHash h = Inr \<lparr>ap_salt = salt, ap_hash = hash, ap_time = argonTime,
      ap_memory = argonMemory, ap_threads = argonThreads mod 256, ap_keyLen = length hash mod 2 ^ 32\<rparr>"
    unfolding h by (rule decode_phc) (simp_all add: argonMemory_def argonTime_def argonThreads_def)
  moreover have "argonThreads mod 256 = argonThreads" "argonKeyLen mod 2 ^ 32 = argonKeyLen"
    by (simp_all add: argonThreads_def argonKeyLen_def)
  ultimately show ?thesis
    using hash got by (simp add: VerifyPassword_def)
qed

section \<open>Properties\<close>

text \<open>
  A stored password hash verifies a password exactly when Argon2id, with the salt and the
  parameters of the hash, gives the same key for it: the PHC string carries all of them.
\<close>

theorem password_hash_verify:
  assumes "crypto_library C" and "HashPassword C (Some salt) pw = Some (Inr h)"
  shows "VerifyPassword C h pw' =
    Some (argon2id C pw' salt argonTime argonMemory argonThreads argonKeyLen =
          argon2id C pw salt argonTime argonMemory argonThreads argonKeyLen)"
  using verify_hashed [OF assms] .

theorem password_hash_verify_witness:
  "\<exists>h. HashPassword ref_crypto (Some (replicate 16 (CHR ''s''))) ''secret'' = Some (Inr h) \<and>
     VerifyPassword ref_crypto h ''secret'' = Some True \<and> VerifyPassword ref_crypto h ''Secret'' = Some False"
proof -
  let ?salt = "replicate 16 (CHR ''s'')"
  obtain h where h: "HashPassword ref_crypto (Some ?salt) ''secret'' = Some (Inr h)"
    by (simp add: HashPassword_def ref_crypto_def argon_defs)
  have "argon2id ref_crypto ''Secret'' ?salt argonTime argonMemory argonThreads argonKeyLen \<noteq>
      argon2id ref_crypto ''secret'' ?salt argonTime argonMemory argonThreads argonKeyLen"
    by (simp add: ref_crypto_def argon_defs)
  with h show ?thesis
    using password_hash_verify [OF ref_crypto.crypto_library_axioms h] by simp
qed

text \<open>
  A pending-login token gives back its user until the second it expires, and the error
  of an expired token after it; no other outcome is possible with the secret it was made with.
\<close>

theorem pending_token_roundtrip:
  assumes "uuid_library U" and "NewPendingToken C U u secret ttl t0 = Inr token"
    and "in_int64 (time_Unix (t0 + ttl))"
  shows "ParsePendingToken C U token secret t1 =
    (if time_Unix t1 \<le> time_Unix (t0 + ttl) then Inr u else Inl (ErrMsg ''pending token expired''))"
proof -
  have len: "\<not> length secret < 32"
    using assms(2) by (simp add: NewPendingToken_def split: if_splits)
  have "token = b64_encode RawURL (pending_text C U u (time_Unix (t0 + ttl)) secret)"
    using assms(2) len by (simp add: NewPendingToken_def Let_def pending_text_def)
  then show ?thesis
    using parse_pending_text [OF assms(1) len assms(3)] by simp
qed

theorem pending_token_roundtrip_witness:
  "\<exists>token. NewPendingToken ref_crypto ref_uuid 5 (replicate 32 (CHR ''k'')) (300 * second) 0 = Inr token \<and>
     ParsePendingToken ref_crypto ref_uuid token (replicate 32 (CHR ''k'')) (299 * second) = Inr 5"
proof -
  obtain token where t: "NewPendingToken ref_crypto ref_uuid 5 (replicate 32 (CHR ''k'')) (300 * second) 0 = Inr token"
    by (simp add: NewPendingToken_def Let_def)
  have "in_int64 (time_Unix (0 + 300 * second))"
    by (simp add: in_int64_def time_Unix_def second_def)
  from pending_token_roundtrip [OF ref_uuid.uuid_library_axioms t this, of "299 * second"] t
  show ?thesis by (simp add: time_Unix_def second_def)
qed

text \<open>
  C3. A token is accepted only with a signature of its own user and expiry under the secret,
  only until that expiry, and only with a secret of 32 bytes or more.
\<close>

theorem pending_token_sound:
  assumes "ParsePendingToken C U token secret now = Inr u"
  shows "\<exists>a b e. b64_decode RawURL token = Some (a @ ''|'' @ b @ ''|'' @ hex_encode (hmac256 C secret (a @ ''|'' @ b))) \<and>
    uparse U a = Some u \<and> parse_int b = Some e \<and> time_Unix now \<le> e \<and> 32 \<le> length secret"
proof -
  obtain raw where raw: "b64_decode RawURL token = Some raw" and len: "32 \<le> length secret"
    using assms by (auto simp: ParsePendingToken_def split: if_splits option.splits)
  have n: "length (split_on (CHR ''|'') raw) = 3"
    using assms raw by (auto simp: ParsePendingToken_def Let_def split: if_splits)
  then obtain a b c where parts: "split_on (CHR ''|'') raw = [a, b, c]"
    by (auto simp: length_Suc_conv numeral_3_eq_3)
  then have r: "raw = a @ ''|'' @ b @ ''|'' @ c"
    using split_on_join [of "CHR ''|''" raw] by simp
  have "uparse U a = Some u \<and> (\<exists>e. parse_int b = Some e \<and> time_Unix now \<le> e) \<and>
      c = hex_encode (hmac256 C secret (a @ ''|'' @ b))"
    using assms raw by (auto simp: ParsePendingToken_def Let_def parts split: if_splits option.splits)
  with raw r len show ?thesis by auto
qed

theorem pending_token_sound_witness:
  "\<exists>token a b. ParsePendingToken ref_crypto ref_uuid token (replicate 32 (CHR ''k'')) 0 = Inr 5 \<and>
     b64_decode RawURL token =
       Some (a @ ''|'' @ b @ ''|'' @ hex_encode (hmac256 ref_crypto (replicate 32 (CHR ''k'')) (a @ ''|'' @ b)))"
proof -
  let ?k = "replicate 32 (CHR ''k'')"
  let ?t = "b64_encode RawURL (pending_text ref_crypto ref_uuid 5 10 ?k)"
  have p: "ParsePendingToken ref_crypto ref_uuid ?t ?k 0 = Inr 5"
    by (subst parse_pending_text [OF ref_uuid.uuid_library_axioms])
       (simp_all add: in_int64_def time_Unix_def)
  from pending_token_sound [OF this] p show ?thesis by blast
qed

text \<open>
  What \<open>Encrypt\<close> seals under a key \<open>Decrypt\<close> opens to the same plaintext; both refuse a
  key that is not 32 bytes, and \<open>ParseKey\<close> only gives keys they accept, from its raw and from
  its hexadecimal form.
\<close>

theorem encrypt_decrypt:
  assumes "crypto_library C" and "ParseKey raw = Inr key" and "length nonce = nonceSize"
  shows "\<exists>blob. Encrypt C key pt (Some nonce) = Inr blob \<and> Decrypt C key blob = Inr pt \<and>
    (raw = key \<or> hex_decode raw = Some key)"
proof -
  have key: "length key = 32" "raw = key \<or> hex_decode raw = Some key"
    using assms(2) by (auto simp: ParseKey_def keySize_def split: if_splits option.splits)
  moreover have "Decrypt C key (nonce @ gcm_seal C key nonce pt) = Inr pt"
    using key assms(3) crypto_library.gcm_open_seal [OF assms(1) key(1), of nonce pt]
    by (simp add: Decrypt_def newGCM_def keySize_def nonceSize_def)
  ultimately show ?thesis
    by (simp add: Encrypt_def newGCM_def keySize_def)
qed

theorem encrypt_decrypt_witness:
  "\<exists>blob. Encrypt ref_crypto (replicate 32 (CHR ''A'')) ''s3cret'' (Some (replicate 12 (CHR ''n''))) = Inr blob \<and>
     Decrypt ref_crypto (replicate 32 (CHR ''A'')) blob = Inr ''s3cret''"
proof -
  have k: "ParseKey (hex_encode (replicate 32 (CHR ''A''))) = Inr (replicate 32 (CHR ''A''))"
    by (simp add: ParseKey_def keySize_def)
  show ?thesis
    using encrypt_decrypt [OF ref_crypto.crypto_library_axioms k, of "replicate 12 (CHR ''n'')"]
    by (auto simp: nonceSize_def)
qed

end
