(* ===== verification/Models.thy ===== *)
theory Models
  imports Services Cps_Limiter
begin

text \<open>
  The rows the services share, \<open>internal/models/models.go\<close>. A Go pointer field and a column
  that may be \<open>NULL\<close> are options; the string types with a fixed set of constants, which the
  schema also checks, are datatypes. Instants are nanoseconds.
\<close>

datatype UserRole = UserRoleAdmin | UserRoleSupervisor | UserRoleAgent

record User =
  u_ID :: uuid
  u_Email :: string
  u_PasswordHash :: string
  u_Role :: UserRole
  u_DisplayName :: "string option"
  u_TOTPSecretEncrypted :: "string option"
  u_TOTPEnabled :: bool
  u_FailedLoginCount :: int
  u_LockedUntil :: "time option"
  u_DisabledAt :: "time option"
  u_CreatedAt :: time

record Carrier =
  c_ID :: uuid
  c_Name :: string
  c_Host :: string
  c_Port :: int
  c_Transport :: string
  c_Username :: "string option"
  c_PasswordEncrypted :: "string option"
  c_Realm :: "string option"
  c_Codecs :: "string list"
  c_CallerIDs :: "string list"
  c_MaxCPS :: int
  c_MaxChannels :: int
  c_Enabled :: bool
  c_Priority :: int
  c_CreatedAt :: time

record DID =
  d_ID :: uuid
  d_Number :: string
  d_CarrierID :: "uuid option"
  d_Destination :: string
  d_CreatedAt :: time

record Session =
  s_ID :: uuid
  s_UserID :: uuid
  s_TokenHash :: string
  s_ExpiresAt :: time
  s_CreatedAt :: time

record AuditLog =
  a_ID :: nat
  a_UserID :: "uuid option"
  a_Event :: string
  a_IP :: "string option"
  a_Meta :: string
  a_CreatedAt :: time

datatype CampaignStatus =
  CampaignStatusDraft | CampaignStatusRunning | CampaignStatusPaused | CampaignStatusStopped

definition DialModeManual :: string where
  "DialModeManual = ''manual''"

record Campaign =
  cp_ID :: uuid
  cp_Name :: string
  cp_CarrierID :: uuid
  cp_Status :: CampaignStatus
  cp_DialMode :: string
  cp_CreatedAt :: time
  cp_UpdatedAt :: time

record CampaignAgent =
  ca_CampaignID :: uuid
  ca_UserID :: uuid

record LeadList =
  ll_ID :: uuid
  ll_CampaignID :: uuid
  ll_Name :: string
  ll_ImportedAt :: time
  ll_RowCount :: int

datatype LeadStatus =
    LeadStatusNew | LeadStatusInProgress | LeadStatusNoAnswer | LeadStatusBusy
  | LeadStatusCallback | LeadStatusDisposed | LeadStatusAnswered

text \<open>The payload of a lead is the map of its CSV columns, here the list of its entries.\<close>

record Lead =
  l_ID :: uuid
  l_ListID :: uuid
  l_Phone :: string
  l_Payload :: "(string \<times> string) list"
  l_Status :: LeadStatus
  l_DispositionID :: "uuid option"
  l_AssignedAgentID :: "uuid option"

record Disposition =
  dp_ID :: uuid
  dp_Code :: string
  dp_Label :: string
  dp_CampaignID :: "uuid option"
  dp_IsContact :: bool
  dp_IsSuccess :: bool

record CallLog =
  cl_ID :: uuid
  cl_CampaignID :: uuid
  cl_LeadID :: "uuid option"
  cl_AgentID :: uuid
  cl_Direction :: string
  cl_StartedAt :: time
  cl_EndedAt :: "time option"
  cl_DurationSec :: "int option"
  cl_DispositionID :: "uuid option"
  cl_ToNumber :: string

end
