(* ===== verification/Database.thy ===== *)
theory Database
  imports Models
begin

text \<open>
  The PostgreSQL database behind the API: the tables of \<open>services/api/migrations\<close> as lists of
  rows, and the way the code runs statements on them through \<open>database/sql\<close> with the driver
  pgx (\<open>internal/db/db.go\<close>). A statement may fail with an error of the driver, by a script of
  failures; a transaction that is not committed leaves the tables as they were. Ids come from
  \<open>gen_random_uuid()\<close>, an arbitrary sequence: a drawn id that is already in the table violates
  its primary key.

  Statements run one after the other. \<open>TEXT\<close> values are taken to hold no NUL byte, and a
  \<open>TIMESTAMPTZ\<close> keeps microseconds.
\<close>

section \<open>Tables\<close>

record tables =
  users :: "User list"
  carriers :: "Carrier list"
  dids :: "DID list"
  sessions :: "Session list"
  audit_logs :: "AuditLog list"
  campaigns :: "Campaign list"
  campaign_agents :: "CampaignAgent list"
  lead_lists :: "LeadList list"
  dispositions :: "Disposition list"
  leads :: "Lead list"
  call_logs :: "CallLog list"

text \<open>\<open>db_rand\<close> and \<open>db_drawn\<close>: the ids to come and how many are used; \<open>db_now\<close> is \<open>now()\<close>.\<close>

record dbst =
  tabs :: tables
  db_faults :: "goerr option list"
  db_rand :: "nat \<Rightarrow> uuid"
  db_drawn :: nat
  db_now :: time

type_synonym 'a sql = "(dbst, 'a) run"

definition empty_tables :: tables where
  "empty_tables =
     \<lparr>users = [], carriers = [], dids = [], sessions = [], audit_logs = [], campaigns = [],
      campaign_agents = [], lead_lists = [], dispositions = [], leads = [], call_logs = []\<rparr>"

definition db_of :: "tables \<Rightarrow> dbst" where
  "db_of t = \<lparr>tabs = t, db_faults = [], db_rand = of_nat, db_drawn = 1000, db_now = 0\<rparr>"

section \<open>Statements\<close>

text \<open>SQLSTATE of a unique, a foreign-key and a check violation.\<close>

definition unique_violation :: goerr where
  "unique_violation = PgconnError ''23505''"

definition foreign_key_violation :: goerr where
  "foreign_key_violation = PgconnError ''23503''"

definition check_violation :: goerr where
  "check_violation = PgconnError ''23514''"

text \<open>An argument that does not fit an \<open>INT\<close> column.\<close>

definition int4_error :: goerr where
  "int4_error = ErrMsg ''unable to encode: greater than maximum value for int4''"

definition int4 :: "int \<Rightarrow> bool" where
  "int4 i \<longleftrightarrow> - (2 ^ 31) \<le> i \<and> i < 2 ^ 31"

definition pg_time :: "time \<Rightarrow> time" where
  "pg_time t = t div 1000 * 1000"

text \<open>One statement: fail by the script or run.\<close>

definition stmt :: "(dbst \<Rightarrow> (goerr + 'a) \<times> dbst) \<Rightarrow> 'a sql" where
  "stmt f = (\<lambda>s.
     case db_faults s of
       [] \<Rightarrow> f s
     | None # fs \<Rightarrow> f (s\<lparr>db_faults := fs\<rparr>)
     | Some e # fs \<Rightarrow> (Inl e, s\<lparr>db_faults := fs\<rparr>))"

text \<open>A query reads the tables and the clock.\<close>

definition db_select :: "(tables \<Rightarrow> time \<Rightarrow> 'a) \<Rightarrow> 'a sql" where
  "db_select q = stmt (\<lambda>s. (Inr (q (tabs s) (db_now s)), s))"

definition db_update :: "(tables \<Rightarrow> goerr + 'a \<times> tables) \<Rightarrow> 'a sql" where
  "db_update q = stmt (\<lambda>s. case q (tabs s) of
       Inl e \<Rightarrow> (Inl e, s)
     | Inr (x, t) \<Rightarrow> (Inr x, s\<lparr>tabs := t\<rparr>))"

text \<open>An \<open>INSERT\<close> that draws an id and reads the clock.\<close>

definition db_insert :: "(uuid \<Rightarrow> time \<Rightarrow> tables \<Rightarrow> goerr + 'a \<times> tables) \<Rightarrow> 'a sql" where
  "db_insert q = stmt (\<lambda>s. case q (db_rand s (db_drawn s)) (db_now s) (tabs s) of
       Inl e \<Rightarrow> (Inl e, s\<lparr>db_drawn := db_drawn s + 1\<rparr>)
     | Inr (x, t) \<Rightarrow> (Inr x, s\<lparr>tabs := t, db_drawn := db_drawn s + 1\<rparr>))"

text \<open>\<open>QueryRow ... Scan\<close>: the first row, or \<open>sql.ErrNoRows\<close>.\<close>

definition first_row :: "'a list sql \<Rightarrow> 'a sql" where
  "first_row m = bindE m (\<lambda>rows. case rows of [] \<Rightarrow> failE SqlNoRows | r # _ \<Rightarrow> retE r)"

definition query_row :: "(tables \<Rightarrow> time \<Rightarrow> 'a list) \<Rightarrow> 'a sql" where
  "query_row q = first_row (db_select q)"

text \<open>\<open>if errors.Is(err, sql.ErrNoRows) { return nil, ErrNotFound }\<close>\<close>

definition or_not_found :: "'a sql \<Rightarrow> 'a sql" where
  "or_not_found m = tryE m (\<lambda>r. case r of
       Inl e \<Rightarrow> if errors_is e SqlNoRows then failE ErrNotFound else failE e
     | Inr x \<Rightarrow> retE x)"

text \<open>\<open>BeginTx\<close>, the body, \<open>Commit\<close>; the deferred \<open>Rollback\<close> undoes a body or commit that failed.\<close>

definition in_tx :: "'a sql \<Rightarrow> 'a sql" where
  "in_tx m = bindE (stmt (\<lambda>s. (Inr (tabs s), s))) (\<lambda>t0.
     tryE (bindE m (\<lambda>x. bindE (stmt (\<lambda>s. (Inr (), s))) (\<lambda>_. retE x))) (\<lambda>r.
       case r of
         Inl e \<Rightarrow> (\<lambda>s. (Inl e, s\<lparr>tabs := t0\<rparr>))
       | Inr x \<Rightarrow> retE x))"

section \<open>What statements do\<close>

text \<open>
  The part of a state that a successful computation determines: a run with a script of
  failures gives, where it succeeds, what a run without one gives. The lemmas state results in
  terms of the tables only.
\<close>

lemma stmt_cases:
  assumes "stmt f s = (r, s')"
  obtains (fault) e fs where "r = Inl e" "s' = s\<lparr>db_faults := fs\<rparr>"
  | (run) fs where "f (s\<lparr>db_faults := fs\<rparr>) = (r, s')"
proof (cases "db_faults s")
  case Nil
  then have eq: "s\<lparr>db_faults := []\<rparr> = s" by (cases s) simp
  from assms Nil have "f s = (r, s')" by (simp add: stmt_def)
  then show ?thesis using run [of "[]"] unfolding eq by blast
next
  case (Cons a fs)
  with assms show ?thesis
    by (cases a) (auto simp: stmt_def intro: fault run)
qed

lemma db_select_ok:
  assumes "db_select q s = (Inr x, s')"
  shows "q (tabs s) (db_now s) = x \<and> tabs s' = tabs s \<and> db_now s' = db_now s"
  using assms unfolding db_select_def by (elim stmt_cases) auto

lemma db_select_tabs: "db_select q s = (r, s') \<Longrightarrow> tabs s' = tabs s"
  unfolding db_select_def by (elim stmt_cases) auto

lemma db_update_ok:
  assumes "db_update q s = (Inr x, s')"
  shows "q (tabs s) = Inr (x, tabs s')"
  using assms unfolding db_update_def by (elim stmt_cases) (auto split: sum.splits)

lemma db_update_err: "db_update q s = (Inl e, s') \<Longrightarrow> tabs s' = tabs s"
  unfolding db_update_def by (elim stmt_cases) (auto split: sum.splits)

lemma db_insert_ok:
  assumes "db_insert q s = (Inr x, s')"
  shows "q (db_rand s (db_drawn s)) (db_now s) (tabs s) = Inr (x, tabs s')"
  using assms unfolding db_insert_def by (elim stmt_cases) (auto split: sum.splits)

lemma db_insert_err: "db_insert q s = (Inl e, s') \<Longrightarrow> tabs s' = tabs s"
  unfolding db_insert_def by (elim stmt_cases) (auto split: sum.splits)

lemma first_row_iff:
  "first_row m s = (r, s') \<longleftrightarrow>
     (\<exists>e. m s = (Inl e, s') \<and> r = Inl e) \<or> (m s = (Inr [], s') \<and> r = Inl SqlNoRows) \<or>
     (\<exists>x xs. m s = (Inr (x # xs), s') \<and> r = Inr x)"
  unfolding first_row_def
  by (cases "m s"; cases "fst (m s)") (auto simp: bindE_def split: list.split)

lemma first_row_run: "first_row m s = (r, s') \<Longrightarrow> \<exists>r'. m s = (r', s')"
  by (auto simp: first_row_iff)

text \<open>A statement that changed the tables ran.\<close>

lemma db_update_changed:
  "db_update q s = (r, s') \<Longrightarrow> tabs s' \<noteq> tabs s \<Longrightarrow> \<exists>x. r = Inr x \<and> q (tabs s) = Inr (x, tabs s')"
  by (cases r) (auto dest: db_update_ok db_update_err)

lemma db_insert_changed:
  "db_insert q s = (r, s') \<Longrightarrow> tabs s' \<noteq> tabs s \<Longrightarrow>
   \<exists>x. r = Inr x \<and> q (db_rand s (db_drawn s)) (db_now s) (tabs s) = Inr (x, tabs s')"
  by (cases r) (auto dest: db_insert_ok db_insert_err)

lemma db_update_any:
  "db_update q s = (r, s') \<Longrightarrow>
   tabs s' = tabs s \<or> \<not> isl r \<and> \<not> isl (q (tabs s)) \<and> tabs s' = snd (projr (q (tabs s)))"
  using db_update_changed [of q s r s'] by auto

lemma db_insert_any:
  assumes "db_insert q s = (r, s')"
  shows "tabs s' = tabs s \<or> \<not> isl r \<and> \<not> isl (q (db_rand s (db_drawn s)) (db_now s) (tabs s)) \<and>
     tabs s' = snd (projr (q (db_rand s (db_drawn s)) (db_now s) (tabs s)))"
  using db_insert_changed [OF assms] by auto

lemma db_insert_Inr:
  assumes "db_insert q s = (Inr x, s')"
  shows "\<not> isl (q (db_rand s (db_drawn s)) (db_now s) (tabs s)) \<and>
     x = fst (projr (q (db_rand s (db_drawn s)) (db_now s) (tabs s))) \<and>
     tabs s' = snd (projr (q (db_rand s (db_drawn s)) (db_now s) (tabs s)))"
  using db_insert_ok [OF assms] by simp

lemma query_row_ok:
  assumes "query_row q s = (Inr x, s')"
  shows "(\<exists>xs. q (tabs s) (db_now s) = x # xs) \<and> tabs s' = tabs s \<and> db_now s' = db_now s"
  using assms unfolding query_row_def
  by (auto simp: first_row_iff dest!: db_select_ok)

lemma query_row_filter:
  assumes "query_row (\<lambda>t _. filter P (f t)) s = (Inr x, s')"
  shows "x \<in> set (f (tabs s)) \<and> P x \<and> tabs s' = tabs s"
proof -
  obtain xs where xs: "filter P (f (tabs s)) = x # xs" "tabs s' = tabs s"
    using query_row_ok [OF assms] by blast
  show ?thesis
    using list.set_intros(1) [of x xs] xs(2) unfolding xs(1) [symmetric] by simp
qed

lemma query_row_map_filter:
  assumes "query_row (\<lambda>t _. map g (filter (P t) (f t))) s = (Inr x, s')"
  shows "(\<exists>y \<in> set (f (tabs s)). P (tabs s) y \<and> x = g y) \<and> tabs s' = tabs s"
proof -
  obtain xs where xs: "map g (filter (P (tabs s)) (f (tabs s))) = x # xs" "tabs s' = tabs s"
    using query_row_ok [OF assms] by metis
  have "x \<in> set (map g (filter (P (tabs s)) (f (tabs s))))" unfolding xs(1) by simp
  then show ?thesis using xs(2) by auto
qed

lemma query_row_tabs: "query_row q s = (r, s') \<Longrightarrow> tabs s' = tabs s"
  unfolding query_row_def by (auto simp: first_row_iff dest: db_select_tabs)

lemma or_not_found_ok: "or_not_found m s = (Inr x, s') \<longleftrightarrow> m s = (Inr x, s')"
  unfolding or_not_found_def by (auto simp: run_simps split: prod.splits sum.splits if_splits)

lemma or_not_found_state: "snd (or_not_found m s) = snd (m s)"
  unfolding or_not_found_def by (cases "m s") (simp add: run_simps split: sum.split)

lemma or_not_found_tabs:
  assumes "or_not_found m s = (r, s')" and "\<And>r s'. m s = (r, s') \<Longrightarrow> tabs s' = tabs s"
  shows "tabs s' = tabs s"
  using assms(2) [OF surjective_pairing] or_not_found_state [of m s] assms(1) by simp

lemma stmt_skip_ok:
  assumes "stmt (\<lambda>s. (Inr (f s), s)) s = (Inr x, s')"
  shows "\<exists>fs. x = f s' \<and> s' = s\<lparr>db_faults := fs\<rparr>"
  using assms
proof (cases rule: stmt_cases)
  case (run fs)
  then have "s' = s\<lparr>db_faults := fs\<rparr>" by simp
  moreover from run have "x = f (s\<lparr>db_faults := fs\<rparr>)" by auto
  ultimately show ?thesis by blast
qed simp

lemma stmt_skip_err:
  assumes "stmt (\<lambda>s. (Inr (f s), s)) s = (Inl e, s')"
  shows "tabs s' = tabs s"
  using assms by (cases rule: stmt_cases) simp_all

lemma in_tx_err: "in_tx m s = (Inl e, s') \<Longrightarrow> tabs s' = tabs s"
  unfolding in_tx_def
  by (auto simp: run_simps split: prod.splits sum.splits dest!: stmt_skip_ok stmt_skip_err)

lemma in_tx_ok:
  assumes "in_tx m s = (Inr x, s')"
  shows "\<exists>fs s1. m (s\<lparr>db_faults := fs\<rparr>) = (Inr x, s1) \<and> tabs s' = tabs s1"
proof -
  obtain fs s1 fs' where "m (s\<lparr>db_faults := fs\<rparr>) = (Inr x, s1)" "s' = s1\<lparr>db_faults := fs'\<rparr>"
    using assms unfolding in_tx_def
    by (auto simp: run_simps split: prod.splits sum.splits dest!: stmt_skip_ok)
  then show ?thesis by auto
qed


lemma in_tx_tabs:
  assumes "in_tx m s = (r, s')" and "P (tabs s)"
    and "\<And>s0 x s1. tabs s0 = tabs s \<Longrightarrow> m s0 = (Inr x, s1) \<Longrightarrow> P (tabs s1)"
  shows "P (tabs s')"
proof (cases r)
  case (Inl e)
  then show ?thesis using in_tx_err [of m s e s'] assms(1, 2) by simp
next
  case (Inr x)
  then obtain fs s1 where "m (s\<lparr>db_faults := fs\<rparr>) = (Inr x, s1)" "tabs s' = tabs s1"
    using in_tx_ok [of m s x s'] assms(1) by auto
  then show ?thesis using assms(3) [of "s\<lparr>db_faults := fs\<rparr>" x s1] by simp
qed

text \<open>Statements when no failure is scripted.\<close>

lemma no_fault [simp]:
  assumes "db_faults s = []"
  shows "stmt f s = f s" and "db_select q s = (Inr (q (tabs s) (db_now s)), s)"
    and "db_update g s = (case g (tabs s) of Inl e \<Rightarrow> (Inl e, s) | Inr (x, t) \<Rightarrow> (Inr x, s\<lparr>tabs := t\<rparr>))"
    and "query_row q s = ((case q (tabs s) (db_now s) of [] \<Rightarrow> Inl SqlNoRows | r # _ \<Rightarrow> Inr r), s)"
  using assms
  by (simp_all add: stmt_def db_select_def db_update_def query_row_def first_row_def bindE_def split: list.split)

lemmas db_laws = db_select_ok db_select_tabs db_update_ok db_update_err db_insert_ok db_insert_err
  query_row_ok query_row_tabs

text \<open>\<open>errors.As(err, &pqErr)\<close> with a \<open>*pq.Error\<close>: its code, if there is one in the chain.\<close>

fun as_pq :: "goerr \<Rightarrow> string option" where
  "as_pq (ErrWrap m e) = as_pq e"
| "as_pq (PqError c) = Some c"
| "as_pq e = None"

text \<open>A database behind pgx never fails with an error of the driver lib/pq.\<close>

definition pgx_db :: "dbst \<Rightarrow> bool" where
  "pgx_db s \<longleftrightarrow> (\<forall>e. Some e \<in> set (db_faults s) \<longrightarrow> as_pq e = None)"

end
