(* ===== verification/Store_Campaigns.thy ===== *)
theory Store_Campaigns
  imports Database
begin

text \<open>
  \<open>services/api/internal/store/campaigns.go\<close>: campaigns with their states, the dispositions a
  new campaign starts with, and the agents assigned to one.
\<close>

record CreateCampaignInput =
  ccp_Name :: string
  ccp_CarrierID :: uuid

record UpdateCampaignInput =
  ucp_Name :: "string option"
  ucp_CarrierID :: "uuid option"
  ucp_Status :: "CampaignStatus option"

definition e_acute :: string where
  "e_acute = [CHR 0xC3, CHR 0xA9]"

definition e_grave :: string where
  "e_grave = [CHR 0xC3, CHR 0xA8]"

text \<open>Code, label, contact, success.\<close>

definition defaultDispositions :: "(string \<times> string \<times> bool \<times> bool) list" where
  "defaultDispositions =
     [(''NO_ANSWER'', ''Pas de r'' @ e_acute @ ''ponse'', False, False),
      (''BUSY'', ''Occup'' @ e_acute, False, False),
      (''CALLBACK'', ''Rappel'', False, False),
      (''SUCCESS'', ''Succ'' @ e_grave @ ''s'', True, True),
      (''DNC'', ''Ne pas appeler'', False, False)]"

definition ValidStatusTransition :: "CampaignStatus \<Rightarrow> CampaignStatus \<Rightarrow> bool" where
  "ValidStatusTransition from_s to_s \<longleftrightarrow>
     (if from_s = to_s then True
      else if to_s = CampaignStatusStopped then True
      else case from_s of
        CampaignStatusDraft \<Rightarrow> to_s = CampaignStatusRunning
      | CampaignStatusRunning \<Rightarrow> to_s = CampaignStatusPaused
      | CampaignStatusPaused \<Rightarrow> to_s = CampaignStatusRunning
      | _ \<Rightarrow> False)"

definition Campaign_List :: "Campaign list sql" where
  "Campaign_List = db_select (\<lambda>t _. sort_key cp_CreatedAt (campaigns t))"

definition Campaign_Get :: "uuid \<Rightarrow> Campaign sql" where
  "Campaign_Get i = or_not_found (query_row (\<lambda>t _. filter (\<lambda>c. cp_ID c = i) (campaigns t)))"

definition insert_campaign_stmt ::
  "CreateCampaignInput \<Rightarrow> uuid \<Rightarrow> time \<Rightarrow> tables \<Rightarrow> goerr + Campaign \<times> tables" where
  "insert_campaign_stmt inp i now t =
     (let c = \<lparr>cp_ID = i, cp_Name = ccp_Name inp, cp_CarrierID = ccp_CarrierID inp,
               cp_Status = CampaignStatusDraft, cp_DialMode = DialModeManual,
               cp_CreatedAt = now, cp_UpdatedAt = now\<rparr>
      in if i \<in> cp_ID ` set (campaigns t) then Inl unique_violation
         else if ccp_CarrierID inp \<notin> c_ID ` set (carriers t) then Inl foreign_key_violation
         else Inr (c, t\<lparr>campaigns := campaigns t @ [c]\<rparr>))"

definition insert_disposition_stmt ::
  "string \<Rightarrow> string \<Rightarrow> uuid \<Rightarrow> bool \<Rightarrow> bool \<Rightarrow> uuid \<Rightarrow> time \<Rightarrow> tables \<Rightarrow> goerr + Disposition \<times> tables" where
  "insert_disposition_stmt code label cid contact success i now t =
     (let d = \<lparr>dp_ID = i, dp_Code = code, dp_Label = label, dp_CampaignID = Some cid,
               dp_IsContact = contact, dp_IsSuccess = success\<rparr>
      in if i \<in> dp_ID ` set (dispositions t) \<or>
            (code, Some cid) \<in> (\<lambda>d. (dp_Code d, dp_CampaignID d)) ` set (dispositions t)
         then Inl unique_violation
         else if cid \<notin> cp_ID ` set (campaigns t) then Inl foreign_key_violation
         else Inr (d, t\<lparr>dispositions := dispositions t @ [d]\<rparr>))"

fun seed_dispositions :: "uuid \<Rightarrow> (string \<times> string \<times> bool \<times> bool) list \<Rightarrow> unit sql" where
  "seed_dispositions cid [] = retE ()"
| "seed_dispositions cid ((code, label, contact, success) # ds) =
     bindE (wrapE (''seed disposition '' @ code)
       (db_insert (insert_disposition_stmt code label cid contact success))) (\<lambda>_.
     seed_dispositions cid ds)"

definition Campaign_Create :: "CreateCampaignInput \<Rightarrow> Campaign sql" where
  "Campaign_Create inp = in_tx (
     bindE (wrapE ''insert campaign'' (db_insert (insert_campaign_stmt inp))) (\<lambda>c.
     bindE (seed_dispositions (cp_ID c) defaultDispositions) (\<lambda>_.
     retE c)))"

text \<open>The second half of \<open>Update\<close>: what it writes over the row \<open>cur\<close> it read.\<close>

definition patch_campaign :: "UpdateCampaignInput \<Rightarrow> Campaign \<Rightarrow> time \<Rightarrow> Campaign \<Rightarrow> Campaign" where
  "patch_campaign inp cur now c =
     c\<lparr>cp_Name := (case ucp_Name inp of None \<Rightarrow> cp_Name cur | Some n \<Rightarrow> n),
       cp_CarrierID := (case ucp_CarrierID inp of None \<Rightarrow> cp_CarrierID cur | Some i \<Rightarrow> i),
       cp_Status := (case ucp_Status inp of None \<Rightarrow> cp_Status cur | Some st \<Rightarrow> st),
       cp_UpdatedAt := now\<rparr>"

definition update_campaign_stmt ::
  "uuid \<Rightarrow> (time \<Rightarrow> Campaign \<Rightarrow> Campaign) \<Rightarrow> time \<Rightarrow> tables \<Rightarrow> goerr + Campaign list \<times> tables" where
  "update_campaign_stmt i f now t =
     (let new = map (f now) (filter (\<lambda>c. cp_ID c = i) (campaigns t))
      in if \<exists>c \<in> set new. cp_CarrierID c \<notin> c_ID ` set (carriers t) then Inl foreign_key_violation
         else Inr (new, t\<lparr>campaigns := map (\<lambda>c. if cp_ID c = i then f now c else c) (campaigns t)\<rparr>))"

definition Campaign_write :: "uuid \<Rightarrow> UpdateCampaignInput \<Rightarrow> Campaign \<Rightarrow> Campaign sql" where
  "Campaign_write i inp cur =
     (if ucp_Status inp \<noteq> None \<and> \<not> ValidStatusTransition (cp_Status cur) (the (ucp_Status inp))
      then failE ErrInvalidStatusTransition
      else wrapE ''update campaign'' (first_row (\<lambda>s.
        db_update (update_campaign_stmt i (patch_campaign inp cur) (db_now s)) s)))"

definition Campaign_Update :: "uuid \<Rightarrow> UpdateCampaignInput \<Rightarrow> Campaign sql" where
  "Campaign_Update i inp = bindE (Campaign_Get i) (Campaign_write i inp)"

fun check_agents :: "uuid list \<Rightarrow> unit sql" where
  "check_agents [] = retE ()"
| "check_agents (uid # us) =
     tryE (query_row (\<lambda>t _. map u_Role (filter (\<lambda>u. u_ID u = uid) (users t)))) (\<lambda>r.
       case r of
         Inl e \<Rightarrow> if errors_is e SqlNoRows then failE ErrInvalidAgent else failE e
       | Inr role \<Rightarrow> if role \<noteq> UserRoleAgent then failE ErrInvalidAgent else check_agents us)"

definition insert_agent_stmt :: "uuid \<Rightarrow> uuid \<Rightarrow> tables \<Rightarrow> goerr + unit \<times> tables" where
  "insert_agent_stmt cid uid t =
     (let a = \<lparr>ca_CampaignID = cid, ca_UserID = uid\<rparr>
      in if a \<in> set (campaign_agents t) then Inl unique_violation
         else if cid \<notin> cp_ID ` set (campaigns t) \<or> uid \<notin> u_ID ` set (users t)
         then Inl foreign_key_violation
         else Inr ((), t\<lparr>campaign_agents := campaign_agents t @ [a]\<rparr>))"

fun insert_agents :: "uuid \<Rightarrow> uuid list \<Rightarrow> unit sql" where
  "insert_agents cid [] = retE ()"
| "insert_agents cid (uid # us) =
     bindE (db_update (insert_agent_stmt cid uid)) (\<lambda>_. insert_agents cid us)"

definition SetAgents :: "uuid \<Rightarrow> uuid list \<Rightarrow> unit sql" where
  "SetAgents campaignID userIDs =
     bindE (Campaign_Get campaignID) (\<lambda>_.
     bindE (check_agents userIDs) (\<lambda>_.
     in_tx (
       bindE (db_update (\<lambda>t. Inr ((), t\<lparr>campaign_agents :=
         filter (\<lambda>a. ca_CampaignID a \<noteq> campaignID) (campaign_agents t)\<rparr>))) (\<lambda>_.
       insert_agents campaignID userIDs))))"

definition assigned :: "tables \<Rightarrow> uuid \<Rightarrow> uuid \<Rightarrow> bool" where
  "assigned t cid aid \<longleftrightarrow> \<lparr>ca_CampaignID = cid, ca_UserID = aid\<rparr> \<in> set (campaign_agents t)"

definition ListRunningForAgent :: "uuid \<Rightarrow> Campaign list sql" where
  "ListRunningForAgent agentID = db_select (\<lambda>t _.
     sort_key cp_CreatedAt (filter (\<lambda>c. assigned t (cp_ID c) agentID \<and> cp_Status c = CampaignStatusRunning)
       (campaigns t)))"

definition IsAgentAssigned :: "uuid \<Rightarrow> uuid \<Rightarrow> bool sql" where
  "IsAgentAssigned campaignID agentID = db_select (\<lambda>t _. assigned t campaignID agentID)"

definition ValidateAgentJoin :: "uuid \<Rightarrow> uuid \<Rightarrow> unit sql" where
  "ValidateAgentJoin campaignID agentID =
     bindE (Campaign_Get campaignID) (\<lambda>campaign.
     if cp_Status campaign \<noteq> CampaignStatusRunning then failE ErrInvalidCampaignState
     else bindE (IsAgentAssigned campaignID agentID) (\<lambda>assd.
     if \<not> assd then failE ErrForbidden else retE ()))"

section \<open>Lemmas\<close>

definition the_campaign :: "tables \<Rightarrow> uuid \<Rightarrow> Campaign option" where
  "the_campaign t i = List.find (\<lambda>c. cp_ID c = i) (campaigns t)"

lemma Campaign_Get_ok:
  "Campaign_Get i s = (Inr c, s') \<Longrightarrow> c \<in> set (campaigns (tabs s)) \<and> cp_ID c = i \<and> tabs s' = tabs s"
  unfolding Campaign_Get_def or_not_found_ok by (rule query_row_filter)

lemma Campaign_Get_tabs: "Campaign_Get i s = (r, s') \<Longrightarrow> tabs s' = tabs s"
  unfolding Campaign_Get_def by (erule or_not_found_tabs) (rule query_row_tabs)

lemma patch_campaign_id [simp]: "cp_ID (patch_campaign inp cur now c) = cp_ID c"
  by (simp add: patch_campaign_def)

lemma Campaign_write_changed:
  assumes "Campaign_write i inp cur s = (r, s')" and "tabs s' \<noteq> tabs s"
  shows "(case ucp_Status inp of None \<Rightarrow> True | Some st \<Rightarrow> ValidStatusTransition (cp_Status cur) st) \<and>
    (\<exists>now. tabs s' = (tabs s)\<lparr>campaigns :=
       map (\<lambda>c. if cp_ID c = i then patch_campaign inp cur now c else c) (campaigns (tabs s))\<rparr>)"
proof -
  obtain r' where "db_update (update_campaign_stmt i (patch_campaign inp cur) (db_now s)) s = (r', s')"
    and v: "case ucp_Status inp of None \<Rightarrow> True | Some st \<Rightarrow> ValidStatusTransition (cp_Status cur) st"
    using assms unfolding Campaign_write_def
    by (cases "ucp_Status inp") (auto simp: wrapE_iff first_row_iff split: if_split_asm)
  with db_update_changed [OF this(1) assms(2)] show ?thesis
    by (intro conjI exI [of _ "db_now s"]) (auto simp: update_campaign_stmt_def Let_def split: if_split_asm)
qed

lemma Campaign_Update_changed:
  assumes "Campaign_Update i inp s = (r, s')" and "tabs s' \<noteq> tabs s"
  obtains cur now where "cur \<in> set (campaigns (tabs s))" "cp_ID cur = i"
    "case ucp_Status inp of None \<Rightarrow> True | Some st \<Rightarrow> ValidStatusTransition (cp_Status cur) st"
    "tabs s' = (tabs s)\<lparr>campaigns :=
       map (\<lambda>c. if cp_ID c = i then patch_campaign inp cur now c else c) (campaigns (tabs s))\<rparr>"
proof -
  obtain cur s1 where g: "Campaign_Get i s = (Inr cur, s1)" and w: "Campaign_write i inp cur s1 = (r, s')"
    using assms Campaign_Get_tabs unfolding Campaign_Update_def by (auto simp: bindE_iff)
  have c: "cur \<in> set (campaigns (tabs s))" "cp_ID cur = i" "tabs s1 = tabs s"
    using Campaign_Get_ok [OF g] by simp_all
  show ?thesis
    using Campaign_write_changed [OF w] assms(2) c that by auto
qed

text \<open>The status a campaign has, and how one update moves it.\<close>

definition status_of :: "tables \<Rightarrow> uuid \<Rightarrow> CampaignStatus option" where
  "status_of t i = map_option cp_Status (the_campaign t i)"

lemma the_campaign_map:
  "(\<And>c. cp_ID (f c) = cp_ID c) \<Longrightarrow>
   List.find (\<lambda>c. cp_ID c = j) (map (\<lambda>c. if cp_ID c = i then f c else c) cs) =
   map_option (\<lambda>c. if j = i then f c else c) (List.find (\<lambda>c. cp_ID c = j) cs)"
  by (induction cs) auto

lemma the_campaign_unique:
  assumes "distinct (map cp_ID cs)" and "c \<in> set cs"
  shows "List.find (\<lambda>x. cp_ID x = cp_ID c) cs = Some c"
  using assms by (induction cs) (auto simp: image_iff)

lemma Campaign_Update_status:
  assumes "Campaign_Update i inp s = (r, s')" and "distinct (map cp_ID (campaigns (tabs s)))"
    and "status_of (tabs s) j = Some st"
  shows "\<exists>st'. status_of (tabs s') j = Some st' \<and> ValidStatusTransition st st' \<and>
    (st' = st \<or> j = i \<and> ucp_Status inp = Some st')"
proof (cases "tabs s' = tabs s")
  case True
  then show ?thesis using assms(3) by (simp add: ValidStatusTransition_def)
next
  case False
  from assms(1) this show ?thesis
  proof (cases rule: Campaign_Update_changed)
    case (1 cur now)
    show ?thesis
    proof (cases "j = i")
      case True
      then have "the_campaign (tabs s) i = Some cur"
        using the_campaign_unique [OF assms(2) 1(1)] 1(2) by (simp add: the_campaign_def)
      then show ?thesis
        using True assms(3) 1(3) the_campaign_map [of "patch_campaign inp cur now" i i "campaigns (tabs s)"]
        by (cases "ucp_Status inp") (auto simp: 1(4) status_of_def the_campaign_def patch_campaign_def ValidStatusTransition_def)
    next
      case False
      then show ?thesis
        using assms(3) the_campaign_map [of "patch_campaign inp cur now" j i "campaigns (tabs s)"]
        by (auto simp: 1(4) status_of_def the_campaign_def ValidStatusTransition_def split: option.splits)
    qed
  qed
qed

lemma Campaign_Update_ids:
  assumes "Campaign_Update i inp s = (r, s')"
  shows "map cp_ID (campaigns (tabs s')) = map cp_ID (campaigns (tabs s))"
proof (cases "tabs s' = tabs s")
  case False
  from assms this show ?thesis by (cases rule: Campaign_Update_changed) simp
qed simp


lemma stopped_transition [simp]: "ValidStatusTransition CampaignStatusStopped st \<longleftrightarrow> st = CampaignStatusStopped"
  by (auto simp: ValidStatusTransition_def)

lemma draft_transition: "ValidStatusTransition st CampaignStatusDraft \<Longrightarrow> st = CampaignStatusDraft"
  by (cases st) (auto simp: ValidStatusTransition_def)

lemma insert_disposition_ok:
  assumes "db_insert (insert_disposition_stmt code label cid contact success) s = (Inr d, s')"
  shows "dp_Code d = code \<and> dp_Label d = label \<and> dp_CampaignID d = Some cid \<and> dp_IsContact d = contact \<and>
    dp_IsSuccess d = success \<and> tabs s' = (tabs s)\<lparr>dispositions := dispositions (tabs s) @ [d]\<rparr>"
  using db_insert_ok [OF assms] by (auto simp: insert_disposition_stmt_def Let_def split: if_split_asm)

lemma seed_dispositions_ok:
  assumes "seed_dispositions cid ds s = (Inr u, s')"
  shows "\<exists>new. tabs s' = (tabs s)\<lparr>dispositions := dispositions (tabs s) @ new\<rparr> \<and>
    map (\<lambda>d. (dp_Code d, dp_Label d, dp_IsContact d, dp_IsSuccess d)) new = ds \<and>
    (\<forall>d \<in> set new. dp_CampaignID d = Some cid)"
  using assms
proof (induction ds arbitrary: s)
  case Nil
  then show ?case by (intro exI [of _ "[]"]) simp
next
  case (Cons x ds)
  obtain code label contact success where x: "x = (code, label, contact, success)" by (cases x)
  obtain d s1 where d: "db_insert (insert_disposition_stmt code label cid contact success) s = (Inr d, s1)"
    and rest: "seed_dispositions cid ds s1 = (Inr u, s')"
    using Cons.prems x by (auto simp: run_iffs)
  from Cons.IH [OF rest] obtain new where
    "tabs s' = (tabs s1)\<lparr>dispositions := dispositions (tabs s1) @ new\<rparr>"
    "map (\<lambda>d. (dp_Code d, dp_Label d, dp_IsContact d, dp_IsSuccess d)) new = ds"
    "\<forall>d \<in> set new. dp_CampaignID d = Some cid" by blast
  with insert_disposition_ok [OF d] x show ?case
    by (intro exI [of _ "d # new"]) simp
qed

text \<open>The row of a campaign that was created, and its dispositions.\<close>

lemma Campaign_Create_row:
  assumes "Campaign_Create inp s = (Inr c, s')"
  shows "cp_ID c \<notin> cp_ID ` set (campaigns (tabs s)) \<and> cp_Name c = ccp_Name inp \<and> cp_Status c = CampaignStatusDraft \<and>
    cp_CarrierID c \<in> c_ID ` set (carriers (tabs s)) \<and>
    (\<exists>new. tabs s' = (tabs s)\<lparr>campaigns := campaigns (tabs s) @ [c],
                              dispositions := dispositions (tabs s) @ new\<rparr> \<and>
       map (\<lambda>d. (dp_Code d, dp_Label d, dp_IsContact d, dp_IsSuccess d)) new = defaultDispositions \<and>
       (\<forall>d \<in> set new. dp_CampaignID d = Some (cp_ID c)))"
proof -
  obtain fs s1 where t: "tabs s' = tabs s1" and body:
    "bindE (wrapE ''insert campaign'' (db_insert (insert_campaign_stmt inp))) (\<lambda>c.
     bindE (seed_dispositions (cp_ID c) defaultDispositions) (\<lambda>_. retE c)) (s\<lparr>db_faults := fs\<rparr>) = (Inr c, s1)"
    using in_tx_ok [OF assms [unfolded Campaign_Create_def]] by blast
  from body obtain s2 where i: "db_insert (insert_campaign_stmt inp) (s\<lparr>db_faults := fs\<rparr>) = (Inr c, s2)"
    and seed: "seed_dispositions (cp_ID c) defaultDispositions s2 = (Inr (), s1)"
    by (auto simp: run_iffs simp del: seed_dispositions.simps)
  have "cp_ID c \<notin> cp_ID ` set (campaigns (tabs s)) \<and> cp_Name c = ccp_Name inp \<and> cp_Status c = CampaignStatusDraft \<and> cp_CarrierID c \<in> c_ID ` set (carriers (tabs s)) \<and>
      tabs s2 = (tabs s)\<lparr>campaigns := campaigns (tabs s) @ [c]\<rparr>"
    using db_insert_ok [OF i] by (auto simp: insert_campaign_stmt_def Let_def split: if_split_asm)
  with seed_dispositions_ok [OF seed] t show ?thesis by auto
qed

lemma check_agents_ok:
  "check_agents us s = (Inr u, s') \<Longrightarrow>
   tabs s' = tabs s \<and> (\<forall>i \<in> set us. \<exists>v \<in> set (users (tabs s)). u_ID v = i \<and> u_Role v = UserRoleAgent)"
proof (induction us arbitrary: s)
  case (Cons i us)
  then obtain s1 where q: "query_row (\<lambda>t _. map u_Role (filter (\<lambda>u. u_ID u = i) (users t))) s = (Inr UserRoleAgent, s1)"
    and rest: "check_agents us s1 = (Inr u, s')"
    by (auto simp: tryE_iff split: if_split_asm)
  from query_row_ok [OF q] obtain xs where
    "map u_Role (filter (\<lambda>u. u_ID u = i) (users (tabs s))) = UserRoleAgent # xs" "tabs s1 = tabs s" by auto
  then have "UserRoleAgent \<in> u_Role ` {u \<in> set (users (tabs s)). u_ID u = i}"
    by (metis list.set_intros(1) list.set_map set_filter)
  with Cons.IH [OF rest] \<open>tabs s1 = tabs s\<close> show ?case by auto
qed simp

lemma check_agents_tabs: "check_agents us s = (r, s') \<Longrightarrow> tabs s' = tabs s"
proof (induction us arbitrary: s)
  case (Cons i us)
  then show ?case
    by (auto simp: tryE_iff split: if_split_asm dest!: query_row_tabs)
qed simp

lemma insert_agents_ok:
  "insert_agents cid us s = (Inr u, s') \<Longrightarrow>
   tabs s' = (tabs s)\<lparr>campaign_agents := campaign_agents (tabs s) @ map (CampaignAgent.make cid) us\<rparr> \<and>
   distinct us \<and> (\<forall>i \<in> set us. \<lparr>ca_CampaignID = cid, ca_UserID = i\<rparr> \<notin> set (campaign_agents (tabs s)))"
proof (induction us arbitrary: s)
  case (Cons i us)
  then obtain s1 where i: "db_update (insert_agent_stmt cid i) s = (Inr (), s1)"
    and rest: "insert_agents cid us s1 = (Inr u, s')"
    by (auto simp: bindE_Inr_iff)
  have "tabs s1 = (tabs s)\<lparr>campaign_agents := campaign_agents (tabs s) @ [CampaignAgent.make cid i]\<rparr>"
    "CampaignAgent.make cid i \<notin> set (campaign_agents (tabs s))"
    using db_update_ok [OF i] by (auto simp: insert_agent_stmt_def Let_def CampaignAgent.defs split: if_split_asm)
  with Cons.IH [OF rest] show ?case by (auto simp: CampaignAgent.defs)
qed simp

lemma SetAgents_ok:
  assumes "SetAgents cid us s = (Inr u, s')"
  shows "distinct us \<and> (\<forall>i \<in> set us. \<exists>v \<in> set (users (tabs s)). u_ID v = i \<and> u_Role v = UserRoleAgent) \<and>
    tabs s' = (tabs s)\<lparr>campaign_agents :=
      filter (\<lambda>a. ca_CampaignID a \<noteq> cid) (campaign_agents (tabs s)) @ map (CampaignAgent.make cid) us\<rparr>"
proof -
  let ?del = "\<lambda>t. Inr ((), t\<lparr>campaign_agents := filter (\<lambda>a. ca_CampaignID a \<noteq> cid) (campaign_agents t)\<rparr>)"
  obtain c s1 s2 where g: "Campaign_Get cid s = (Inr c, s1)" and ch: "check_agents us s1 = (Inr (), s2)"
    and tx: "in_tx (bindE (db_update ?del) (\<lambda>_. insert_agents cid us)) s2 = (Inr (), s')"
    using assms unfolding SetAgents_def by (auto simp: bindE_Inr_iff)
  obtain fs s3 where b: "bindE (db_update ?del) (\<lambda>_. insert_agents cid us) (s2\<lparr>db_faults := fs\<rparr>) = (Inr (), s3)"
    and t3: "tabs s' = tabs s3"
    using in_tx_ok [OF tx] by blast
  obtain s4 where d: "db_update ?del (s2\<lparr>db_faults := fs\<rparr>) = (Inr (), s4)" and i: "insert_agents cid us s4 = (Inr (), s3)"
    using b by (auto simp: bindE_Inr_iff)
  have t: "tabs s2 = tabs s"
    using Campaign_Get_tabs [OF g] check_agents_ok [OF ch] by simp
  have "tabs s4 = (tabs s)\<lparr>campaign_agents := filter (\<lambda>a. ca_CampaignID a \<noteq> cid) (campaign_agents (tabs s))\<rparr>"
    using db_update_ok [OF d] t by simp
  with insert_agents_ok [OF i] t3 check_agents_ok [OF ch] Campaign_Get_tabs [OF g] show ?thesis by simp
qed

lemma SetAgents_err:
  assumes "SetAgents cid us s = (Inl e, s')"
  shows "tabs s' = tabs s"
  using assms unfolding SetAgents_def
  by (auto simp: bindE_iff dest!: Campaign_Get_tabs check_agents_tabs in_tx_err)

section \<open>Properties\<close>

definition run_updates :: "(uuid \<times> UpdateCampaignInput) list \<Rightarrow> dbst \<Rightarrow> dbst" where
  "run_updates ops s = fold (\<lambda>(i, inp) s. snd (Campaign_Update i inp s)) ops s"

lemma run_updates_status:
  assumes "distinct (map cp_ID (campaigns (tabs s)))" and "status_of (tabs s) j = Some st"
  shows "\<exists>st'. status_of (tabs (run_updates ops s)) j = Some st' \<and> ValidStatusTransition\<^sup>*\<^sup>* st st'"
  using assms
proof (induction ops arbitrary: s st)
  case Nil
  then show ?case by (simp add: run_updates_def)
next
  case (Cons op ops)
  obtain i inp where op: "op = (i, inp)" by (cases op)
  obtain r s1 where u: "Campaign_Update i inp s = (r, s1)" by (cases "Campaign_Update i inp s")
  obtain st1 where st1: "status_of (tabs s1) j = Some st1" "ValidStatusTransition st st1"
    using Campaign_Update_status [OF u Cons.prems] by blast
  have "distinct (map cp_ID (campaigns (tabs s1)))"
    using Campaign_Update_ids [OF u] Cons.prems(1) by simp
  from Cons.IH [OF this st1(1)] st1(2) show ?case
    by (auto simp: run_updates_def op u intro: converse_rtranclp_into_rtranclp)
qed

text \<open>
  C6. Updates of campaigns that run one after the other, whichever of them fail, only move a
  campaign along the allowed transitions: a stopped campaign stays stopped, and no campaign
  that has left the draft state comes back to it.
\<close>

theorem campaign_status_legal:
  assumes "distinct (map cp_ID (campaigns (tabs s)))" and "status_of (tabs s) j = Some st"
  shows "\<exists>st'. status_of (tabs (run_updates ops s)) j = Some st' \<and> ValidStatusTransition\<^sup>*\<^sup>* st st' \<and>
    (st = CampaignStatusStopped \<longrightarrow> st' = CampaignStatusStopped) \<and>
    (st' = CampaignStatusDraft \<longrightarrow> st = CampaignStatusDraft)"
proof -
  have "b = CampaignStatusStopped" if "ValidStatusTransition\<^sup>*\<^sup>* a b" "a = CampaignStatusStopped" for a b
    using that by (induction rule: rtranclp_induct) auto
  moreover have "a = CampaignStatusDraft" if "ValidStatusTransition\<^sup>*\<^sup>* a b" "b = CampaignStatusDraft" for a b
    using that by (induction rule: converse_rtranclp_induct) (auto dest: draft_transition)
  ultimately show ?thesis
    using run_updates_status [OF assms, of ops] by blast
qed

definition sample_campaign :: "CampaignStatus \<Rightarrow> Campaign" where
  "sample_campaign st = \<lparr>cp_ID = 7, cp_Name = ''c'', cp_CarrierID = 1, cp_Status = st, cp_DialMode = DialModeManual,
     cp_CreatedAt = 0, cp_UpdatedAt = 0\<rparr>"

definition to_status :: "CampaignStatus \<Rightarrow> UpdateCampaignInput" where
  "to_status st = \<lparr>ucp_Name = None, ucp_CarrierID = None, ucp_Status = Some st\<rparr>"

definition sample_trunk :: Carrier where
  "sample_trunk = \<lparr>c_ID = 1, c_Name = ''t'', c_Host = ''h'', c_Port = 5060, c_Transport = ''udp'', c_Username = None,
     c_PasswordEncrypted = None, c_Realm = None, c_Codecs = [], c_CallerIDs = [], c_MaxCPS = 1, c_MaxChannels = 1,
     c_Enabled = True, c_Priority = 1, c_CreatedAt = 0\<rparr>"

definition campaign_db :: "CampaignStatus \<Rightarrow> dbst" where
  "campaign_db st = db_of (empty_tables\<lparr>carriers := [sample_trunk], campaigns := [sample_campaign st]\<rparr>)"

theorem campaign_status_legal_witness:
  "status_of (tabs (run_updates [(7, to_status CampaignStatusStopped), (7, to_status CampaignStatusRunning)]
     (campaign_db CampaignStatusRunning))) 7 = Some CampaignStatusStopped"
proof -
  let ?s = "run_updates [(7, to_status CampaignStatusStopped)] (campaign_db CampaignStatusRunning)"
  have d: "distinct (map cp_ID (campaigns (tabs ?s)))" and st: "status_of (tabs ?s) 7 = Some CampaignStatusStopped"
    by code_simp+
  show ?thesis
    using campaign_status_legal [OF d st, of "[(7, to_status CampaignStatusRunning)]"]
    by (simp add: run_updates_def)
qed


text \<open>
  A new campaign is a draft with exactly the five default dispositions, all of them its
  own; a failed creation leaves nothing behind.
\<close>

theorem campaign_create:
  assumes "Campaign_Create inp s = (r, s')"
  shows "case r of
      Inl _ \<Rightarrow> tabs s' = tabs s
    | Inr c \<Rightarrow> cp_Status c = CampaignStatusDraft \<and> cp_CarrierID c \<in> c_ID ` set (carriers (tabs s)) \<and>
        (\<exists>new. tabs s' = (tabs s)\<lparr>campaigns := campaigns (tabs s) @ [c],
                                  dispositions := dispositions (tabs s) @ new\<rparr> \<and>
           map (\<lambda>d. (dp_Code d, dp_Label d, dp_IsContact d, dp_IsSuccess d)) new = defaultDispositions \<and>
           (\<forall>d \<in> set new. dp_CampaignID d = Some (cp_ID c)))"
proof (cases r)
  case (Inl e)
  from in_tx_err [OF assms [unfolded Inl Campaign_Create_def]] show ?thesis by (simp add: Inl)
next
  case (Inr c)
  then show ?thesis using Campaign_Create_row [of inp s c s'] assms by (auto simp: Inr)
qed

theorem campaign_create_witness:
  "\<exists>c s'. Campaign_Create \<lparr>ccp_Name = ''x'', ccp_CarrierID = 1\<rparr> (campaign_db CampaignStatusDraft) = (Inr c, s') \<and>
     length (dispositions (tabs s')) = 5"
proof -
  let ?m = "Campaign_Create \<lparr>ccp_Name = ''x'', ccp_CarrierID = 1\<rparr> (campaign_db CampaignStatusDraft)"
  have "\<not> isl (fst ?m)" by code_simp
  then obtain c where m: "?m = (Inr c, snd ?m)" by (cases ?m; cases "fst ?m") auto
  have e: "dispositions (tabs (campaign_db CampaignStatusDraft)) = []" "length defaultDispositions = 5"
    by (simp_all add: campaign_db_def db_of_def empty_tables_def defaultDispositions_def)
  from campaign_create [OF m] e have "length (dispositions (tabs (snd ?m))) = 5"
    by (auto dest!: arg_cong [of _ defaultDispositions length])
  with m show ?thesis by blast
qed

text \<open>
  Assigning agents replaces the agents of exactly that campaign by the users given, all of
  them agents and none named twice (a repeated user makes the call fail), and a call that fails
  changes nothing.
\<close>

theorem set_agents:
  assumes "SetAgents cid us s = (r, s')"
  shows "case r of
      Inl _ \<Rightarrow> tabs s' = tabs s
    | Inr _ \<Rightarrow> distinct us \<and> (\<forall>i. assigned (tabs s') cid i \<longleftrightarrow> i \<in> set us) \<and>
        (\<forall>j i. j \<noteq> cid \<longrightarrow> assigned (tabs s') j i = assigned (tabs s) j i) \<and>
        (\<forall>i \<in> set us. \<exists>v \<in> set (users (tabs s)). u_ID v = i \<and> u_Role v = UserRoleAgent)"
proof (cases r)
  case (Inl e)
  then show ?thesis using SetAgents_err assms by simp
next
  case (Inr u)
  from SetAgents_ok [OF assms [unfolded Inr]] show ?thesis
    by (auto simp: Inr assigned_def CampaignAgent.defs)
qed

definition sample_agent :: User where
  "sample_agent = \<lparr>u_ID = 3, u_Email = ''a'', u_PasswordHash = [], u_Role = UserRoleAgent, u_DisplayName = None,
     u_TOTPSecretEncrypted = None, u_TOTPEnabled = False, u_FailedLoginCount = 0, u_LockedUntil = None,
     u_DisabledAt = None, u_CreatedAt = 0\<rparr>"

theorem set_agents_witness:
  "\<exists>s'. SetAgents 7 [3] ((campaign_db CampaignStatusDraft)\<lparr>tabs := (tabs (campaign_db CampaignStatusDraft))\<lparr>users := [sample_agent]\<rparr>\<rparr>)
       = (Inr (), s') \<and> assigned (tabs s') 7 3 \<and> \<not> assigned (tabs s') 7 4"
proof -
  let ?s = "(campaign_db CampaignStatusDraft)\<lparr>tabs := (tabs (campaign_db CampaignStatusDraft))\<lparr>users := [sample_agent]\<rparr>\<rparr>"
  have "\<not> isl (fst (SetAgents 7 [3] ?s))" by code_simp
  then have "SetAgents 7 [3] ?s = (Inr (), snd (SetAgents 7 [3] ?s))"
    by (cases "SetAgents 7 [3] ?s"; cases "fst (SetAgents 7 [3] ?s)") auto
  with set_agents [OF this] show ?thesis by (intro exI [of _ "snd (SetAgents 7 [3] ?s)"]) auto
qed

end
