(* ===== verification/Store_Leads.thy ===== *)
theory Store_Leads
  imports Store_Campaigns
begin

text \<open>
  \<open>services/api/internal/store/dispositions.go\<close>, \<open>leads.go\<close> and \<open>calllogs.go\<close>: the leads of a
  campaign from their import over the claim by an agent to the disposition of the call.
\<close>

section \<open>Dispositions\<close>

record CreateDispositionInput =
  cdp_Code :: string
  cdp_Label :: string
  cdp_IsContact :: bool
  cdp_IsSuccess :: bool

definition Disposition_Get :: "uuid \<Rightarrow> Disposition sql" where
  "Disposition_Get i = or_not_found (query_row (\<lambda>t _. filter (\<lambda>d. dp_ID d = i) (dispositions t)))"

text \<open>\<open>ORDER BY code\<close>: strings in the order of their bytes.\<close>

fun bytes_le :: "string \<Rightarrow> string \<Rightarrow> bool" where
  "bytes_le [] _ \<longleftrightarrow> True"
| "bytes_le (_ # _) [] \<longleftrightarrow> False"
| "bytes_le (a # s) (b # t) \<longleftrightarrow> byte a < byte b \<or> a = b \<and> bytes_le s t"

fun insert_by_code :: "Disposition \<Rightarrow> Disposition list \<Rightarrow> Disposition list" where
  "insert_by_code d [] = [d]"
| "insert_by_code d (e # es) = (if bytes_le (dp_Code d) (dp_Code e) then d # e # es else e # insert_by_code d es)"

definition ListByCampaign :: "uuid \<Rightarrow> Disposition list sql" where
  "ListByCampaign campaignID = db_select (\<lambda>t _.
     foldr insert_by_code (filter (\<lambda>d. dp_CampaignID d = Some campaignID) (dispositions t)) [])"

definition Disposition_Create :: "uuid \<Rightarrow> CreateDispositionInput \<Rightarrow> Disposition sql" where
  "Disposition_Create campaignID inp =
     tryE (db_insert (insert_disposition_stmt (to_upper (trim_space (cdp_Code inp))) (trim_space (cdp_Label inp))
             campaignID (cdp_IsContact inp) (cdp_IsSuccess inp))) (\<lambda>r.
       case r of
         Inr d \<Rightarrow> retE d
       | Inl err \<Rightarrow>
           if as_pq err = Some ''23505'' then failE ErrDuplicateDisposition
           else failE (ErrWrap ''insert disposition'' err))"

section \<open>Leads\<close>

record ImportLeadRow =
  ir_Phone :: string
  ir_Payload :: "(string \<times> string) list"

record ImportLeadsInput =
  il_CampaignID :: uuid
  il_Name :: string
  il_Rows :: "ImportLeadRow list"

record ImportLeadsResult =
  res_ListID :: uuid
  res_Imported :: int

definition new_list :: "uuid \<Rightarrow> string \<Rightarrow> uuid \<Rightarrow> time \<Rightarrow> LeadList" where
  "new_list cid name i now =
     \<lparr>ll_ID = i, ll_CampaignID = cid, ll_Name = name, ll_ImportedAt = now, ll_RowCount = 0\<rparr>"

definition insert_list_stmt :: "uuid \<Rightarrow> string \<Rightarrow> uuid \<Rightarrow> time \<Rightarrow> tables \<Rightarrow> goerr + uuid \<times> tables" where
  "insert_list_stmt cid name i now t =
     (if i \<in> ll_ID ` set (lead_lists t) then Inl unique_violation
      else if cid \<notin> cp_ID ` set (campaigns t) then Inl foreign_key_violation
      else Inr (i, t\<lparr>lead_lists := lead_lists t @ [new_list cid name i now]\<rparr>))"

definition new_lead :: "uuid \<Rightarrow> ImportLeadRow \<Rightarrow> uuid \<Rightarrow> Lead" where
  "new_lead lid row i =
     \<lparr>l_ID = i, l_ListID = lid, l_Phone = ir_Phone row, l_Payload = ir_Payload row,
      l_Status = LeadStatusNew, l_DispositionID = None, l_AssignedAgentID = None\<rparr>"

definition insert_lead_stmt :: "uuid \<Rightarrow> ImportLeadRow \<Rightarrow> uuid \<Rightarrow> time \<Rightarrow> tables \<Rightarrow> goerr + unit \<times> tables" where
  "insert_lead_stmt lid row i now t =
     (if i \<in> l_ID ` set (leads t) then Inl unique_violation
      else if lid \<notin> ll_ID ` set (lead_lists t) then Inl foreign_key_violation
      else Inr ((), t\<lparr>leads := leads t @ [new_lead lid row i]\<rparr>))"

fun insert_leads :: "uuid \<Rightarrow> ImportLeadRow list \<Rightarrow> int \<Rightarrow> int sql" where
  "insert_leads lid [] imported = retE imported"
| "insert_leads lid (row # rows) imported =
     bindE (wrapE ''insert lead'' (db_insert (insert_lead_stmt lid row))) (\<lambda>_.
     insert_leads lid rows (imported + 1))"

definition set_row_count_stmt :: "uuid \<Rightarrow> int \<Rightarrow> tables \<Rightarrow> goerr + unit \<times> tables" where
  "set_row_count_stmt lid n t =
     (if \<not> int4 n then Inl int4_error
      else Inr ((), t\<lparr>lead_lists := map (\<lambda>l. if ll_ID l = lid then l\<lparr>ll_RowCount := n\<rparr> else l) (lead_lists t)\<rparr>))"

definition Import_body :: "ImportLeadsInput \<Rightarrow> ImportLeadsResult sql" where
  "Import_body inp =
     bindE (wrapE ''insert lead_list'' (db_insert (insert_list_stmt (il_CampaignID inp) (il_Name inp)))) (\<lambda>listID.
     bindE (insert_leads listID (il_Rows inp) 0) (\<lambda>imported.
     bindE (wrapE ''update row_count'' (db_update (set_row_count_stmt listID imported))) (\<lambda>_.
     retE \<lparr>res_ListID = listID, res_Imported = imported\<rparr>)))"

definition Import :: "ImportLeadsInput \<Rightarrow> ImportLeadsResult sql" where
  "Import inp = bindE (Campaign_Get (il_CampaignID inp)) (\<lambda>_. in_tx (Import_body inp))"

text \<open>A lead belongs to the campaign of its list.\<close>

definition lead_in_campaign :: "tables \<Rightarrow> uuid \<Rightarrow> Lead \<Rightarrow> bool" where
  "lead_in_campaign t cid l \<longleftrightarrow> (\<exists>ll \<in> set (lead_lists t). ll_ID ll = l_ListID l \<and> ll_CampaignID ll = cid)"

text \<open>The common table expression \<open>picked\<close> (new leads, by id, the first) and the update.\<close>

definition picked :: "tables \<Rightarrow> uuid \<Rightarrow> Lead list" where
  "picked t cid =
     take 1 (sort_key l_ID (filter (\<lambda>l. lead_in_campaign t cid l \<and> l_Status l = LeadStatusNew) (leads t)))"

definition claim_lead :: "uuid \<Rightarrow> Lead \<Rightarrow> Lead" where
  "claim_lead aid l = l\<lparr>l_Status := LeadStatusInProgress, l_AssignedAgentID := Some aid\<rparr>"

definition claim_lead_stmt :: "uuid \<Rightarrow> uuid \<Rightarrow> tables \<Rightarrow> goerr + Lead list \<times> tables" where
  "claim_lead_stmt cid aid t =
     (let ids = map l_ID (picked t cid)
      in if ids \<noteq> [] \<and> aid \<notin> u_ID ` set (users t) then Inl foreign_key_violation
         else Inr (map (claim_lead aid) (filter (\<lambda>l. l_ID l \<in> set ids) (leads t)),
              t\<lparr>leads := map (\<lambda>l. if l_ID l \<in> set ids then claim_lead aid l else l) (leads t)\<rparr>))"

definition ClaimNext :: "uuid \<Rightarrow> uuid \<Rightarrow> Lead sql" where
  "ClaimNext campaignID agentID =
     bindE (Campaign_Get campaignID) (\<lambda>campaign.
     if cp_Status campaign \<noteq> CampaignStatusRunning then failE ErrInvalidCampaignState
     else bindE (IsAgentAssigned campaignID agentID) (\<lambda>assd.
     if \<not> assd then failE ErrForbidden
     else tryE (first_row (db_update (claim_lead_stmt campaignID agentID))) (\<lambda>r.
       case r of
         Inl err \<Rightarrow> if errors_is err SqlNoRows then failE ErrNoLeadsAvailable
                    else failE (ErrWrap ''claim lead'' err)
       | Inr lead \<Rightarrow> retE lead)))"

section \<open>Call logs\<close>

record RecordDispositionInput =
  rd_CampaignID :: uuid
  rd_LeadID :: uuid
  rd_AgentID :: uuid
  rd_DispositionID :: uuid
  rd_ToNumber :: string
  rd_StartedAt :: time
  rd_EndedAt :: "time option"
  rd_DurationSec :: "int option"

definition leadStatusFromDisposition :: "Disposition \<Rightarrow> LeadStatus" where
  "leadStatusFromDisposition d =
     (if dp_Code d = ''NO_ANSWER'' then LeadStatusNoAnswer
      else if dp_Code d = ''BUSY'' then LeadStatusBusy
      else if dp_Code d = ''CALLBACK'' then LeadStatusCallback
      else if dp_Code d = ''SUCCESS'' then LeadStatusAnswered
      else if dp_Code d = ''DNC'' then LeadStatusDisposed
      else if dp_IsSuccess d then LeadStatusAnswered
      else LeadStatusDisposed)"

definition dispose_lead_stmt :: "uuid \<Rightarrow> LeadStatus \<Rightarrow> uuid \<Rightarrow> tables \<Rightarrow> goerr + unit \<times> tables" where
  "dispose_lead_stmt lid st did t =
     (if did \<notin> dp_ID ` set (dispositions t) then Inl foreign_key_violation
      else Inr ((), t\<lparr>leads := map (\<lambda>l. if l_ID l = lid then l\<lparr>l_Status := st, l_DispositionID := Some did\<rparr> else l)
        (leads t)\<rparr>))"

definition insert_call_stmt :: "RecordDispositionInput \<Rightarrow> uuid \<Rightarrow> time \<Rightarrow> tables \<Rightarrow> goerr + CallLog \<times> tables" where
  "insert_call_stmt inp i now t =
     (let c = \<lparr>cl_ID = i, cl_CampaignID = rd_CampaignID inp, cl_LeadID = Some (rd_LeadID inp),
               cl_AgentID = rd_AgentID inp, cl_Direction = ''outbound'', cl_StartedAt = pg_time (rd_StartedAt inp),
               cl_EndedAt = map_option pg_time (rd_EndedAt inp), cl_DurationSec = rd_DurationSec inp,
               cl_DispositionID = Some (rd_DispositionID inp), cl_ToNumber = rd_ToNumber inp\<rparr>
      in if \<not> (case rd_DurationSec inp of None \<Rightarrow> True | Some n \<Rightarrow> int4 n) then Inl int4_error
         else if i \<in> cl_ID ` set (call_logs t) then Inl unique_violation
         else if rd_CampaignID inp \<notin> cp_ID ` set (campaigns t) \<or> rd_LeadID inp \<notin> l_ID ` set (leads t) \<or>
                 rd_AgentID inp \<notin> u_ID ` set (users t) \<or> rd_DispositionID inp \<notin> dp_ID ` set (dispositions t)
         then Inl foreign_key_violation
         else Inr (c, t\<lparr>call_logs := call_logs t @ [c]\<rparr>))"

definition lookup_lead :: "uuid \<Rightarrow> uuid \<Rightarrow> (LeadStatus \<times> uuid option) sql" where
  "lookup_lead lid cid = query_row (\<lambda>t _.
     map (\<lambda>l. (l_Status l, l_AssignedAgentID l))
       (filter (\<lambda>l. l_ID l = lid \<and> lead_in_campaign t cid l) (leads t)))"

definition RecordDisposition_body :: "RecordDispositionInput \<Rightarrow> Disposition \<Rightarrow> CallLog sql" where
  "RecordDisposition_body inp disp =
     bindE (tryE (lookup_lead (rd_LeadID inp) (rd_CampaignID inp)) (\<lambda>r. case r of
         Inl err \<Rightarrow> if errors_is err SqlNoRows then failE ErrNotFound else failE (ErrWrap ''lookup lead'' err)
       | Inr x \<Rightarrow> retE x)) (\<lambda>(currentStatus, assignedAgentID).
     if assignedAgentID \<noteq> Some (rd_AgentID inp) then failE ErrNotFound
     else bindE (wrapE ''update lead'' (db_update
            (dispose_lead_stmt (rd_LeadID inp) (leadStatusFromDisposition disp) (rd_DispositionID inp)))) (\<lambda>_.
          wrapE ''insert call_log'' (db_insert (insert_call_stmt inp))))"

definition RecordDisposition :: "RecordDispositionInput \<Rightarrow> CallLog sql" where
  "RecordDisposition inp =
     bindE (Disposition_Get (rd_DispositionID inp)) (\<lambda>disp.
     if dp_CampaignID disp \<noteq> Some (rd_CampaignID inp) then failE ErrNotFound
     else in_tx (RecordDisposition_body inp disp))"

section \<open>Lemmas\<close>

lemma new_lead_sel [simp]:
  "l_ID (new_lead lid row i) = i" "l_ListID (new_lead lid row i) = lid"
  "l_Phone (new_lead lid row i) = ir_Phone row" "l_Payload (new_lead lid row i) = ir_Payload row"
  "l_Status (new_lead lid row i) = LeadStatusNew" "l_AssignedAgentID (new_lead lid row i) = None"
  by (simp_all add: new_lead_def)

text \<open>What an import of \<open>rows\<close> into the list \<open>lid\<close> adds to the leads \<open>old\<close>.\<close>

definition imported_leads :: "uuid \<Rightarrow> ImportLeadRow list \<Rightarrow> Lead list \<Rightarrow> Lead list \<Rightarrow> bool" where
  "imported_leads lid rows old new \<longleftrightarrow>
     map (\<lambda>l. (l_Phone l, l_Payload l)) new = map (\<lambda>r. (ir_Phone r, ir_Payload r)) rows \<and>
     (\<forall>l \<in> set new. l_ListID l = lid \<and> l_Status l = LeadStatusNew \<and> l_AssignedAgentID l = None) \<and>
     distinct (map l_ID new) \<and> l_ID ` set new \<inter> l_ID ` set old = {}"

lemma imported_leads_Nil: "imported_leads lid [] old []"
  by (simp add: imported_leads_def)

lemma imported_leads_Cons:
  "i \<notin> l_ID ` set old \<Longrightarrow> imported_leads lid rows (old @ [new_lead lid row i]) new \<Longrightarrow>
   imported_leads lid (row # rows) old (new_lead lid row i # new)"
  by (auto simp: imported_leads_def)

lemma insert_lead_ok:
  "db_insert (insert_lead_stmt lid row) s = (Inr u, s') \<Longrightarrow>
   \<exists>i. i \<notin> l_ID ` set (leads (tabs s)) \<and> tabs s' = (tabs s)\<lparr>leads := leads (tabs s) @ [new_lead lid row i]\<rparr>"
  by (drule db_insert_ok) (auto simp: insert_lead_stmt_def split: if_split_asm)

lemma insert_leads_ok:
  assumes "insert_leads lid rows k s = (Inr n, s')"
  shows "n = k + int (length rows) \<and>
    (\<exists>new. tabs s' = (tabs s)\<lparr>leads := leads (tabs s) @ new\<rparr> \<and> imported_leads lid rows (leads (tabs s)) new)"
  using assms
proof (induction rows arbitrary: s k)
  case Nil
  then show ?case by (auto intro!: exI [of _ "[]"] imported_leads_Nil)
next
  case (Cons row rows)
  then obtain s1 where i: "db_insert (insert_lead_stmt lid row) s = (Inr (), s1)"
    and rest: "insert_leads lid rows (k + 1) s1 = (Inr n, s')"
    by (auto simp: run_iffs)
  obtain i where i: "i \<notin> l_ID ` set (leads (tabs s))" "tabs s1 = (tabs s)\<lparr>leads := leads (tabs s) @ [new_lead lid row i]\<rparr>"
    using insert_lead_ok [OF i] by blast
  obtain new where new: "tabs s' = (tabs s1)\<lparr>leads := leads (tabs s1) @ new\<rparr>"
    "imported_leads lid rows (leads (tabs s1)) new" "n = k + 1 + int (length rows)"
    using Cons.IH [OF rest] by blast
  show ?case
    using imported_leads_Cons [OF i(1), of lid rows row new] i(2) new
    by (intro conjI exI [of _ "new_lead lid row i # new"]) simp_all
qed

lemma insert_list_ok:
  "db_insert (insert_list_stmt cid name) s = (Inr lid, s') \<Longrightarrow>
   lid \<notin> ll_ID ` set (lead_lists (tabs s)) \<and>
   tabs s' = (tabs s)\<lparr>lead_lists := lead_lists (tabs s) @ [new_list cid name lid (db_now s)]\<rparr>"
  by (drule db_insert_ok) (auto simp: insert_list_stmt_def split: if_split_asm)

lemma Import_body_ok:
  assumes "Import_body inp s = (Inr r, s')"
  shows "res_Imported r = int (length (il_Rows inp)) \<and> res_ListID r \<notin> ll_ID ` set (lead_lists (tabs s)) \<and>
    (\<exists>new now. tabs s' = (tabs s)
       \<lparr>leads := leads (tabs s) @ new, lead_lists := lead_lists (tabs s) @
          [(new_list (il_CampaignID inp) (il_Name inp) (res_ListID r) now)\<lparr>ll_RowCount := res_Imported r\<rparr>]\<rparr> \<and> imported_leads (res_ListID r) (il_Rows inp) (leads (tabs s)) new)"
proof -
  obtain lid n s1 s2 where a: "db_insert (insert_list_stmt (il_CampaignID inp) (il_Name inp)) s = (Inr lid, s1)"
    and b: "insert_leads lid (il_Rows inp) 0 s1 = (Inr n, s2)"
    and c: "db_update (set_row_count_stmt lid n) s2 = (Inr (), s')"
    and r: "r = \<lparr>res_ListID = lid, res_Imported = n\<rparr>"
    using assms unfolding Import_body_def by (auto simp: run_iffs simp del: insert_leads.simps)
  note ll = insert_list_ok [OF a]
  obtain new where new: "tabs s2 = (tabs s1)\<lparr>leads := leads (tabs s1) @ new\<rparr>"
    "imported_leads lid (il_Rows inp) (leads (tabs s1)) new" "n = int (length (il_Rows inp))"
    using insert_leads_ok [OF b] by auto
  have "map (\<lambda>l. if ll_ID l = lid then l\<lparr>ll_RowCount := n\<rparr> else l) (lead_lists (tabs s)) = lead_lists (tabs s)"
    using ll by (auto intro!: map_idI)
  then have "tabs s' = (tabs s)\<lparr>leads := leads (tabs s) @ new, lead_lists := lead_lists (tabs s) @
      [(new_list (il_CampaignID inp) (il_Name inp) lid (db_now s))\<lparr>ll_RowCount := n\<rparr>]\<rparr>"
    using db_update_ok [OF c] new(1) ll by (auto simp: set_row_count_stmt_def new_list_def split: if_split_asm)
  then show ?thesis
    using ll new r by (intro conjI exI [of _ new] exI [of _ "db_now s"]) simp_all
qed

lemma Import_cases:
  assumes "Import inp s = (r, s')"
  shows "(isl r \<and> tabs s' = tabs s) \<or>
    (\<exists>x s0 s1. r = Inr x \<and> tabs s0 = tabs s \<and> Import_body inp s0 = (Inr x, s1) \<and> tabs s' = tabs s1)"
proof -
  from assms consider e where "Campaign_Get (il_CampaignID inp) s = (Inl e, s')" "r = Inl e"
    | c s1 where "Campaign_Get (il_CampaignID inp) s = (Inr c, s1)" "in_tx (Import_body inp) s1 = (r, s')"
    unfolding Import_def bindE_iff by blast
  then show ?thesis
  proof cases
    case 1
    then show ?thesis using Campaign_Get_tabs by simp
  next
    case (2 c s1)
    have t: "tabs s1 = tabs s" by (rule Campaign_Get_tabs [OF 2(1)])
    show ?thesis
    proof (cases r)
      case (Inl e)
      then show ?thesis using in_tx_err [of "Import_body inp" s1 e s'] 2(2) t by simp
    next
      case (Inr x)
      then obtain fs s2 where "Import_body inp (s1\<lparr>db_faults := fs\<rparr>) = (Inr x, s2)" "tabs s' = tabs s2"
        using in_tx_ok [of "Import_body inp" s1 x s'] 2(2) by auto
      then show ?thesis using Inr t by (intro disjI2 exI [of _ x] exI [of _ "s1\<lparr>db_faults := fs\<rparr>"] exI [of _ s2]) auto
    qed
  qed
qed

lemma picked_new: "l \<in> set (picked t cid) \<Longrightarrow> l \<in> set (leads t) \<and> l_Status l = LeadStatusNew \<and> lead_in_campaign t cid l"
  unfolding picked_def by (auto dest!: in_set_takeD)

lemma picked_length:
  "length (picked t cid) = min 1 (length (filter (\<lambda>l. lead_in_campaign t cid l \<and> l_Status l = LeadStatusNew) (leads t)))"
  by (simp add: picked_def min.commute)

lemma picked_empty: "picked t cid = [] \<longleftrightarrow> (\<forall>l \<in> set (leads t). lead_in_campaign t cid l \<longrightarrow> l_Status l \<noteq> LeadStatusNew)"
proof -
  have "picked t cid = [] \<longleftrightarrow> filter (\<lambda>l. lead_in_campaign t cid l \<and> l_Status l = LeadStatusNew) (leads t) = []"
    using picked_length [of t cid] by (metis One_nat_def length_0_conv min_0R min_def nat.distinct(1))
  then show ?thesis by (auto simp: filter_empty_conv)
qed


text \<open>The claim of a lead.\<close>

lemma claim_lead_sel [simp]:
  "l_ID (claim_lead a l) = l_ID l" "l_Status (claim_lead a l) = LeadStatusInProgress"
  "l_AssignedAgentID (claim_lead a l) = Some a" "l_ListID (claim_lead a l) = l_ListID l"
  by (simp_all add: claim_lead_def)

lemma ClaimNext_cases:
  assumes "ClaimNext cid aid s = (r, s')"
  shows "(isl r \<and> (tabs s' = tabs s \<or> (\<exists>rows. claim_lead_stmt cid aid (tabs s) = Inr (rows, tabs s') \<and> rows = []))) \<or>
    (\<exists>l rows c. r = Inr l \<and> claim_lead_stmt cid aid (tabs s) = Inr (l # rows, tabs s') \<and>
       c \<in> set (campaigns (tabs s)) \<and> cp_ID c = cid \<and> cp_Status c = CampaignStatusRunning \<and>
       assigned (tabs s) cid aid)"
proof -
  from assms consider
      (get) e where "Campaign_Get cid s = (Inl e, s')" "r = Inl e"
    | (state) c e where "Campaign_Get cid s = (Inr c, s')" "r = Inl e"
    | (asg) c s1 e x where "Campaign_Get cid s = (Inr c, s1)" "IsAgentAssigned cid aid s1 = (x, s')" "r = Inl e"
    | (claim) c s1 s2 r' where "Campaign_Get cid s = (Inr c, s1)" "cp_Status c = CampaignStatusRunning"
        "IsAgentAssigned cid aid s1 = (Inr True, s2)"
        "first_row (db_update (claim_lead_stmt cid aid)) s2 = (r', s')" "isl r = isl r'" "\<forall>l. r' = Inr l \<longrightarrow> r = Inr l"
    unfolding ClaimNext_def
    by (auto simp: bindE_iff tryE_iff split: if_split_asm)
  then show ?thesis
  proof cases
    case get
    then show ?thesis using Campaign_Get_tabs by auto
  next
    case state
    then show ?thesis using Campaign_Get_tabs by auto
  next
    case asg
    then show ?thesis
      using Campaign_Get_tabs [OF asg(1)] db_select_tabs by (fastforce simp: IsAgentAssigned_def)
  next
    case claim
    have t: "tabs s1 = tabs s" "c \<in> set (campaigns (tabs s))" "cp_ID c = cid"
      using Campaign_Get_ok [OF claim(1)] by simp_all
    have a: "assigned (tabs s) cid aid" "tabs s2 = tabs s"
      using db_select_ok [OF claim(3) [unfolded IsAgentAssigned_def]] t(1) by simp_all
    from claim(4) consider (fail) e where "db_update (claim_lead_stmt cid aid) s2 = (Inl e, s')" "isl r'"
      | (none) "db_update (claim_lead_stmt cid aid) s2 = (Inr [], s')" "isl r'"
      | (some) l ls where "db_update (claim_lead_stmt cid aid) s2 = (Inr (l # ls), s')" "r' = Inr l"
      unfolding first_row_iff by auto
    then show ?thesis
    proof cases
      case fail
      then show ?thesis using db_update_err [OF fail(1)] a(2) claim(5) by auto
    next
      case none
      then show ?thesis using db_update_ok [OF none(1)] a(2) claim(5) by auto
    next
      case (some l ls)
      then show ?thesis using db_update_ok [OF some(1)] a t(2, 3) claim(2, 6) by auto
    qed
  qed
qed

lemma claim_lead_stmt_none:
  assumes "claim_lead_stmt cid aid t = Inr ([], t')"
  shows "t' = t"
proof -
  have "picked t cid = []"
  proof (rule ccontr)
    assume "picked t cid \<noteq> []"
    then obtain l where "l \<in> set (picked t cid)" by (cases "picked t cid") auto
    then have "l \<in> set (filter (\<lambda>l. l_ID l \<in> set (map l_ID (picked t cid))) (leads t))"
      using picked_new by auto
    with assms show False
      by (auto simp: claim_lead_stmt_def Let_def filter_empty_conv split: if_split_asm)
  qed
  with assms show ?thesis
    by (auto simp: claim_lead_stmt_def Let_def split: if_split_asm)
qed

lemma claim_lead_stmt_some:
  assumes "claim_lead_stmt cid aid t = Inr (l # rows, t')" and "distinct (map l_ID (leads t))"
  shows "\<exists>l0 \<in> set (leads t). l_Status l0 = LeadStatusNew \<and> lead_in_campaign t cid l0 \<and> l = claim_lead aid l0 \<and>
    (\<forall>l1 \<in> set (leads t). lead_in_campaign t cid l1 \<and> l_Status l1 = LeadStatusNew \<longrightarrow> l_ID l0 \<le> l_ID l1) \<and>
    t' = t\<lparr>leads := map (\<lambda>x. if l_ID x = l_ID l0 then claim_lead aid x else x) (leads t)\<rparr>"
proof -
  let ?new = "filter (\<lambda>l. lead_in_campaign t cid l \<and> l_Status l = LeadStatusNew) (leads t)"
  have ne: "picked t cid \<noteq> []"
    using assms(1) by (auto simp: claim_lead_stmt_def Let_def split: if_split_asm)
  then obtain l0 where l0: "picked t cid = [l0]"
    using picked_length [of t cid] by (cases "picked t cid") (auto simp: min_def split: if_split_asm)
  then have mem: "l0 \<in> set (leads t)" "l_Status l0 = LeadStatusNew" "lead_in_campaign t cid l0"
    using picked_new [of l0 t cid] by auto
  obtain ys where srt: "sort_key l_ID ?new = l0 # ys"
    using l0 unfolding picked_def by (cases "sort_key l_ID ?new") auto
  have "sorted (map l_ID (l0 # ys))" using sorted_sort_key [of l_ID ?new] unfolding srt .
  moreover have "set ?new = set (l0 # ys)" using set_sort [of l_ID ?new] unfolding srt by simp
  ultimately have least: "\<forall>l1 \<in> set ?new. l_ID l0 \<le> l_ID l1" by auto
  have "l # rows = map (claim_lead aid) (filter (\<lambda>x. l_ID x = l_ID l0) (leads t))"
    and t': "t' = t\<lparr>leads := map (\<lambda>x. if l_ID x = l_ID l0 then claim_lead aid x else x) (leads t)\<rparr>"
    using assms(1) l0 by (auto simp: claim_lead_stmt_def Let_def split: if_split_asm)
  then have "l \<in> set (map (claim_lead aid) (filter (\<lambda>x. l_ID x = l_ID l0) (leads t)))"
    by (metis list.set_intros(1))
  then obtain x where "x \<in> set (leads t)" "l_ID x = l_ID l0" "l = claim_lead aid x" by auto
  moreover from this mem(1) assms(2) have "x = l0"
    by (auto simp: distinct_map inj_on_def)
  ultimately show ?thesis using mem least t' by (intro bexI [of _ l0]) auto
qed


lemma ClaimNext_Inl: "ClaimNext cid aid s = (Inl e, s') \<Longrightarrow> tabs s' = tabs s"
  by (drule ClaimNext_cases) (auto dest: claim_lead_stmt_none)

text \<open>The disposition of a call.\<close>

lemma Disposition_Get_ok:
  "Disposition_Get i s = (Inr d, s') \<Longrightarrow> d \<in> set (dispositions (tabs s)) \<and> dp_ID d = i \<and> tabs s' = tabs s"
  unfolding Disposition_Get_def or_not_found_ok by (rule query_row_filter)

lemma Disposition_Get_tabs: "Disposition_Get i s = (r, s') \<Longrightarrow> tabs s' = tabs s"
  unfolding Disposition_Get_def by (erule or_not_found_tabs) (rule query_row_tabs)

lemma lookup_lead_ok:
  assumes "lookup_lead lid cid s = (Inr x, s')"
  shows "tabs s' = tabs s \<and> (\<exists>l \<in> set (leads (tabs s)). l_ID l = lid \<and> lead_in_campaign (tabs s) cid l \<and>
    x = (l_Status l, l_AssignedAgentID l))"
  using query_row_map_filter [OF assms [unfolded lookup_lead_def]] by auto

definition dispose_lead :: "uuid \<Rightarrow> LeadStatus \<Rightarrow> uuid \<Rightarrow> Lead \<Rightarrow> Lead" where
  "dispose_lead lid st did l = (if l_ID l = lid then l\<lparr>l_Status := st, l_DispositionID := Some did\<rparr> else l)"

lemma RecordDisposition_ok:
  assumes "RecordDisposition inp s = (Inr c, s')"
  shows "\<exists>d l. d \<in> set (dispositions (tabs s)) \<and> dp_ID d = rd_DispositionID inp \<and>
    dp_CampaignID d = Some (rd_CampaignID inp) \<and>
    l \<in> set (leads (tabs s)) \<and> l_ID l = rd_LeadID inp \<and> lead_in_campaign (tabs s) (rd_CampaignID inp) l \<and>
    l_AssignedAgentID l = Some (rd_AgentID inp) \<and>
    cl_AgentID c = rd_AgentID inp \<and> cl_LeadID c = Some (rd_LeadID inp) \<and> cl_CampaignID c = rd_CampaignID inp \<and>
    cl_DispositionID c = Some (rd_DispositionID inp) \<and> cl_ToNumber c = rd_ToNumber inp \<and>
    tabs s' = (tabs s)
      \<lparr>leads := map (dispose_lead (rd_LeadID inp) (leadStatusFromDisposition d) (rd_DispositionID inp)) (leads (tabs s)),
       call_logs := call_logs (tabs s) @ [c]\<rparr>"
proof -
  obtain d s1 where d: "Disposition_Get (rd_DispositionID inp) s = (Inr d, s1)"
    and dc: "dp_CampaignID d = Some (rd_CampaignID inp)"
    and tx: "in_tx (RecordDisposition_body inp d) s1 = (Inr c, s')"
    using assms unfolding RecordDisposition_def by (auto simp: bindE_Inr_iff split: if_split_asm)
  obtain fs s2 where b: "RecordDisposition_body inp d (s1\<lparr>db_faults := fs\<rparr>) = (Inr c, s2)" "tabs s' = tabs s2"
    using in_tx_ok [OF tx] by blast
  obtain st s3 s4 where l: "lookup_lead (rd_LeadID inp) (rd_CampaignID inp) (s1\<lparr>db_faults := fs\<rparr>) = (Inr (st, Some (rd_AgentID inp)), s3)"
    and u: "db_update (dispose_lead_stmt (rd_LeadID inp) (leadStatusFromDisposition d) (rd_DispositionID inp)) s3 = (Inr (), s4)"
    and i: "db_insert (insert_call_stmt inp) s4 = (Inr c, s2)"
    using b(1) unfolding RecordDisposition_body_def
    by (auto simp: run_iffs split: if_split_asm prod.split_asm)
  have t3: "tabs s3 = tabs s"
    using lookup_lead_ok [OF l] Disposition_Get_ok [OF d] by simp
  have t4: "tabs s4 = (tabs s)\<lparr>leads := map (dispose_lead (rd_LeadID inp) (leadStatusFromDisposition d) (rd_DispositionID inp)) (leads (tabs s))\<rparr>"
    using db_update_ok [OF u] t3 by (auto simp: dispose_lead_stmt_def dispose_lead_def [abs_def] split: if_split_asm)
  obtain l0 where "l0 \<in> set (leads (tabs s))" "l_ID l0 = rd_LeadID inp"
    "lead_in_campaign (tabs s) (rd_CampaignID inp) l0" "l_AssignedAgentID l0 = Some (rd_AgentID inp)"
    using lookup_lead_ok [OF l] Disposition_Get_ok [OF d] by auto
  moreover have "cl_AgentID c = rd_AgentID inp \<and> cl_LeadID c = Some (rd_LeadID inp) \<and>
      cl_CampaignID c = rd_CampaignID inp \<and> cl_DispositionID c = Some (rd_DispositionID inp) \<and>
      cl_ToNumber c = rd_ToNumber inp \<and> tabs s2 = (tabs s4)\<lparr>call_logs := call_logs (tabs s4) @ [c]\<rparr>"
    using db_insert_ok [OF i] by (auto simp: insert_call_stmt_def Let_def split: if_split_asm)
  ultimately show ?thesis
    using Disposition_Get_ok [OF d] dc b(2) t4 by (intro exI [of _ d] exI [of _ l0]) simp
qed

lemma RecordDisposition_err: "RecordDisposition inp s = (Inl e, s') \<Longrightarrow> tabs s' = tabs s"
  unfolding RecordDisposition_def
  by (auto simp: bindE_iff split: if_split_asm dest!: Disposition_Get_tabs in_tx_err)

lemma leadStatus_not_New: "leadStatusFromDisposition d \<noteq> LeadStatusNew"
  by (simp add: leadStatusFromDisposition_def)

section \<open>Leads over time\<close>

datatype lead_op =
    OpImport ImportLeadsInput
  | OpClaim uuid uuid
  | OpDispose RecordDispositionInput

text \<open>One operation, with the list of the leads handed out so far.\<close>

definition run_lead_op :: "lead_op \<Rightarrow> dbst \<times> uuid list \<Rightarrow> dbst \<times> uuid list" where
  "run_lead_op op = (\<lambda>(s, given).
     case op of
       OpImport inp \<Rightarrow> (snd (Import inp s), given)
     | OpClaim cid aid \<Rightarrow>
         (case ClaimNext cid aid s of
            (Inl _, s') \<Rightarrow> (s', given)
          | (Inr l, s') \<Rightarrow> (s', l_ID l # given))
     | OpDispose inp \<Rightarrow> (snd (RecordDisposition inp s), given))"

definition given_inv :: "dbst \<times> uuid list \<Rightarrow> bool" where
  "given_inv x \<longleftrightarrow>
     (let t = tabs (fst x); given = snd x in
      distinct (map l_ID (leads t)) \<and> distinct given \<and> set given \<subseteq> l_ID ` set (leads t) \<and>
      (\<forall>l \<in> set (leads t). l_ID l \<in> set given \<longrightarrow> l_Status l \<noteq> LeadStatusNew))"

lemma given_inv_import:
  assumes "given_inv (s, given)"
  shows "given_inv (snd (Import inp s), given)"
proof -
  let ?s' = "snd (Import inp s)"
  from Import_cases [OF surjective_pairing [of "Import inp s"]] show ?thesis
  proof (elim disjE exE conjE)
    fix x s0 s1
    assume "tabs s0 = tabs s" "Import_body inp s0 = (Inr x, s1)" "tabs ?s' = tabs s1"
    then obtain new where "leads (tabs ?s') = leads (tabs s) @ new" "imported_leads (res_ListID x) (il_Rows inp) (leads (tabs s)) new"
      using Import_body_ok [of inp s0 x s1] by auto
    then show ?thesis
      using assms by (auto simp: given_inv_def Let_def imported_leads_def)
  qed (use assms in \<open>simp add: given_inv_def\<close>)
qed

lemma given_inv_claim:
  assumes "given_inv (s, given)"
  shows "given_inv (run_lead_op (OpClaim cid aid) (s, given))"
proof -
  obtain r s' where c: "ClaimNext cid aid s = (r, s')" by (cases "ClaimNext cid aid s")
  show ?thesis
  proof (cases r)
    case (Inl e)
    then show ?thesis using assms c ClaimNext_Inl [of cid aid s e s'] by (simp add: run_lead_op_def given_inv_def)
  next
    case (Inr l)
    obtain rows where q: "claim_lead_stmt cid aid (tabs s) = Inr (l # rows, tabs s')"
      using ClaimNext_cases [OF c] Inr by auto
    have "distinct (map l_ID (leads (tabs s)))" using assms by (simp add: given_inv_def Let_def)
    then obtain l0 where l0: "l0 \<in> set (leads (tabs s))" "l_Status l0 = LeadStatusNew" "l = claim_lead aid l0"
      "tabs s' = (tabs s)\<lparr>leads := map (\<lambda>x. if l_ID x = l_ID l0 then claim_lead aid x else x) (leads (tabs s))\<rparr>"
      using claim_lead_stmt_some [OF q] by auto
    have ids: "map l_ID (leads (tabs s')) = map l_ID (leads (tabs s))" using l0(4) by simp
    then have ids': "l_ID ` set (leads (tabs s')) = l_ID ` set (leads (tabs s))" by (metis list.set_map)
    have "given_inv (s', l_ID l0 # given)"
      unfolding given_inv_def Let_def fst_conv snd_conv ids ids'
      using assms l0 by (auto simp: given_inv_def Let_def)
    then show ?thesis using c Inr l0(3) by (simp add: run_lead_op_def)
  qed
qed

lemma given_inv_dispose:
  assumes "given_inv (s, given)"
  shows "given_inv (snd (RecordDisposition inp s), given)"
proof -
  obtain r s' where c: "RecordDisposition inp s = (r, s')" by (cases "RecordDisposition inp s")
  show ?thesis
  proof (cases r)
    case (Inl e)
    then show ?thesis using assms c RecordDisposition_err [of inp s e s'] by (simp add: given_inv_def)
  next
    case (Inr x)
    obtain d where "tabs s' = (tabs s)
        \<lparr>leads := map (dispose_lead (rd_LeadID inp) (leadStatusFromDisposition d) (rd_DispositionID inp)) (leads (tabs s)),
         call_logs := call_logs (tabs s) @ [x]\<rparr>"
      using RecordDisposition_ok [OF c [unfolded Inr]] by blast
    then have t: "leads (tabs s') = map (dispose_lead (rd_LeadID inp) (leadStatusFromDisposition d) (rd_DispositionID inp)) (leads (tabs s))"
      by simp
    have ids: "map l_ID (leads (tabs s')) = map l_ID (leads (tabs s))" by (simp add: t dispose_lead_def)
    then have ids': "l_ID ` set (leads (tabs s')) = l_ID ` set (leads (tabs s))" by (metis list.set_map)
    have "given_inv (s', given)"
      unfolding given_inv_def Let_def fst_conv snd_conv ids ids'
      using assms leadStatus_not_New by (auto simp: given_inv_def Let_def t dispose_lead_def)
    then show ?thesis using c by simp
  qed
qed

lemma given_inv_step: "given_inv x \<Longrightarrow> given_inv (run_lead_op op x)"
  by (cases x; cases op)
     (simp_all add: given_inv_claim, simp_all add: run_lead_op_def given_inv_import given_inv_dispose)

interpretation lead_ops: invariant_ops run_lead_op given_inv
  by unfold_locales (rule given_inv_step)

section \<open>Properties\<close>

text \<open>
  C8. Over any sequence of imports, claims and dispositions, whichever of them fail, no lead is
  ever handed out twice.
\<close>

theorem lead_claimed_once:
  assumes "distinct (map l_ID (leads (tabs s)))"
  shows "distinct (snd (fold run_lead_op ops (s, [])))"
proof -
  have "given_inv (s, [])" using assms by (simp add: given_inv_def Let_def)
  then have "given_inv (fold run_lead_op ops (s, []))" by (rule lead_ops.run_inv)
  then show ?thesis by (simp add: given_inv_def Let_def)
qed

definition lead_db :: dbst where
  "lead_db =
     (let s = campaign_db CampaignStatusRunning
      in s\<lparr>tabs := (tabs s)\<lparr>users := [sample_agent], campaign_agents := [\<lparr>ca_CampaignID = 7, ca_UserID = 3\<rparr>]\<rparr>\<rparr>)"

definition sample_import :: ImportLeadsInput where
  "sample_import = \<lparr>il_CampaignID = 7, il_Name = ''l'', il_Rows =
     [\<lparr>ir_Phone = ''+33611111111'', ir_Payload = []\<rparr>, \<lparr>ir_Phone = ''+33622222222'', ir_Payload = []\<rparr>]\<rparr>"

theorem lead_claimed_once_witness:
  "distinct (snd (fold run_lead_op [OpImport sample_import, OpClaim 7 3, OpClaim 7 3, OpClaim 7 3] (lead_db, []))) \<and>
   length (snd (fold run_lead_op [OpImport sample_import, OpClaim 7 3, OpClaim 7 3, OpClaim 7 3] (lead_db, []))) = 2"
proof -
  have "distinct (map l_ID (leads (tabs lead_db)))"
    by (simp add: lead_db_def campaign_db_def db_of_def empty_tables_def Let_def)
  moreover have "length (snd (fold run_lead_op [OpImport sample_import, OpClaim 7 3, OpClaim 7 3, OpClaim 7 3] (lead_db, []))) = 2"
    by code_simp
  ultimately show ?thesis using lead_claimed_once by blast
qed


text \<open>
  A claim that succeeds hands out the new lead of least id of a running campaign to an agent
  assigned to it, and marks exactly that lead as in progress and the agent's; a claim that fails
  changes nothing.
\<close>

theorem claim_next:
  assumes "distinct (map l_ID (leads (tabs s)))" and "ClaimNext cid aid s = (r, s')"
  shows "case r of
      Inl _ \<Rightarrow> tabs s' = tabs s
    | Inr l \<Rightarrow> assigned (tabs s) cid aid \<and>
        (\<exists>c \<in> set (campaigns (tabs s)). cp_ID c = cid \<and> cp_Status c = CampaignStatusRunning) \<and>
        (\<exists>l0 \<in> set (leads (tabs s)). l_Status l0 = LeadStatusNew \<and> lead_in_campaign (tabs s) cid l0 \<and>
           l = l0\<lparr>l_Status := LeadStatusInProgress, l_AssignedAgentID := Some aid\<rparr> \<and>
           (\<forall>l1 \<in> set (leads (tabs s)). lead_in_campaign (tabs s) cid l1 \<and> l_Status l1 = LeadStatusNew \<longrightarrow>
              l_ID l0 \<le> l_ID l1) \<and>
           tabs s' = (tabs s)\<lparr>leads := map (\<lambda>x. if x = l0 then l else x) (leads (tabs s))\<rparr>)"
proof (cases r)
  case (Inl e)
  then show ?thesis using ClaimNext_Inl assms(2) by simp
next
  case (Inr l)
  obtain rows where q: "claim_lead_stmt cid aid (tabs s) = Inr (l # rows, tabs s')" and
    c: "\<exists>c \<in> set (campaigns (tabs s)). cp_ID c = cid \<and> cp_Status c = CampaignStatusRunning" "assigned (tabs s) cid aid"
    using ClaimNext_cases [OF assms(2)] Inr by auto
  obtain l0 where l0: "l0 \<in> set (leads (tabs s))" "l_Status l0 = LeadStatusNew" "lead_in_campaign (tabs s) cid l0"
    "l = claim_lead aid l0"
    "\<forall>l1 \<in> set (leads (tabs s)). lead_in_campaign (tabs s) cid l1 \<and> l_Status l1 = LeadStatusNew \<longrightarrow> l_ID l0 \<le> l_ID l1"
    "tabs s' = (tabs s)\<lparr>leads := map (\<lambda>x. if l_ID x = l_ID l0 then claim_lead aid x else x) (leads (tabs s))\<rparr>"
    using claim_lead_stmt_some [OF q assms(1)] by blast
  have same: "l_ID x = l_ID l0 \<longleftrightarrow> x = l0" if "x \<in> set (leads (tabs s))" for x
    using assms(1) l0(1) that by (auto simp: distinct_map dest: inj_onD)
  have "map (\<lambda>x. if l_ID x = l_ID l0 then claim_lead aid x else x) (leads (tabs s)) =
      map (\<lambda>x. if x = l0 then l else x) (leads (tabs s))"
    by (rule map_cong) (simp_all add: same l0(4))
  then have t: "tabs s' = (tabs s)\<lparr>leads := map (\<lambda>x. if x = l0 then l else x) (leads (tabs s))\<rparr>"
    using l0(6) by simp
  show ?thesis
    unfolding Inr sum.case
    by (intro conjI c bexI [of _ l0] l0(1, 2, 3, 5) l0(4) [unfolded claim_lead_def] t)
qed

definition one_lead_db :: dbst where
  "one_lead_db = snd (Import sample_import lead_db)"

theorem claim_next_witness:
  "\<exists>l s'. ClaimNext 7 3 one_lead_db = (Inr l, s') \<and> assigned (tabs one_lead_db) 7 3 \<and> l_Status l = LeadStatusInProgress"
proof -
  have d: "distinct (map l_ID (leads (tabs one_lead_db)))" and ok: "\<not> isl (fst (ClaimNext 7 3 one_lead_db))"
    by code_simp+
  then obtain l where l: "ClaimNext 7 3 one_lead_db = (Inr l, snd (ClaimNext 7 3 one_lead_db))"
    by (cases "ClaimNext 7 3 one_lead_db"; cases "fst (ClaimNext 7 3 one_lead_db)") auto
  with claim_next [OF d l] show ?thesis
    by (intro exI [of _ l] exI [of _ "snd (ClaimNext 7 3 one_lead_db)"]) auto
qed

text \<open>
  Recording a disposition succeeds only for a lead of the campaign assigned to the agent and
  a disposition of that campaign; it sets the status that belongs to the disposition and adds
  one call log, and a call that fails at any point does neither.
\<close>

theorem record_disposition:
  assumes "RecordDisposition inp s = (r, s')"
  shows "case r of
      Inl _ \<Rightarrow> tabs s' = tabs s
    | Inr c \<Rightarrow> \<exists>d \<in> set (dispositions (tabs s)). \<exists>l \<in> set (leads (tabs s)).
        dp_ID d = rd_DispositionID inp \<and> dp_CampaignID d = Some (rd_CampaignID inp) \<and>
        l_ID l = rd_LeadID inp \<and> lead_in_campaign (tabs s) (rd_CampaignID inp) l \<and>
        l_AssignedAgentID l = Some (rd_AgentID inp) \<and>
        cl_AgentID c = rd_AgentID inp \<and> cl_LeadID c = Some (rd_LeadID inp) \<and> cl_ToNumber c = rd_ToNumber inp \<and>
        tabs s' = (tabs s)
          \<lparr>leads := map (\<lambda>l. if l_ID l = rd_LeadID inp
                             then l\<lparr>l_Status := leadStatusFromDisposition d, l_DispositionID := Some (rd_DispositionID inp)\<rparr>
                             else l) (leads (tabs s)),
           call_logs := call_logs (tabs s) @ [c]\<rparr>"
proof (cases r)
  case (Inl e)
  then show ?thesis using RecordDisposition_err assms by simp
next
  case (Inr c)
  show ?thesis
    using RecordDisposition_ok [OF assms [unfolded Inr]] unfolding Inr sum.case dispose_lead_def [abs_def] by blast
qed

definition claimed_db :: dbst where
  "claimed_db =
     (let s = snd (ClaimNext 7 3 one_lead_db)
      in s\<lparr>tabs := (tabs s)\<lparr>dispositions := [\<lparr>dp_ID = 9, dp_Code = ''BUSY'', dp_Label = ''b'', dp_CampaignID = Some 7,
            dp_IsContact = False, dp_IsSuccess = False\<rparr>]\<rparr>\<rparr>)"

definition sample_record :: RecordDispositionInput where
  "sample_record =
     \<lparr>rd_CampaignID = 7, rd_LeadID = l_ID (hd (leads (tabs claimed_db))), rd_AgentID = 3, rd_DispositionID = 9,
      rd_ToNumber = ''+33611111111'', rd_StartedAt = 0, rd_EndedAt = None, rd_DurationSec = Some 5\<rparr>"

theorem record_disposition_witness:
  "\<exists>c s'. RecordDisposition sample_record claimed_db = (Inr c, s') \<and> call_logs (tabs s') = [c]"
proof -
  let ?m = "RecordDisposition sample_record claimed_db"
  have ok: "\<not> isl (fst ?m)" and e: "call_logs (tabs claimed_db) = []"
    by code_simp+
  then obtain c where c: "?m = (Inr c, snd ?m)"
    by (cases ?m; cases "fst ?m") auto
  with record_disposition [OF c] e show ?thesis
    by (intro exI [of _ c] exI [of _ "snd ?m"]) auto
qed

text \<open>
  An import that succeeds adds one list, with the number of its rows, and one new,
  unassigned lead per row, in order and under fresh ids; an import that fails adds nothing.
\<close>

theorem import_leads:
  assumes "Import inp s = (r, s')"
  shows "case r of
      Inl _ \<Rightarrow> tabs s' = tabs s
    | Inr x \<Rightarrow> res_Imported x = int (length (il_Rows inp)) \<and>
        (\<exists>ll new. lead_lists (tabs s') = lead_lists (tabs s) @ [ll] \<and> leads (tabs s') = leads (tabs s) @ new \<and>
           ll_ID ll = res_ListID x \<and> ll_CampaignID ll = il_CampaignID inp \<and> ll_RowCount ll = res_Imported x \<and>
           map l_Phone new = map ir_Phone (il_Rows inp) \<and>
           (\<forall>l \<in> set new. l_ListID l = res_ListID x \<and> l_Status l = LeadStatusNew \<and> l_AssignedAgentID l = None) \<and>
           distinct (map l_ID new) \<and> l_ID ` set new \<inter> l_ID ` set (leads (tabs s)) = {})"
  using Import_cases [OF assms]
proof (elim disjE exE conjE)
  fix x s0 s1
  assume r: "r = Inr x" and s: "tabs s0 = tabs s" "Import_body inp s0 = (Inr x, s1)" "tabs s' = tabs s1"
  obtain new now where new: "leads (tabs s') = leads (tabs s) @ new"
    "lead_lists (tabs s') = lead_lists (tabs s) @ [(new_list (il_CampaignID inp) (il_Name inp) (res_ListID x) now)\<lparr>ll_RowCount := res_Imported x\<rparr>]"
    "imported_leads (res_ListID x) (il_Rows inp) (leads (tabs s)) new" "res_Imported x = int (length (il_Rows inp))"
    using Import_body_ok [OF s(2)] s(1, 3) by auto
  have "map l_Phone new = map fst (map (\<lambda>l. (l_Phone l, l_Payload l)) new)" by simp
  also have "\<dots> = map ir_Phone (il_Rows inp)"
    using new(3) unfolding imported_leads_def by (simp only:) simp
  finally show ?thesis
    using new unfolding r sum.case
    by (intro conjI exI [of _ new] exI [of _ "(new_list (il_CampaignID inp) (il_Name inp) (res_ListID x) now)\<lparr>ll_RowCount := res_Imported x\<rparr>"])
       (auto simp: imported_leads_def new_list_def)
qed (cases r, simp_all)

theorem import_leads_witness:
  "\<exists>x s'. Import sample_import lead_db = (Inr x, s') \<and> res_Imported x = 2 \<and> map l_Phone (leads (tabs s')) = [''+33611111111'', ''+33622222222'']"
proof -
  let ?m = "Import sample_import lead_db"
  have ok: "\<not> isl (fst ?m)" and e: "leads (tabs lead_db) = []"
    and r: "map ir_Phone (il_Rows sample_import) = [''+33611111111'', ''+33622222222'']" "length (il_Rows sample_import) = 2"
    by code_simp+
  then obtain x where x: "?m = (Inr x, snd ?m)"
    by (cases ?m; cases "fst ?m") auto
  with import_leads [OF x] e r show ?thesis
    by (intro exI [of _ x] exI [of _ "snd ?m"]) auto
qed

end
