(* ===== verification/Store_Reports.thy ===== *)
theory Store_Reports
  imports Store_Leads Complex_Main "HOL-Library.Multiset"
begin

text \<open>
  \<open>services/api/internal/store/reports.go\<close>: the summary of the call logs a filter selects and
  their export. The \<open>WHERE\<close> clause is the list of its conditions with numbered arguments, as the
  code builds it. A quotient of type \<open>float64\<close> is taken exactly, as a rational number.
\<close>

definition MaxReportExportRows :: int where
  "MaxReportExportRows = 50000"

record ReportFilters =
  rf_From :: "time option"
  rf_To :: "time option"
  rf_CampaignID :: "uuid option"
  rf_AgentID :: "uuid option"

record DispositionCount =
  dc_Code :: string
  dc_Label :: string
  dc_Count :: int

record ReportSummary =
  rs_Calls :: int
  rs_TotalDurationSec :: int
  rs_AvgDurationSec :: rat
  rs_ByDisposition :: "DispositionCount list"
  rs_ContactRate :: "rat option"
  rs_SuccessRate :: "rat option"

record ReportExportRow =
  re_StartedAt :: time
  re_EndedAt :: "time option"
  re_DurationSec :: "int option"
  re_CampaignID :: uuid
  re_AgentID :: uuid
  re_ToNumber :: string
  re_DispositionCode :: "string option"
  re_LeadID :: "uuid option"

section \<open>The filter\<close>

text \<open>\<open>1=1\<close> and the conditions on columns, each with the number of its argument.\<close>

datatype sql_cond = CondTrue | StartedFrom nat | StartedBefore nat | CampaignIs nat | AgentIs nat

datatype sql_arg = ArgTime time | ArgUuid uuid

definition add_cond :: "(nat \<Rightarrow> sql_cond) \<Rightarrow> sql_arg option \<Rightarrow>
    sql_cond list \<times> sql_arg list \<times> nat \<Rightarrow> sql_cond list \<times> sql_arg list \<times> nat" where
  "add_cond c a = (\<lambda>(parts, args, argN).
     case a of None \<Rightarrow> (parts, args, argN) | Some x \<Rightarrow> (parts @ [c argN], args @ [x], argN + 1))"

definition reportWhereClause :: "ReportFilters \<Rightarrow> sql_cond list \<times> sql_arg list" where
  "reportWhereClause f =
     (let acc = ([CondTrue], [], 1);
          acc = add_cond StartedFrom (map_option ArgTime (rf_From f)) acc;
          acc = add_cond StartedBefore (map_option ArgTime (rf_To f)) acc;
          acc = add_cond CampaignIs (map_option ArgUuid (rf_CampaignID f)) acc;
          (parts, args, _) = add_cond AgentIs (map_option ArgUuid (rf_AgentID f)) acc
      in (parts, args))"

text \<open>How the server reads a condition: a placeholder \<open>$n\<close> is the \<open>n\<close>-th argument.\<close>

definition placeholder :: "sql_arg list \<Rightarrow> nat \<Rightarrow> sql_arg option" where
  "placeholder args n = (if 1 \<le> n \<and> n \<le> length args then Some (args ! (n - 1)) else None)"

definition eval_cond :: "sql_arg list \<Rightarrow> CallLog \<Rightarrow> sql_cond \<Rightarrow> bool" where
  "eval_cond args cl c =
     (case c of
        CondTrue \<Rightarrow> True
      | StartedFrom n \<Rightarrow> (case placeholder args n of Some (ArgTime t) \<Rightarrow> cl_StartedAt cl \<ge> pg_time t | _ \<Rightarrow> False)
      | StartedBefore n \<Rightarrow> (case placeholder args n of Some (ArgTime t) \<Rightarrow> cl_StartedAt cl < pg_time t | _ \<Rightarrow> False)
      | CampaignIs n \<Rightarrow> (case placeholder args n of Some (ArgUuid u) \<Rightarrow> cl_CampaignID cl = u | _ \<Rightarrow> False)
      | AgentIs n \<Rightarrow> (case placeholder args n of Some (ArgUuid u) \<Rightarrow> cl_AgentID cl = u | _ \<Rightarrow> False))"

definition eval_where :: "sql_cond list \<times> sql_arg list \<Rightarrow> CallLog \<Rightarrow> bool" where
  "eval_where w cl = list_all (eval_cond (snd w) cl) (fst w)"

definition selected :: "ReportFilters \<Rightarrow> tables \<Rightarrow> CallLog list" where
  "selected f t = filter (eval_where (reportWhereClause f)) (call_logs t)"

section \<open>Queries\<close>

text \<open>\<open>LEFT JOIN dispositions d ON d.id = cl.disposition_id\<close>\<close>

definition join_disposition :: "tables \<Rightarrow> CallLog \<Rightarrow> Disposition option" where
  "join_disposition t cl =
     (case cl_DispositionID cl of None \<Rightarrow> None | Some i \<Rightarrow> List.find (\<lambda>d. dp_ID d = i) (dispositions t))"

definition group_key :: "tables \<Rightarrow> CallLog \<Rightarrow> (string \<times> string) option" where
  "group_key t cl = map_option (\<lambda>d. (dp_Code d, dp_Label d)) (join_disposition t cl)"

definition group_count :: "(string \<times> string) option list \<Rightarrow> (string \<times> string) option \<Rightarrow> DispositionCount" where
  "group_count ks k =
     \<lparr>dc_Code = (case k of None \<Rightarrow> [] | Some (c, _) \<Rightarrow> c),
      dc_Label = (case k of None \<Rightarrow> [] | Some (_, l) \<Rightarrow> l),
      dc_Count = int (count_list ks k)\<rparr>"

text \<open>\<open>ORDER BY COUNT(*) DESC, d.code ASC\<close>: codes by their bytes, no code last.\<close>

definition group_before :: "(string \<times> string) option \<times> int \<Rightarrow> (string \<times> string) option \<times> int \<Rightarrow> bool" where
  "group_before a b \<longleftrightarrow> snd a > snd b \<or>
     snd a = snd b \<and> (case (fst a, fst b) of
        (_, None) \<Rightarrow> True | (None, Some _) \<Rightarrow> False | (Some (c, _), Some (d, _)) \<Rightarrow> bytes_le c d)"

fun insert_group :: "(string \<times> string) option \<times> int \<Rightarrow> ((string \<times> string) option \<times> int) list \<Rightarrow>
    ((string \<times> string) option \<times> int) list" where
  "insert_group g [] = [g]"
| "insert_group g (h # hs) = (if group_before g h then g # h # hs else h # insert_group g hs)"

definition group_query :: "ReportFilters \<Rightarrow> tables \<Rightarrow> DispositionCount list" where
  "group_query f t =
     (let ks = map (group_key t) (selected f t);
          gs = map (\<lambda>k. (k, int (count_list ks k))) (remdups ks)
      in map (\<lambda>g. group_count ks (fst g)) (foldr insert_group gs []))"

definition duration_sum :: "CallLog list \<Rightarrow> int" where
  "duration_sum cls = sum_list (map (\<lambda>cl. case cl_DurationSec cl of None \<Rightarrow> 0 | Some n \<Rightarrow> n) cls)"

definition count_where :: "(Disposition \<Rightarrow> bool) \<Rightarrow> ReportFilters \<Rightarrow> tables \<Rightarrow> int" where
  "count_where P f t =
     int (length (filter (\<lambda>cl. case join_disposition t cl of None \<Rightarrow> False | Some d \<Rightarrow> P d) (selected f t)))"

definition make_summary :: "int \<Rightarrow> int \<Rightarrow> DispositionCount list \<Rightarrow> (int \<times> int) option \<Rightarrow> ReportSummary" where
  "make_summary calls dur groups rates =
     \<lparr>rs_Calls = calls, rs_TotalDurationSec = dur,
      rs_AvgDurationSec = (if calls > 0 then of_int dur / of_int calls else 0),
      rs_ByDisposition = groups,
      rs_ContactRate = map_option (\<lambda>(contact, _). of_int contact / of_int calls) rates,
      rs_SuccessRate = map_option (\<lambda>(_, success). of_int success / of_int calls) rates\<rparr>"

definition Summary :: "ReportFilters \<Rightarrow> ReportSummary sql" where
  "Summary f =
     bindE (wrapE ''summary counts'' (db_select (\<lambda>t _. (int (length (selected f t)), duration_sum (selected f t)))))
       (\<lambda>(calls, dur).
     bindE (wrapE ''summary dispositions'' (db_select (\<lambda>t _. group_query f t))) (\<lambda>groups.
     if calls > 0 then
       bindE (wrapE ''summary rates''
         (db_select (\<lambda>t _. (count_where dp_IsContact f t, count_where dp_IsSuccess f t)))) (\<lambda>rates.
       retE (make_summary calls dur groups (Some rates)))
     else retE (make_summary calls dur groups None)))"

definition ExportCount :: "ReportFilters \<Rightarrow> int sql" where
  "ExportCount f = db_select (\<lambda>t _. int (length (selected f t)))"

definition export_row :: "tables \<Rightarrow> CallLog \<Rightarrow> ReportExportRow" where
  "export_row t cl =
     \<lparr>re_StartedAt = cl_StartedAt cl, re_EndedAt = cl_EndedAt cl, re_DurationSec = cl_DurationSec cl,
      re_CampaignID = cl_CampaignID cl, re_AgentID = cl_AgentID cl, re_ToNumber = cl_ToNumber cl,
      re_DispositionCode = map_option dp_Code (join_disposition t cl), re_LeadID = cl_LeadID cl\<rparr>"

definition ExportRows :: "ReportFilters \<Rightarrow> ReportExportRow list sql" where
  "ExportRows f =
     bindE (ExportCount f) (\<lambda>count.
     if count > MaxReportExportRows then failE ErrExportTooLarge
     else db_select (\<lambda>t _. map (export_row t) (sort_key cl_StartedAt (selected f t))))"

section \<open>Lemmas\<close>

definition report_match :: "ReportFilters \<Rightarrow> CallLog \<Rightarrow> bool" where
  "report_match f cl \<longleftrightarrow>
     (\<forall>t. rf_From f = Some t \<longrightarrow> pg_time t \<le> cl_StartedAt cl) \<and>
     (\<forall>t. rf_To f = Some t \<longrightarrow> cl_StartedAt cl < pg_time t) \<and>
     (\<forall>i. rf_CampaignID f = Some i \<longrightarrow> cl_CampaignID cl = i) \<and>
     (\<forall>i. rf_AgentID f = Some i \<longrightarrow> cl_AgentID cl = i)"

lemma eval_where_match: "eval_where (reportWhereClause f) cl \<longleftrightarrow> report_match f cl"
  by (cases "rf_From f"; cases "rf_To f"; cases "rf_CampaignID f"; cases "rf_AgentID f")
     (simp_all add: eval_where_def reportWhereClause_def add_cond_def Let_def eval_cond_def placeholder_def
       report_match_def nth_Cons' conj_commute)

lemma mset_insert_group: "mset (insert_group g gs) = add_mset g (mset gs)"
  by (induction gs) auto

lemma mset_sort_groups: "mset (foldr insert_group gs []) = mset gs"
  by (induction gs) (auto simp: mset_insert_group)

lemma sum_group_query: "sum_list (map dc_Count (group_query f t)) = int (length (selected f t))"
proof -
  define ks where "ks = map (group_key t) (selected f t)"
  define gs where "gs = map (\<lambda>k. (k, int (count_list ks k))) (remdups ks)"
  have "sum_list (map dc_Count (group_query f t)) = (\<Sum>g \<leftarrow> foldr insert_group gs []. int (count_list ks (fst g)))"
    by (simp add: group_query_def Let_def ks_def [symmetric] gs_def [symmetric] o_def group_count_def)
  also have "\<dots> = (\<Sum>g \<leftarrow> gs. int (count_list ks (fst g)))"
    by (simp only: sum_mset_sum_list [symmetric] mset_map mset_sort_groups)
  also have "\<dots> = (\<Sum>k \<leftarrow> remdups ks. int (count_list ks k))"
    by (simp add: gs_def o_def)
  also have "\<dots> = (\<Sum>k \<in> set ks. int (count_list ks k))"
    by (subst sum_list_distinct_conv_sum_set) simp_all
  also have "\<dots> = int (length ks)"
    by (simp flip: of_nat_sum add: sum_count_set)
  finally show ?thesis by (simp add: ks_def)
qed

lemma count_where_bounds: "0 \<le> count_where P f t \<and> count_where P f t \<le> int (length (selected f t))"
  by (simp add: count_where_def)

lemma Summary_ok:
  assumes "Summary f s = (Inr r, s')"
  shows "r = make_summary (int (length (selected f (tabs s)))) (duration_sum (selected f (tabs s)))
      (group_query f (tabs s))
      (if selected f (tabs s) = [] then None
       else Some (count_where dp_IsContact f (tabs s), count_where dp_IsSuccess f (tabs s)))"
proof -
  obtain calls dur s1 groups s2 where 1: "db_select (\<lambda>t _. (int (length (selected f t)), duration_sum (selected f t))) s = (Inr (calls, dur), s1)"
    and 2: "db_select (\<lambda>t _. group_query f t) s1 = (Inr groups, s2)"
    and 3: "(if calls > 0 then
       bindE (wrapE ''summary rates''
         (db_select (\<lambda>t _. (count_where dp_IsContact f t, count_where dp_IsSuccess f t)))) (\<lambda>rates.
       retE (make_summary calls dur groups (Some rates)))
     else retE (make_summary calls dur groups None)) s2 = (Inr r, s')"
    using assms unfolding Summary_def by (auto simp: bindE_Inr_iff wrapE_Inr_iff)
  have t: "calls = int (length (selected f (tabs s)))" "dur = duration_sum (selected f (tabs s))"
    "groups = group_query f (tabs s)" "tabs s2 = tabs s"
    using db_select_ok [OF 1] db_select_ok [OF 2] by auto
  show ?thesis
  proof (cases "selected f (tabs s) = []")
    case True
    with 3 t show ?thesis by simp
  next
    case False
    with 3 t(1) obtain rates where "db_select (\<lambda>t _. (count_where dp_IsContact f t, count_where dp_IsSuccess f t)) s2 = (Inr rates, s')"
      "r = make_summary calls dur groups (Some rates)"
      by (auto simp: bindE_Inr_iff wrapE_Inr_iff)
    with False t db_select_ok [OF this(1)] show ?thesis by auto
  qed
qed

lemma ExportRows_err:
  assumes "ExportRows f s = (Inl e, s')"
  shows "tabs s' = tabs s \<and> (db_faults s = [] \<longrightarrow> e = ErrExportTooLarge \<and> 50000 < int (length (selected f (tabs s))))"
proof
  show "tabs s' = tabs s"
    using assms unfolding ExportRows_def ExportCount_def
    by (auto simp: bindE_iff split: if_split_asm dest!: db_select_tabs)
  show "db_faults s = [] \<longrightarrow> e = ErrExportTooLarge \<and> 50000 < int (length (selected f (tabs s)))"
    using assms unfolding ExportRows_def ExportCount_def db_select_def
    by (auto simp: bindE_iff stmt_def MaxReportExportRows_def split: if_split_asm)
qed

lemma selected_match: "selected f t = filter (report_match f) (call_logs t)"
  unfolding selected_def by (rule filter_cong) (simp_all add: eval_where_match)

section \<open>Properties\<close>

text \<open>
  C9. The summary counts exactly the calls the filter selects, from the first instant on and
  before the last one; the counts by disposition add up to the calls, the average is the total
  over the calls, and the rates lie between 0 and 1 and are absent only when there is no call.
\<close>

theorem report_summary:
  assumes "Summary f s = (Inr r, s')"
  shows "rs_Calls r = int (length (filter (report_match f) (call_logs (tabs s)))) \<and>
    sum_list (map dc_Count (rs_ByDisposition r)) = rs_Calls r \<and>
    (rs_ContactRate r = None \<longleftrightarrow> rs_Calls r = 0) \<and> (rs_SuccessRate r = None \<longleftrightarrow> rs_Calls r = 0) \<and>
    (\<forall>x. rs_ContactRate r = Some x \<or> rs_SuccessRate r = Some x \<longrightarrow> 0 \<le> x \<and> x \<le> 1) \<and>
    rs_AvgDurationSec r * of_int (rs_Calls r) = (if rs_Calls r = 0 then 0 else of_int (rs_TotalDurationSec r))"
proof -
  note sel = selected_match [of f "tabs s"]
  let ?n = "length (selected f (tabs s))"
  have rate: "0 \<le> (of_int (count_where P f (tabs s)) / of_nat ?n :: rat) \<and> (of_int (count_where P f (tabs s)) / of_nat ?n :: rat) \<le> 1"
    if "selected f (tabs s) \<noteq> []" for P
  proof -
    have "(of_int (count_where P f (tabs s)) :: rat) \<le> of_int (int ?n)" "(0 :: rat) \<le> of_int (count_where P f (tabs s))"
      using count_where_bounds [of P f "tabs s"] by (simp_all only: of_int_le_iff of_int_0_le_iff)
    then show ?thesis using that by (simp add: divide_le_eq_1)
  qed
  note ok = Summary_ok [OF assms]
  show ?thesis
  proof (cases "selected f (tabs s) = []")
    case True
    with ok sum_group_query [of f "tabs s"] show ?thesis by (simp add: make_summary_def flip: sel)
  next
    case False
    with ok sum_group_query [of f "tabs s"] rate show ?thesis by (auto simp: make_summary_def simp flip: sel)
  qed
qed

definition report_db :: dbst where
  "report_db = db_of (empty_tables
     \<lparr>dispositions := [\<lparr>dp_ID = 9, dp_Code = ''BUSY'', dp_Label = ''b'', dp_CampaignID = Some 7, dp_IsContact = False,
        dp_IsSuccess = False\<rparr>],
      call_logs := [\<lparr>cl_ID = 1, cl_CampaignID = 7, cl_LeadID = None, cl_AgentID = 3, cl_Direction = ''outbound'',
        cl_StartedAt = 0, cl_EndedAt = None, cl_DurationSec = Some 5, cl_DispositionID = Some 9, cl_ToNumber = ''+331''\<rparr>]\<rparr>)"

definition no_filter :: ReportFilters where
  "no_filter = \<lparr>rf_From = None, rf_To = None, rf_CampaignID = Some 7, rf_AgentID = None\<rparr>"

theorem report_summary_witness:
  "\<exists>r s'. Summary no_filter report_db = (Inr r, s') \<and> rs_Calls r = 1 \<and>
     sum_list (map dc_Count (rs_ByDisposition r)) = 1"
proof -
  have ok: "\<not> isl (fst (Summary no_filter report_db))"
    and n: "length (selected no_filter (tabs report_db)) = 1"
    by code_simp+
  then obtain r where r: "Summary no_filter report_db = (Inr r, snd (Summary no_filter report_db))"
    by (cases "Summary no_filter report_db"; cases "fst (Summary no_filter report_db)") auto
  with report_summary [OF r] n show ?thesis
    by (intro exI [of _ r] exI [of _ "snd (Summary no_filter report_db)"]) (simp add: selected_match)
qed

text \<open>
  An export gives one row per selected call, in the order of their start, and is refused
  exactly when there are more than 50,000 of them; no statement changes a table.
\<close>

theorem report_export:
  assumes "ExportRows f s = (r, s')"
  shows "tabs s' = tabs s \<and>
    (case r of
       Inr rows \<Rightarrow> int (length (filter (report_match f) (call_logs (tabs s)))) \<le> 50000 \<and>
         rows = map (export_row (tabs s)) (sort_key cl_StartedAt (filter (report_match f) (call_logs (tabs s)))) \<and>
         sorted (map re_StartedAt rows)
     | Inl e \<Rightarrow> db_faults s = [] \<longrightarrow>
         e = ErrExportTooLarge \<and> 50000 < int (length (filter (report_match f) (call_logs (tabs s)))))"
proof -
  note sel = selected_match [of f "tabs s"]
  have srt: "sorted (map re_StartedAt (map (export_row t) (sort_key cl_StartedAt xs)))" for t xs
    by (simp add: o_def export_row_def)
  show ?thesis
  proof (cases r)
    case (Inr rows)
    then show ?thesis
      using assms srt unfolding sel [symmetric] ExportRows_def ExportCount_def
      by (auto simp: bindE_Inr_iff MaxReportExportRows_def split: if_split_asm dest!: db_select_ok)
  next
    case (Inl e)
    then show ?thesis
      using assms ExportRows_err unfolding sel [symmetric] by auto
  qed
qed

theorem report_export_witness:
  "\<exists>rows s'. ExportRows no_filter report_db = (Inr rows, s') \<and> length rows = 1"
proof -
  have ok: "\<not> isl (fst (ExportRows no_filter report_db))"
    and n: "length (selected no_filter (tabs report_db)) = 1"
    by code_simp+
  then obtain r where r: "ExportRows no_filter report_db = (Inr r, snd (ExportRows no_filter report_db))"
    by (cases "ExportRows no_filter report_db"; cases "fst (ExportRows no_filter report_db)") auto
  with report_export [OF r] n show ?thesis
    by (intro exI [of _ r] exI [of _ "snd (ExportRows no_filter report_db)"]) (simp add: selected_match)
qed

end
