(* ===== verification/Store_Carriers.thy ===== *)
theory Store_Carriers
  imports Database
begin

text \<open>
  \<open>services/api/internal/store/carriers.go\<close> and \<open>store/dids.go\<close>: the carrier rows with the
  checks of their table, and the inbound numbers.
\<close>

section \<open>Carriers\<close>

text \<open>A slice that may be \<open>nil\<close> is an option.\<close>

record CreateCarrierInput =
  cc_Name :: string
  cc_Host :: string
  cc_Port :: int
  cc_Transport :: string
  cc_Username :: "string option"
  cc_PasswordEncrypted :: "string option"
  cc_Realm :: "string option"
  cc_Codecs :: "string list option"
  cc_CallerIDs :: "string list option"
  cc_MaxCPS :: int
  cc_MaxChannels :: int
  cc_Enabled :: bool
  cc_Priority :: int

record UpdateCarrierInput =
  uc_Name :: "string option"
  uc_Host :: "string option"
  uc_Port :: "int option"
  uc_Transport :: "string option"
  uc_Username :: "string option"
  uc_ClearUsername :: bool
  uc_PasswordEncrypted :: "string option"
  uc_ClearPassword :: bool
  uc_Realm :: "string option"
  uc_ClearRealm :: bool
  uc_Codecs :: "string list option"
  uc_CallerIDs :: "string list option"
  uc_MaxCPS :: "int option"
  uc_MaxChannels :: "int option"
  uc_Enabled :: "bool option"
  uc_Priority :: "int option"

text \<open>The checks of the table, and the width of its integers.\<close>

definition transports :: "string list" where
  "transports = [''udp'', ''tcp'', ''tls'']"

definition carrier_check :: "Carrier \<Rightarrow> goerr option" where
  "carrier_check c =
     (if \<not> (int4 (c_Port c) \<and> int4 (c_MaxCPS c) \<and> int4 (c_MaxChannels c) \<and> int4 (c_Priority c))
      then Some int4_error
      else if c_Transport c \<notin> set transports \<or> \<not> c_MaxCPS c > 0 \<or> \<not> c_MaxChannels c > 0
      then Some check_violation else None)"

definition Carrier_List :: "Carrier list sql" where
  "Carrier_List = db_select (\<lambda>t _. sort_key c_Priority (sort_key c_CreatedAt (carriers t)))"

definition Carrier_Get :: "uuid \<Rightarrow> Carrier sql" where
  "Carrier_Get i = or_not_found (query_row (\<lambda>t _. filter (\<lambda>c. c_ID c = i) (carriers t)))"

definition insert_carrier :: "CreateCarrierInput \<Rightarrow> Carrier sql" where
  "insert_carrier inp = db_insert (\<lambda>i now t.
     let c = \<lparr>c_ID = i, c_Name = cc_Name inp, c_Host = cc_Host inp,
              c_Port = (if cc_Port inp = 0 then 5060 else cc_Port inp),
              c_Transport = cc_Transport inp, c_Username = cc_Username inp,
              c_PasswordEncrypted = cc_PasswordEncrypted inp, c_Realm = cc_Realm inp,
              c_Codecs = (case cc_Codecs inp of None \<Rightarrow> [''PCMU'', ''PCMA''] | Some x \<Rightarrow> x),
              c_CallerIDs = (case cc_CallerIDs inp of None \<Rightarrow> [] | Some x \<Rightarrow> x),
              c_MaxCPS = cc_MaxCPS inp, c_MaxChannels = cc_MaxChannels inp,
              c_Enabled = cc_Enabled inp, c_Priority = cc_Priority inp, c_CreatedAt = now\<rparr>
     in case carrier_check c of
          Some e \<Rightarrow> Inl e
        | None \<Rightarrow> if i \<in> c_ID ` set (carriers t) then Inl unique_violation
                  else Inr (c, t\<lparr>carriers := carriers t @ [c]\<rparr>))"

definition Carrier_Create :: "CreateCarrierInput \<Rightarrow> Carrier sql" where
  "Carrier_Create inp = wrapE ''insert carrier'' (insert_carrier inp)"

definition or_keep :: "'a option \<Rightarrow> 'a \<Rightarrow> 'a" where
  "or_keep new cur = (case new of None \<Rightarrow> cur | Some x \<Rightarrow> x)"

definition or_clear :: "bool \<Rightarrow> 'a option \<Rightarrow> 'a option \<Rightarrow> 'a option" where
  "or_clear clear new cur = (if clear then None else case new of None \<Rightarrow> cur | Some x \<Rightarrow> Some x)"

definition patch_carrier :: "UpdateCarrierInput \<Rightarrow> Carrier \<Rightarrow> Carrier \<Rightarrow> Carrier" where
  "patch_carrier inp cur c =
     c\<lparr>c_Name := or_keep (uc_Name inp) (c_Name cur),
       c_Host := or_keep (uc_Host inp) (c_Host cur),
       c_Port := or_keep (uc_Port inp) (c_Port cur),
       c_Transport := or_keep (uc_Transport inp) (c_Transport cur),
       c_Username := or_clear (uc_ClearUsername inp) (uc_Username inp) (c_Username cur),
       c_PasswordEncrypted := or_clear (uc_ClearPassword inp) (uc_PasswordEncrypted inp) (c_PasswordEncrypted cur),
       c_Realm := or_clear (uc_ClearRealm inp) (uc_Realm inp) (c_Realm cur),
       c_Codecs := or_keep (uc_Codecs inp) (c_Codecs cur),
       c_CallerIDs := or_keep (uc_CallerIDs inp) (c_CallerIDs cur),
       c_MaxCPS := or_keep (uc_MaxCPS inp) (c_MaxCPS cur),
       c_MaxChannels := or_keep (uc_MaxChannels inp) (c_MaxChannels cur),
       c_Enabled := or_keep (uc_Enabled inp) (c_Enabled cur),
       c_Priority := or_keep (uc_Priority inp) (c_Priority cur)\<rparr>"

definition update_carrier_stmt :: "uuid \<Rightarrow> (Carrier \<Rightarrow> Carrier) \<Rightarrow> Carrier sql" where
  "update_carrier_stmt i f =
     first_row (db_update (\<lambda>t.
       let new = map f (filter (\<lambda>c. c_ID c = i) (carriers t)) in
       case List.find (\<lambda>c. carrier_check c \<noteq> None) new of
         Some c \<Rightarrow> Inl (the (carrier_check c))
       | None \<Rightarrow> Inr (new, t\<lparr>carriers := map (\<lambda>c. if c_ID c = i then f c else c) (carriers t)\<rparr>)))"

definition Carrier_Update :: "uuid \<Rightarrow> UpdateCarrierInput \<Rightarrow> Carrier sql" where
  "Carrier_Update i inp =
     bindE (Carrier_Get i) (\<lambda>cur.
     wrapE ''update carrier'' (update_carrier_stmt i (patch_carrier inp cur)))"

text \<open>A carrier that a campaign refers to cannot go; the numbers that refer to it lose it.\<close>

definition delete_carrier_stmt :: "uuid \<Rightarrow> tables \<Rightarrow> goerr + nat \<times> tables" where
  "delete_carrier_stmt i t =
     (if i \<notin> c_ID ` set (carriers t) then Inr (0, t)
      else if i \<in> cp_CarrierID ` set (campaigns t) then Inl foreign_key_violation
      else Inr (1, t\<lparr>carriers := filter (\<lambda>c. c_ID c \<noteq> i) (carriers t),
                      dids := map (\<lambda>d. if d_CarrierID d = Some i then d\<lparr>d_CarrierID := None\<rparr> else d) (dids t)\<rparr>))"

definition Carrier_Delete :: "uuid \<Rightarrow> unit sql" where
  "Carrier_Delete i =
     bindE (db_update (delete_carrier_stmt i)) (\<lambda>n. if n = 0 then failE ErrNotFound else retE ())"

section \<open>Inbound numbers\<close>

record CreateDIDInput =
  cd_Number :: string
  cd_Destination :: string
  cd_CarrierID :: "uuid option"

definition upsert_did :: "DID \<Rightarrow> DID list \<Rightarrow> DID list" where
  "upsert_did d ds =
     (if d_Number d \<in> d_Number ` set ds
      then map (\<lambda>o'. if d_Number o' = d_Number d
                    then o'\<lparr>d_Destination := d_Destination d,
                            d_CarrierID := (case d_CarrierID d of None \<Rightarrow> d_CarrierID o' | Some c \<Rightarrow> Some c)\<rparr>
                    else o') ds
      else ds @ [d])"

definition upsert_did_stmt ::
  "string \<Rightarrow> string \<Rightarrow> uuid option \<Rightarrow> uuid \<Rightarrow> time \<Rightarrow> tables \<Rightarrow> goerr + DID list \<times> tables" where
  "upsert_did_stmt number dest cid i now t =
     (let ds = upsert_did \<lparr>d_ID = i, d_Number = number, d_CarrierID = cid, d_Destination = dest,
                           d_CreatedAt = now\<rparr> (dids t)
      in if cid \<noteq> None \<and> the cid \<notin> c_ID ` set (carriers t) then Inl foreign_key_violation
         else if number \<notin> d_Number ` set (dids t) \<and> i \<in> d_ID ` set (dids t) then Inl unique_violation
         else Inr (filter (\<lambda>d. d_Number d = number) ds, t\<lparr>dids := ds\<rparr>))"

definition DID_Create :: "CreateDIDInput \<Rightarrow> DID sql" where
  "DID_Create inp =
     (let number = trim_space (cd_Number inp);
          dest0 = trim_space (cd_Destination inp);
          dest = (if dest0 = [] then ''agent_pool:default'' else dest0)
      in first_row (db_insert (upsert_did_stmt number dest (cd_CarrierID inp))))"

definition GetByNumber :: "string \<Rightarrow> DID sql" where
  "GetByNumber number =
     or_not_found (query_row (\<lambda>t _. filter (\<lambda>d. d_Number d = trim_space number) (dids t)))"

section \<open>Lemmas\<close>

definition carrier_ok :: "Carrier \<Rightarrow> bool" where
  "carrier_ok c \<longleftrightarrow> c_Transport c \<in> set transports \<and> c_MaxCPS c > 0 \<and> c_MaxChannels c > 0"

definition carrier_inv :: "tables \<Rightarrow> bool" where
  "carrier_inv t \<longleftrightarrow> distinct (map c_ID (carriers t)) \<and> (\<forall>c \<in> set (carriers t). carrier_ok c) \<and>
     distinct (map d_Number (dids t)) \<and>
     (\<forall>d \<in> set (dids t). \<forall>i. d_CarrierID d = Some i \<longrightarrow> i \<in> c_ID ` set (carriers t)) \<and>
     (\<forall>p \<in> set (campaigns t). cp_CarrierID p \<in> c_ID ` set (carriers t))"

lemma carrier_inv_ids:
  assumes "carrier_inv t" and "map c_ID (carriers t') = map c_ID (carriers t)"
    and "dids t' = dids t" and "campaigns t' = campaigns t" and "\<forall>c \<in> set (carriers t'). carrier_ok c"
  shows "carrier_inv t'"
proof -
  have "c_ID ` set (carriers t') = c_ID ` set (carriers t)"
    using assms(2) by (metis list.set_map)
  with assms show ?thesis by (simp add: carrier_inv_def)
qed

lemma carrier_check_ok: "carrier_check c = None \<Longrightarrow> carrier_ok c"
  by (auto simp: carrier_check_def carrier_ok_def split: if_splits)

lemma insert_carrier_ok:
  assumes "insert_carrier inp s = (Inr c, s')"
  shows "carrier_ok c \<and> c_ID c \<notin> c_ID ` set (carriers (tabs s)) \<and>
    tabs s' = (tabs s)\<lparr>carriers := carriers (tabs s) @ [c]\<rparr>"
  using db_insert_ok [OF assms [unfolded insert_carrier_def]]
  by (auto simp: Let_def split: option.split_asm if_split_asm dest!: carrier_check_ok)

lemma Carrier_Get_ok:
  assumes "Carrier_Get i s = (Inr c, s')"
  shows "c \<in> set (carriers (tabs s)) \<and> c_ID c = i \<and> tabs s' = tabs s"
  using assms unfolding Carrier_Get_def or_not_found_ok by (rule query_row_filter)

lemma Carrier_Get_tabs: "Carrier_Get i s = (r, s') \<Longrightarrow> tabs s' = tabs s"
  unfolding Carrier_Get_def by (erule or_not_found_tabs) (rule query_row_tabs)

lemma update_carrier_stmt_ok:
  assumes "update_carrier_stmt i f s = (r, s')"
  shows "tabs s' = tabs s \<or>
    (\<forall>c \<in> set (carriers (tabs s)). c_ID c = i \<longrightarrow> carrier_ok (f c)) \<and>
    tabs s' = (tabs s)\<lparr>carriers := map (\<lambda>c. if c_ID c = i then f c else c) (carriers (tabs s))\<rparr>"
  using assms unfolding update_carrier_stmt_def
  by (auto simp: first_row_iff Let_def find_None_iff split: option.split_asm
      dest!: db_update_ok db_update_err intro: carrier_check_ok)

lemma patch_carrier_id [simp]: "c_ID (patch_carrier inp cur c) = c_ID c"
  by (simp add: patch_carrier_def)

lemma Carrier_Update_inv:
  assumes "Carrier_Update i inp s = (r, s')" and "carrier_inv (tabs s)"
  shows "carrier_inv (tabs s')"
proof (cases "tabs s' = tabs s")
  case False
  then obtain cur s1 r' where u: "update_carrier_stmt i (patch_carrier inp cur) s1 = (r', s')"
    and s1: "tabs s1 = tabs s"
    using assms(1) by (auto simp: Carrier_Update_def bindE_iff wrapE_iff dest: Carrier_Get_tabs)
  let ?f = "patch_carrier inp cur"
  have f: "\<forall>c \<in> set (carriers (tabs s)). c_ID c = i \<longrightarrow> carrier_ok (?f c)"
    and t: "tabs s' = (tabs s)\<lparr>carriers := map (\<lambda>c. if c_ID c = i then ?f c else c) (carriers (tabs s))\<rparr>"
    using update_carrier_stmt_ok [OF u] False s1 by simp_all
  have ok: "\<forall>c \<in> set (carriers (tabs s')). carrier_ok c"
    using assms(2) f t by (auto simp: carrier_inv_def)
  show ?thesis
    by (rule carrier_inv_ids [OF assms(2) _ _ _ ok]) (simp_all add: t)
qed (use assms(2) in simp)

lemma Carrier_Create_inv:
  assumes "Carrier_Create inp s = (r, s')" and "carrier_inv (tabs s)"
  shows "carrier_inv (tabs s')"
proof (cases r)
  case (Inl e)
  then have "tabs s' = tabs s"
    using assms(1) by (auto simp: Carrier_Create_def wrapE_Inl_iff insert_carrier_def dest!: db_insert_err)
  then show ?thesis using assms(2) by simp
next
  case (Inr c)
  then have "insert_carrier inp s = (Inr c, s')"
    using assms(1) by (auto simp: Carrier_Create_def wrapE_Inr_iff)
  from insert_carrier_ok [OF this] show ?thesis
    using assms(2) by (auto simp: carrier_inv_def)
qed

lemma Carrier_Delete_changed:
  assumes "Carrier_Delete i s = (r, s')" and "tabs s' \<noteq> tabs s"
  shows "delete_carrier_stmt i (tabs s) = Inr (1, tabs s')"
  using assms db_update_changed [of "delete_carrier_stmt i" s _ s'] unfolding Carrier_Delete_def
  by (fastforce simp: bindE_iff delete_carrier_stmt_def split: if_split_asm)

lemma Carrier_Delete_inv:
  assumes "Carrier_Delete i s = (r, s')" and "carrier_inv (tabs s)"
  shows "carrier_inv (tabs s')"
proof (cases "tabs s' = tabs s")
  case False
  let ?t = "tabs s"
  have t: "tabs s' = ?t\<lparr>carriers := filter (\<lambda>c. c_ID c \<noteq> i) (carriers ?t),
      dids := map (\<lambda>d. if d_CarrierID d = Some i then d\<lparr>d_CarrierID := None\<rparr> else d) (dids ?t)\<rparr>"
    and free: "i \<notin> cp_CarrierID ` set (campaigns ?t)"
    using Carrier_Delete_changed [OF assms(1) False]
    by (auto simp: delete_carrier_stmt_def split: if_split_asm)
  have n: "map d_Number (map (\<lambda>d. if d_CarrierID d = Some i then d\<lparr>d_CarrierID := None\<rparr> else d) (dids ?t)) =
      map d_Number (dids ?t)" by simp
  have ids: "c_ID ` set (filter (\<lambda>c. c_ID c \<noteq> i) (carriers ?t)) = c_ID ` set (carriers ?t) - {i}"
    by auto
  have t1: "carriers (tabs s') = filter (\<lambda>c. c_ID c \<noteq> i) (carriers ?t)" "campaigns (tabs s') = campaigns ?t"
    "dids (tabs s') = map (\<lambda>d. if d_CarrierID d = Some i then d\<lparr>d_CarrierID := None\<rparr> else d) (dids ?t)"
    by (simp_all add: t)
  show ?thesis
    unfolding carrier_inv_def t1 n ids
    using assms(2) free by (auto simp: carrier_inv_def distinct_map_filter split: if_split_asm)
qed (use assms(2) in simp)

lemma upsert_did_map: "d_Number d \<in> d_Number ` set ds \<Longrightarrow> map d_Number (upsert_did d ds) = map d_Number ds"
  by (simp add: upsert_did_def)

lemma upsert_did_numbers:
  "distinct (map d_Number ds) \<Longrightarrow> distinct (map d_Number (upsert_did d ds))"
  by (cases "d_Number d \<in> d_Number ` set ds") (simp_all only: upsert_did_map, simp add: upsert_did_def)

lemma upsert_did_mem: "d_Number d \<in> d_Number ` set (upsert_did d ds)"
proof (cases "d_Number d \<in> d_Number ` set ds")
  case True
  then show ?thesis using upsert_did_map [OF True] by (metis list.set_map)
qed (simp add: upsert_did_def)

lemma upsert_did_stmt_ok:
  assumes "upsert_did_stmt n dest cid i now t = Inr (rows, t')"
  shows "\<exists>d. (\<forall>c. d_CarrierID d = Some c \<longrightarrow> c \<in> c_ID ` set (carriers t)) \<and>
    d_Number d = n \<and> d_CarrierID d = cid \<and> d_Destination d = dest \<and>
    t' = t\<lparr>dids := upsert_did d (dids t)\<rparr>"
  using assms
  by (intro exI [of _ "\<lparr>d_ID = i, d_Number = n, d_CarrierID = cid, d_Destination = dest, d_CreatedAt = now\<rparr>"])
     (auto simp: upsert_did_stmt_def Let_def split: if_split_asm)

definition did_destination :: "CreateDIDInput \<Rightarrow> string" where
  "did_destination inp =
     (if trim_space (cd_Destination inp) = [] then ''agent_pool:default'' else trim_space (cd_Destination inp))"

lemma DID_Create_eq:
  "DID_Create inp =
     first_row (db_insert (upsert_did_stmt (trim_space (cd_Number inp)) (did_destination inp) (cd_CarrierID inp)))"
  by (simp add: DID_Create_def Let_def did_destination_def)

lemma DID_Create_changed:
  assumes "DID_Create inp s = (r, s')" and "tabs s' \<noteq> tabs s \<or> \<not> isl r"
  shows "\<exists>d. (\<forall>c. d_CarrierID d = Some c \<longrightarrow> c \<in> c_ID ` set (carriers (tabs s))) \<and>
    d_Number d = trim_space (cd_Number inp) \<and> d_CarrierID d = cd_CarrierID inp \<and>
    d_Destination d = did_destination inp \<and> tabs s' = (tabs s)\<lparr>dids := upsert_did d (dids (tabs s))\<rparr>"
proof -
  let ?q = "upsert_did_stmt (trim_space (cd_Number inp)) (did_destination inp) (cd_CarrierID inp)"
  obtain r' where r': "db_insert ?q s = (r', s')" "\<not> isl r \<longrightarrow> \<not> isl r'"
    using assms(1) unfolding DID_Create_eq by (auto simp: first_row_iff)
  then obtain i now x where "?q i now (tabs s) = Inr (x, tabs s')"
    using db_insert_changed [OF r'(1)] db_insert_ok [of ?q s "projr r'" s'] assms(2) by (cases r') auto
  from upsert_did_stmt_ok [OF this] show ?thesis .
qed

lemma DID_Create_inv:
  assumes "DID_Create inp s = (r, s')" and "carrier_inv (tabs s)"
  shows "carrier_inv (tabs s')"
proof (cases "tabs s' = tabs s")
  case False
  then obtain d where
    d: "\<forall>c. d_CarrierID d = Some c \<longrightarrow> c \<in> c_ID ` set (carriers (tabs s))"
       "tabs s' = (tabs s)\<lparr>dids := upsert_did d (dids (tabs s))\<rparr>"
    using DID_Create_changed [OF assms(1)] by blast
  have "\<forall>d' \<in> set (upsert_did d (dids (tabs s))). \<forall>i. d_CarrierID d' = Some i \<longrightarrow> i \<in> c_ID ` set (carriers (tabs s))"
    using assms(2) d(1)
    by (auto simp: carrier_inv_def upsert_did_def split: if_split_asm option.split_asm)
  then show ?thesis
    using assms(2) d upsert_did_numbers by (simp add: carrier_inv_def)
qed (use assms(2) in simp)


section \<open>Properties\<close>

datatype carrier_op =
    OpNewCarrier CreateCarrierInput
  | OpChangeCarrier uuid UpdateCarrierInput
  | OpDropCarrier uuid
  | OpDID CreateDIDInput

definition run_carrier_op :: "carrier_op \<Rightarrow> dbst \<Rightarrow> dbst" where
  "run_carrier_op op s =
     (case op of
        OpNewCarrier inp \<Rightarrow> snd (Carrier_Create inp s)
      | OpChangeCarrier i inp \<Rightarrow> snd (Carrier_Update i inp s)
      | OpDropCarrier i \<Rightarrow> snd (Carrier_Delete i s)
      | OpDID inp \<Rightarrow> snd (DID_Create inp s))"

lemma run_carrier_op_inv: "carrier_inv (tabs s) \<Longrightarrow> carrier_inv (tabs (run_carrier_op op s))"
  unfolding run_carrier_op_def
  by (cases op) (simp_all add: Carrier_Create_inv [OF surjective_pairing]
      Carrier_Update_inv [OF surjective_pairing] Carrier_Delete_inv [OF surjective_pairing]
      DID_Create_inv [OF surjective_pairing])

interpretation carrier_ops: invariant_ops run_carrier_op "\<lambda>s. carrier_inv (tabs s)"
  by unfold_locales (rule run_carrier_op_inv)

text \<open>
  C5. Whatever carriers and numbers are written and removed, and whichever statements fail,
  every carrier has a known transport and positive caps, ids and numbers stay unique, and no
  campaign and no inbound number refers to a carrier that is gone.
\<close>

theorem carriers_consistent:
  assumes "carrier_inv (tabs s)"
  shows "carrier_inv (tabs (fold run_carrier_op ops s))"
  using assms by (rule carrier_ops.run_inv)

definition sample_carrier :: CreateCarrierInput where
  "sample_carrier = \<lparr>cc_Name = ''a'', cc_Host = ''h'', cc_Port = 0, cc_Transport = ''tls'', cc_Username = None,
     cc_PasswordEncrypted = None, cc_Realm = None, cc_Codecs = None, cc_CallerIDs = None, cc_MaxCPS = 3,
     cc_MaxChannels = 2, cc_Enabled = True, cc_Priority = 1\<rparr>"

theorem carriers_consistent_witness:
  "carrier_inv (tabs (fold run_carrier_op
     [OpNewCarrier sample_carrier, OpDID \<lparr>cd_Number = ''+331'', cd_Destination = [], cd_CarrierID = Some 1000\<rparr>,
      OpDropCarrier 1000] (db_of empty_tables)))"
  by (rule carriers_consistent) (simp add: carrier_inv_def db_of_def empty_tables_def)

text \<open>
  Registering a number stores it, without its surrounding white space, under its
  destination, or the default pool when there is none, keeps the carrier it had when the call
  names none, and leaves every other number alone.
\<close>

theorem did_upsert:
  assumes "DID_Create inp s = (Inr d', s')"
  shows "(\<exists>d \<in> set (dids (tabs s')). d_Number d = trim_space (cd_Number inp)) \<and>
    (\<forall>d \<in> set (dids (tabs s')). d_Number d = trim_space (cd_Number inp) \<longrightarrow>
       d_Destination d = (if trim_space (cd_Destination inp) = [] then ''agent_pool:default''
                          else trim_space (cd_Destination inp)) \<and>
       (cd_CarrierID inp \<noteq> None \<longrightarrow> d_CarrierID d = cd_CarrierID inp)) \<and>
    filter (\<lambda>d. d_Number d \<noteq> trim_space (cd_Number inp)) (dids (tabs s')) =
    filter (\<lambda>d. d_Number d \<noteq> trim_space (cd_Number inp)) (dids (tabs s))"
proof -
  let ?n = "trim_space (cd_Number inp)"
  obtain d where d: "d_Number d = ?n" "d_CarrierID d = cd_CarrierID inp" "d_Destination d = did_destination inp"
    and t: "dids (tabs s') = upsert_did d (dids (tabs s))"
    using DID_Create_changed [OF assms] by auto
  have "filter (\<lambda>d. d_Number d \<noteq> ?n) (upsert_did d ds) = filter (\<lambda>d. d_Number d \<noteq> ?n) ds" for ds
    unfolding upsert_did_def d(1) using d(1) by (simp add: filter_unchanged)
  moreover have "\<exists>d' \<in> set (upsert_did d ds). d_Number d' = ?n" for ds
    using upsert_did_mem [of d ds] d(1) by auto
  moreover have "\<forall>d' \<in> set (upsert_did d ds). d_Number d' = ?n \<longrightarrow> d_Destination d' = did_destination inp \<and>
      (cd_CarrierID inp \<noteq> None \<longrightarrow> d_CarrierID d' = cd_CarrierID inp)" for ds
    unfolding upsert_did_def d(1) using d by (auto simp: image_iff simp del: if_split split: if_split_asm option.split)
  ultimately show ?thesis unfolding t did_destination_def [symmetric] by blast
qed

theorem did_upsert_witness:
  "\<exists>d s'. DID_Create \<lparr>cd_Number = '' +331 '', cd_Destination = [], cd_CarrierID = None\<rparr> (db_of empty_tables) = (Inr d, s') \<and>
     (\<exists>d \<in> set (dids (tabs s')). d_Number d = ''+331'')"
proof -
  let ?inp = "\<lparr>cd_Number = '' +331 '', cd_Destination = [], cd_CarrierID = None\<rparr>"
  let ?c = "DID_Create ?inp (db_of empty_tables)"
  have ok: "\<not> isl (fst ?c)" and n: "trim_space '' +331 '' = ''+331''"
    by code_simp+
  then obtain d where "?c = (Inr d, snd ?c)" by (cases "?c"; cases "fst ?c") auto
  with did_upsert [OF this] n show ?thesis by (intro exI [of _ d] exI [of _ "snd ?c"]) auto
qed

end
