(* ===== verification/Http.thy ===== *)
theory Http
  imports CV_Prelude Go_Conv
begin

text \<open>
  HTTP handlers, as the code of both services writes them: a handler reads a request whose body
  is already decoded (\<open>None\<close> for a body that is not the JSON it expects), changes the state and
  gives one reply. A panic in a handler is caught by \<open>net/http\<close>, which aborts the request.
\<close>

datatype 'b reply =
    Fail int string     \<comment> \<open>\<open>writeJSON(w, status, map[string]string{"error": ...})\<close>\<close>
  | Reply int 'b
  | NoBody int          \<comment> \<open>\<open>w.WriteHeader(status)\<close>\<close>
  | Panicked

type_synonym ('s, 'b) handler = "'s \<Rightarrow> 'b reply \<times> 's"

named_theorems http_simps \<open>unfolding rules of handlers\<close>

definition failH :: "int \<Rightarrow> string \<Rightarrow> ('s, 'b) handler" where
  "failH code e = (\<lambda>s. (Fail code e, s))"

definition replyH :: "int \<Rightarrow> 'b \<Rightarrow> ('s, 'b) handler" where
  "replyH code b = (\<lambda>s. (Reply code b, s))"

definition internal_error :: "('s, 'b) handler" where
  "internal_error = failH 500 ''internal_error''"

text \<open>\<open>x, err := m(); if err != nil { ... return }; ...\<close>\<close>

definition callH :: "('s, 'a) run \<Rightarrow> (goerr \<Rightarrow> ('s, 'b) handler) \<Rightarrow> ('a \<Rightarrow> ('s, 'b) handler) \<Rightarrow> ('s, 'b) handler" where
  "callH m g f = (\<lambda>s. case m s of (Inl e, s') \<Rightarrow> g e s' | (Inr x, s') \<Rightarrow> f x s')"

text \<open>\<open>_ = m()\<close>\<close>

definition ignoreH :: "('s, 'a) run \<Rightarrow> ('s, 'b) handler \<Rightarrow> ('s, 'b) handler" where
  "ignoreH m f = (\<lambda>s. f (snd (m s)))"

lemma failH_run [http_simps, simp]: "failH c e s = (Fail c e, s)"
  by (simp add: failH_def)

lemma replyH_run [http_simps, simp]: "replyH c b s = (Reply c b, s)"
  by (simp add: replyH_def)

lemma internal_error_run [http_simps, simp]: "internal_error s = (Fail 500 ''internal_error'', s)"
  by (simp add: internal_error_def)

lemma callH_iff:
  "callH m g f s = q \<longleftrightarrow>
     (\<exists>e s'. m s = (Inl e, s') \<and> g e s' = q) \<or> (\<exists>x s'. m s = (Inr x, s') \<and> f x s' = q)"
  by (cases "m s"; cases "fst (m s)") (auto simp: callH_def)

lemma ignoreH_iff: "ignoreH m f s = q \<longleftrightarrow> (\<exists>r s'. m s = (r, s') \<and> f s' = q)"
  by (cases "m s") (auto simp: ignoreH_def)

lemmas handler_iffs = callH_iff ignoreH_iff

lemma callH_run [http_simps]:
  "callH m g f s = (case m s of (Inl e, s') \<Rightarrow> g e s' | (Inr x, s') \<Rightarrow> f x s')"
  by (simp add: callH_def)

lemma ignoreH_run [http_simps]: "ignoreH m f s = f (snd (m s))"
  by (simp add: ignoreH_def)

section \<open>Cookies\<close>

record cookie =
  ck_Name :: string
  ck_Value :: string
  ck_Secure :: bool
  ck_MaxAge :: int

definition CookieSession :: string where
  "CookieSession = ''cv_session''"

definition CookiePending :: string where
  "CookiePending = ''cv_pending''"

lemma cookie_names [simp]: "CookieSession \<noteq> CookiePending" "CookiePending \<noteq> CookieSession"
  by (simp_all add: CookieSession_def CookiePending_def)

text \<open>\<open>clearCookie\<close>: an empty value that is already over.\<close>

definition clearCookie :: "string \<Rightarrow> bool \<Rightarrow> cookie" where
  "clearCookie name secure = \<lparr>ck_Name = name, ck_Value = [], ck_Secure = secure, ck_MaxAge = - 1\<rparr>"

section \<open>The address of the client\<close>

fun last_index :: "char \<Rightarrow> string \<Rightarrow> nat option" where
  "last_index c [] = None"
| "last_index c (x # s) =
     (case last_index c s of
        Some i \<Rightarrow> Some (Suc i)
      | None \<Rightarrow> if x = c then Some 0 else None)"

fun first_index :: "char \<Rightarrow> string \<Rightarrow> nat option" where
  "first_index c [] = None"
| "first_index c (x # s) = (if x = c then Some 0 else map_option Suc (first_index c s))"

text \<open>\<open>net.SplitHostPort\<close>, its host.\<close>

definition split_host :: "string \<Rightarrow> string option" where
  "split_host hp =
     (case last_index (CHR '':'') hp of
        None \<Rightarrow> None
      | Some i \<Rightarrow>
          if prefix ''['' hp then
            (case first_index (CHR '']'') hp of
               None \<Rightarrow> None
             | Some e \<Rightarrow>
                 if e + 1 \<noteq> i \<or> CHR ''['' \<in> set (drop 1 hp) \<or> CHR '']'' \<in> set (drop (e + 1) hp) then None
                 else Some (take (e - 1) (drop 1 hp)))
          else if CHR '':'' \<in> set (take i hp) \<or> CHR ''['' \<in> set hp \<or> CHR '']'' \<in> set hp then None
          else Some (take i hp))"

definition clientIP :: "string \<Rightarrow> string \<Rightarrow> string" where
  "clientIP xff remoteAddr =
     (if xff \<noteq> [] then trim_space (hd (split_on (CHR '','') xff))
      else case split_host remoteAddr of None \<Rightarrow> remoteAddr | Some h \<Rightarrow> h)"

end
