(* ===== verification/Store_Users.thy ===== *)
theory Store_Users
  imports Database
begin

text \<open>
  \<open>services/api/internal/store/users.go\<close>: the user rows. The queries of the file are
  statements on the table \<open>users\<close>.
\<close>

record CreateUserInput =
  cu_Email :: string
  cu_PasswordHash :: string
  cu_Role :: UserRole
  cu_DisplayName :: "string option"

record UpdateUserInput =
  uu_DisplayName :: "string option"
  uu_Role :: "UserRole option"
  uu_Disabled :: "bool option"
  uu_DisabledAt :: "time option"

definition isUniqueViolation :: "goerr \<Rightarrow> bool" where
  "isUniqueViolation err \<longleftrightarrow> as_pq err = Some ''23505''"

definition User_List :: "User list sql" where
  "User_List = db_select (\<lambda>t _. sort_key u_CreatedAt (users t))"

definition User_Get :: "uuid \<Rightarrow> User sql" where
  "User_Get i = or_not_found (query_row (\<lambda>t _. filter (\<lambda>u. u_ID u = i) (users t)))"

definition admin_count :: "tables \<Rightarrow> nat" where
  "admin_count t = length (filter (\<lambda>u. u_Role u = UserRoleAdmin) (users t))"

definition countAdmins :: "nat sql" where
  "countAdmins = db_select (\<lambda>t _. admin_count t)"

text \<open>The same count outside a transaction.\<close>

definition CountAdmins :: "nat sql" where
  "CountAdmins = countAdmins"

text \<open>\<open>pg_advisory_xact_lock\<close> and the count; transactions run one after the other here.\<close>

definition lockAdminSlot :: "unit sql" where
  "lockAdminSlot =
     bindE (db_select (\<lambda>_ _. ())) (\<lambda>_.
     bindE countAdmins (\<lambda>n.
     if n > 0 then failE ErrAdminExists else retE ()))"

definition insert_user :: "CreateUserInput \<Rightarrow> User sql" where
  "insert_user inp = db_insert (\<lambda>i now t.
     let u = \<lparr>u_ID = i, u_Email = to_lower (cu_Email inp), u_PasswordHash = cu_PasswordHash inp,
              u_Role = cu_Role inp, u_DisplayName = cu_DisplayName inp, u_TOTPSecretEncrypted = None,
              u_TOTPEnabled = False, u_FailedLoginCount = 0, u_LockedUntil = None,
              u_DisabledAt = None, u_CreatedAt = now\<rparr>
     in if i \<in> u_ID ` set (users t) \<or> u_Email u \<in> u_Email ` set (users t) then Inl unique_violation
        else Inr (u, t\<lparr>users := users t @ [u]\<rparr>))"

definition User_Create :: "CreateUserInput \<Rightarrow> User sql" where
  "User_Create inp = in_tx (
     bindE (if cu_Role inp = UserRoleAdmin then lockAdminSlot else retE ()) (\<lambda>_.
     tryE (insert_user inp) (\<lambda>r. case r of
         Inl err \<Rightarrow> if isUniqueViolation err then failE ErrDuplicateEmail
                    else failE (ErrWrap ''insert user'' err)
       | Inr u \<Rightarrow> retE u)))"

definition getForUpdate :: "uuid \<Rightarrow> User sql" where
  "getForUpdate i = or_not_found (query_row (\<lambda>t _. filter (\<lambda>u. u_ID u = i) (users t)))"

text \<open>\<open>UPDATE users SET ... WHERE id = $1\<close>, with the rows it changes.\<close>

definition update_users :: "uuid \<Rightarrow> (User \<Rightarrow> User) \<Rightarrow> tables \<Rightarrow> tables" where
  "update_users i f t = t\<lparr>users := map (\<lambda>u. if u_ID u = i then f u else u) (users t)\<rparr>"

definition update_user_returning :: "uuid \<Rightarrow> (User \<Rightarrow> User) \<Rightarrow> User sql" where
  "update_user_returning i f =
     first_row (db_update (\<lambda>t. Inr (map f (filter (\<lambda>u. u_ID u = i) (users t)), update_users i f t)))"

text \<open>The columns an update writes: those the request leaves out keep their value.\<close>

definition updated_name :: "UpdateUserInput \<Rightarrow> User \<Rightarrow> string option" where
  "updated_name inp cur =
     (case uu_DisplayName inp of
        None \<Rightarrow> u_DisplayName cur
      | Some n \<Rightarrow> (let trimmed' = trim_space n in if trimmed' = [] then None else Some trimmed'))"

definition updated_disabled :: "UpdateUserInput \<Rightarrow> time \<Rightarrow> User \<Rightarrow> time option" where
  "updated_disabled inp now cur =
     (case uu_Disabled inp of
        None \<Rightarrow> u_DisabledAt cur
      | Some d \<Rightarrow>
          if d then (case uu_DisabledAt inp of Some at \<Rightarrow> Some at | None \<Rightarrow> Some now)
          else None)"

definition User_Update_body :: "uuid \<Rightarrow> UpdateUserInput \<Rightarrow> time \<Rightarrow> User sql" where
  "User_Update_body i inp now =
     bindE (getForUpdate i) (\<lambda>cur.
     bindE (case uu_Role inp of
              None \<Rightarrow> retE (u_Role cur)
            | Some r \<Rightarrow>
                bindE (if r = UserRoleAdmin \<and> u_Role cur \<noteq> UserRoleAdmin then lockAdminSlot else retE ())
                  (\<lambda>_. retE r)) (\<lambda>role.
     wrapE ''update user'' (update_user_returning i (\<lambda>u.
       u\<lparr>u_DisplayName := updated_name inp cur, u_Role := role,
         u_DisabledAt := map_option pg_time (updated_disabled inp now cur)\<rparr>))))"

definition User_Update :: "uuid \<Rightarrow> UpdateUserInput \<Rightarrow> time \<Rightarrow> User sql" where
  "User_Update i inp now = in_tx (User_Update_body i inp now)"

definition ResetPassword :: "uuid \<Rightarrow> string \<Rightarrow> unit sql" where
  "ResetPassword i passwordHash =
     bindE (db_update (\<lambda>t. Inr (length (filter (\<lambda>u. u_ID u = i) (users t)),
       update_users i (\<lambda>u. u\<lparr>u_PasswordHash := passwordHash, u_FailedLoginCount := 0, u_LockedUntil := None\<rparr>) t)))
       (\<lambda>n. if n = 0 then failE ErrNotFound else retE ())"

section \<open>Lemmas\<close>

text \<open>The keys of the table and the single administrator.\<close>

definition user_inv :: "tables \<Rightarrow> bool" where
  "user_inv t \<longleftrightarrow> distinct (map u_ID (users t)) \<and> distinct (map u_Email (users t)) \<and> admin_count t \<le> 1"

lemma insert_user_ok:
  assumes "insert_user inp s = (Inr u, s')"
  shows "u_Role u = cu_Role inp \<and> u_Email u = to_lower (cu_Email inp) \<and> u_PasswordHash u = cu_PasswordHash inp \<and>
    u_DisplayName u = cu_DisplayName inp \<and> u_ID u \<notin> u_ID ` set (users (tabs s)) \<and>
    u_Email u \<notin> u_Email ` set (users (tabs s)) \<and> tabs s' = (tabs s)\<lparr>users := users (tabs s) @ [u]\<rparr>"
  using assms unfolding insert_user_def
  by (auto simp: Let_def split: if_splits dest!: db_insert_ok)

lemma lockAdminSlot_ok:
  "lockAdminSlot s = (Inr u, s') \<Longrightarrow> admin_count (tabs s) = 0 \<and> tabs s' = tabs s"
  unfolding lockAdminSlot_def countAdmins_def
  by (auto simp: run_simps split: prod.splits sum.splits if_splits dest!: db_select_ok)

lemma User_Create_ok:
  assumes "User_Create inp s = (Inr u, s')"
  shows "\<exists>s0 s1. insert_user inp s0 = (Inr u, s1) \<and> tabs s0 = tabs s \<and> tabs s' = tabs s1 \<and>
    (cu_Role inp = UserRoleAdmin \<longrightarrow> admin_count (tabs s) = 0)"
proof -
  obtain fs s1 where tx: "tabs s' = tabs s1"
    "bindE (if cu_Role inp = UserRoleAdmin then lockAdminSlot else retE ()) (\<lambda>_.
       tryE (insert_user inp) (\<lambda>r. case r of
           Inl err \<Rightarrow> if isUniqueViolation err then failE ErrDuplicateEmail
                      else failE (ErrWrap ''insert user'' err)
         | Inr u \<Rightarrow> retE u)) (s\<lparr>db_faults := fs\<rparr>) = (Inr u, s1)"
    using in_tx_ok [OF assms [unfolded User_Create_def]] by blast
  from tx(2) obtain s0 where "insert_user inp s0 = (Inr u, s1)" "tabs s0 = tabs s"
    "cu_Role inp = UserRoleAdmin \<longrightarrow> admin_count (tabs s) = 0"
    by (auto simp: run_iffs split: if_split_asm dest!: lockAdminSlot_ok)
  with tx(1) show ?thesis by auto
qed

lemma User_Create_inv:
  assumes "User_Create inp s = (r, s')" and "user_inv (tabs s)"
  shows "user_inv (tabs s')"
proof (cases r)
  case (Inl e)
  from in_tx_err [OF assms(1) [unfolded Inl User_Create_def]] assms(2) show ?thesis by simp
next
  case (Inr u)
  from User_Create_ok [OF assms(1) [unfolded Inr]] obtain s0 s1 where
    i: "insert_user inp s0 = (Inr u, s1)" and t: "tabs s0 = tabs s" "tabs s' = tabs s1"
      "cu_Role inp = UserRoleAdmin \<longrightarrow> admin_count (tabs s) = 0" by blast
  from insert_user_ok [OF i] t have "u_Role u = cu_Role inp" "u_ID u \<notin> u_ID ` set (users (tabs s))"
    "u_Email u \<notin> u_Email ` set (users (tabs s))" "tabs s' = (tabs s)\<lparr>users := users (tabs s) @ [u]\<rparr>"
    by (metis, metis, metis, metis)
  then show ?thesis
    using assms(2) t(3) by (simp add: user_inv_def admin_count_def)
qed

lemma admin_count_update:
  assumes "distinct (map u_ID (users t))" and "u \<in> set (users t)" and "u_ID u = i"
  shows "admin_count (update_users i f t) + (if u_Role u = UserRoleAdmin then 1 else 0) =
    admin_count t + (if u_Role (f u) = UserRoleAdmin then 1 else 0)"
proof -
  obtain xs ys where us: "users t = xs @ u # ys"
    using assms(2) by (meson split_list)
  then have "\<forall>v \<in> set xs \<union> set ys. u_ID v \<noteq> i"
    using assms(1, 3) by (auto simp: image_iff)
  then have "map (\<lambda>u. if u_ID u = i then f u else u) (users t) = xs @ f u # ys"
    using us assms(3) by (auto intro!: map_idI)
  then show ?thesis
    using us by (simp add: admin_count_def update_users_def)
qed

lemma map_update_users:
  "(\<And>u. g (f u) = g u) \<Longrightarrow> map g (users (update_users i f t)) = map g (users t)"
  by (auto simp: update_users_def)

lemma update_user_returning_ok:
  assumes "update_user_returning i f s = (Inr u, s')"
  shows "tabs s' = update_users i f (tabs s) \<and> (\<exists>v \<in> set (users (tabs s)). u_ID v = i \<and> u = f v)"
proof -
  obtain xs where xs: "map f (filter (\<lambda>u. u_ID u = i) (users (tabs s))) = u # xs"
    "tabs s' = update_users i f (tabs s)"
    using assms unfolding update_user_returning_def by (auto simp: first_row_iff dest!: db_update_ok)
  have "u \<in> set (map f (filter (\<lambda>u. u_ID u = i) (users (tabs s))))"
    unfolding xs by simp
  with xs(2) show ?thesis by auto
qed

lemma getForUpdate_ok:
  assumes "getForUpdate i s = (Inr u, s')"
  shows "u \<in> set (users (tabs s)) \<and> u_ID u = i \<and> tabs s' = tabs s"
  using assms unfolding getForUpdate_def or_not_found_ok by (rule query_row_filter)

lemma User_Update_cases:
  assumes "User_Update i inp now s = (Inr u, s')"
  obtains cur role f s0 s1 where "cur \<in> set (users (tabs s))" "u_ID cur = i"
    "tabs s0 = tabs s" "tabs s' = tabs s1" "update_user_returning i f s0 = (Inr u, s1)"
    "\<And>v. u_ID (f v) = u_ID v \<and> u_Email (f v) = u_Email v \<and> u_Role (f v) = role"
    "role = (case uu_Role inp of None \<Rightarrow> u_Role cur | Some r \<Rightarrow> r)"
    "role = UserRoleAdmin \<and> u_Role cur \<noteq> UserRoleAdmin \<longrightarrow> admin_count (tabs s) = 0"
proof -
  obtain fs s1 where tx: "tabs s' = tabs s1" and run:
    "User_Update_body i inp now (s\<lparr>db_faults := fs\<rparr>) = (Inr u, s1)"
    using in_tx_ok [OF assms [unfolded User_Update_def]] by blast
  from run obtain cur s2 role s0 where cur: "getForUpdate i (s\<lparr>db_faults := fs\<rparr>) = (Inr cur, s2)"
    and s0: "tabs s0 = tabs s2"
    and role: "role = (case uu_Role inp of None \<Rightarrow> u_Role cur | Some r \<Rightarrow> r)"
      "role = UserRoleAdmin \<and> u_Role cur \<noteq> UserRoleAdmin \<longrightarrow> admin_count (tabs s2) = 0"
    and upd: "update_user_returning i (\<lambda>u.
       u\<lparr>u_DisplayName := updated_name inp cur, u_Role := role,
         u_DisabledAt := map_option pg_time (updated_disabled inp now cur)\<rparr>) s0 = (Inr u, s1)"
    by (cases "uu_Role inp")
       (auto simp: User_Update_body_def run_iffs split: if_split_asm dest!: lockAdminSlot_ok)
  have c: "cur \<in> set (users (tabs s))" "u_ID cur = i" "tabs s2 = tabs s"
    using getForUpdate_ok [OF cur] by simp_all
  show ?thesis
    by (rule that [OF c(1, 2) s0 [unfolded c] tx upd _ role [unfolded c]]) simp
qed

lemma User_Update_inv:
  assumes "User_Update i inp now s = (r, s')" and "user_inv (tabs s)"
  shows "user_inv (tabs s')"
proof (cases r)
  case (Inl e)
  from in_tx_err [OF assms(1) [unfolded Inl User_Update_def]] assms(2) show ?thesis by simp
next
  case (Inr u)
  from assms(1) [unfolded Inr] show ?thesis
  proof (cases rule: User_Update_cases)
    case (1 cur role f s0 s1)
    have t: "tabs s' = update_users i f (tabs s)"
      using update_user_returning_ok [OF 1(5)] 1(3, 4) by simp
    have "admin_count (update_users i f (tabs s)) \<le> 1"
      using admin_count_update [OF _ 1(1, 2), of f] assms(2) 1(6) [of cur] 1(8)
      by (auto simp: user_inv_def split: if_split_asm)
    then show ?thesis
      using assms(2) 1(6) by (simp add: t user_inv_def map_update_users)
  qed
qed

lemma ResetPassword_inv:
  assumes "ResetPassword i h s = (r, s')" and "user_inv (tabs s)"
  shows "user_inv (tabs s')"
proof -
  let ?f = "\<lambda>u. u\<lparr>u_PasswordHash := h, u_FailedLoginCount := 0, u_LockedUntil := None\<rparr>"
  have "tabs s' = tabs s \<or> tabs s' = update_users i ?f (tabs s)"
    using assms(1) unfolding ResetPassword_def
    by (cases r) (auto simp: run_iffs split: if_split_asm dest!: db_update_ok db_update_err)
  moreover have "admin_count (update_users i ?f t) = admin_count t" for t
    by (auto simp: admin_count_def update_users_def filter_map o_def intro!: arg_cong [of _ _ length]
        filter_cong)
  ultimately show ?thesis
    using assms(2) by (auto simp: user_inv_def map_update_users)
qed


text \<open>An address that is taken, when nothing else fails.\<close>

lemma User_Create_taken:
  assumes "db_faults s = []" and "cu_Role inp \<noteq> UserRoleAdmin"
    and "to_lower (cu_Email inp) \<in> u_Email ` set (users (tabs s))"
  shows "fst (User_Create inp s) = Inl (ErrWrap ''insert user'' unique_violation)"
  using assms
  by (simp add: User_Create_def in_tx_def run_simps stmt_def insert_user_def db_insert_def Let_def
      isUniqueViolation_def unique_violation_def)

section \<open>Properties\<close>

text \<open>The operations that write the table, one after the other.\<close>

datatype user_op =
    OpCreate CreateUserInput
  | OpUpdate uuid UpdateUserInput time
  | OpReset uuid string

definition run_user_op :: "user_op \<Rightarrow> dbst \<Rightarrow> dbst" where
  "run_user_op op s =
     (case op of
        OpCreate inp \<Rightarrow> snd (User_Create inp s)
      | OpUpdate i inp now \<Rightarrow> snd (User_Update i inp now s)
      | OpReset i h \<Rightarrow> snd (ResetPassword i h s))"

lemma run_user_op_inv: "user_inv (tabs s) \<Longrightarrow> user_inv (tabs (run_user_op op s))"
  unfolding run_user_op_def
  by (cases op) (simp_all add: User_Create_inv [OF surjective_pairing]
      User_Update_inv [OF surjective_pairing] ResetPassword_inv [OF surjective_pairing])

interpretation user_ops: invariant_ops run_user_op "\<lambda>s. user_inv (tabs s)"
  by unfold_locales (rule run_user_op_inv)

text \<open>
  C4. Whatever users are created, changed and reset, and whichever statements or commits fail,
  the table never holds two administrators, two rows of one id or two of one e-mail address.
\<close>

theorem single_admin:
  assumes "user_inv (tabs s)"
  shows "admin_count (tabs (fold run_user_op ops s)) \<le> 1 \<and> user_inv (tabs (fold run_user_op ops s))"
  using user_ops.run_inv [OF assms, of ops] by (simp add: user_inv_def)

definition root_input :: CreateUserInput where
  "root_input = \<lparr>cu_Email = ''Root@x'', cu_PasswordHash = ''h'', cu_Role = UserRoleAdmin, cu_DisplayName = None\<rparr>"

theorem single_admin_witness:
  "admin_count (tabs (fold run_user_op [OpCreate root_input, OpCreate root_input] (db_of empty_tables))) \<le> 1 \<and>
   admin_count (tabs (run_user_op (OpCreate root_input) (db_of empty_tables))) = 1"
proof -
  have "user_inv (tabs (db_of empty_tables))"
    by (simp add: user_inv_def db_of_def empty_tables_def admin_count_def)
  moreover have "admin_count (tabs (run_user_op (OpCreate root_input) (db_of empty_tables))) = 1"
    by code_simp
  ultimately show ?thesis
    using single_admin by blast
qed

text \<open>
  Creating a user adds one row, with the address in lower case and under an id and an
  address that were free, and an administrator only where there was none; a call that fails
  leaves the tables as they were.
\<close>

theorem user_create:
  assumes "User_Create inp s = (r, s')"
  shows "case r of
      Inl _ \<Rightarrow> tabs s' = tabs s
    | Inr u \<Rightarrow> tabs s' = (tabs s)\<lparr>users := users (tabs s) @ [u]\<rparr> \<and>
        u_Email u = to_lower (cu_Email inp) \<and> u_Role u = cu_Role inp \<and> u_PasswordHash u = cu_PasswordHash inp \<and>
        u_ID u \<notin> u_ID ` set (users (tabs s)) \<and> u_Email u \<notin> u_Email ` set (users (tabs s)) \<and>
        (cu_Role inp = UserRoleAdmin \<longrightarrow> admin_count (tabs s) = 0)"
proof (cases r)
  case (Inl e)
  from in_tx_err [OF assms [unfolded Inl User_Create_def]] show ?thesis by (simp add: Inl)
next
  case (Inr u)
  from User_Create_ok [OF assms [unfolded Inr]] obtain s0 s1 where
    i: "insert_user inp s0 = (Inr u, s1)" and t: "tabs s0 = tabs s" "tabs s' = tabs s1"
      "cu_Role inp = UserRoleAdmin \<longrightarrow> admin_count (tabs s) = 0" by blast
  from insert_user_ok [OF i] t show ?thesis unfolding Inr sum.case by metis
qed

theorem user_create_witness:
  "\<exists>u s'. User_Create root_input (db_of empty_tables) = (Inr u, s') \<and> users (tabs s') = [u] \<and> u_Email u = ''root@x''"
proof -
  let ?c = "User_Create root_input (db_of empty_tables)"
  obtain u where u: "fst ?c = Inr u"
    by (simp add: User_Create_def in_tx_def lockAdminSlot_def countAdmins_def db_select_def stmt_def insert_user_def
        db_insert_def run_simps db_of_def empty_tables_def admin_count_def root_input_def Let_def)
  have e: "users (tabs (db_of empty_tables)) = []" "to_lower (cu_Email root_input) = ''root@x''"
    by (simp add: db_of_def empty_tables_def) code_simp
  have c: "?c = (Inr u, snd ?c)" by (simp add: u [symmetric])
  show ?thesis
    by (rule exI [of _ u], rule exI [of _ "snd ?c"], use c user_create [OF c] e in auto)
qed

end
