(* ===== verification/Api_Auth.thy ===== *)
theory Api_Auth
  imports Http Authkit Store_Users Go_Json
begin

text \<open>
  Login, sessions and two-factor authentication of the API,
  \<open>services/api/internal/httpapi/auth.go\<close> and \<open>totp.go\<close>. The handlers run on the database; the
  clock of the process is the argument \<open>now\<close>, the one of the database \<open>db_now\<close>.
\<close>

section \<open>The server\<close>

definition hour :: time where
  "hour = 3600 * second"

definition defaultSessionTTL :: time where
  "defaultSessionTTL = 24 * hour"

definition pendingTTL :: time where
  "pendingTTL = 300 * second"

definition maxFailedLogins :: int where
  "maxFailedLogins = 5"

definition lockDuration :: time where
  "lockDuration = 900 * second"

record Server =
  SessionSecret :: string
  CarrierSecretKey :: string
  SessionTTL :: time
  CookieSecure :: bool
  RequireAdmin2FA :: bool

text \<open>\<open>time.Duration\<close> is an \<open>int64\<close>: products wrap around.\<close>

definition wrap64 :: "int \<Rightarrow> int" where
  "wrap64 i = (i + 2 ^ 63) mod 2 ^ 64 - 2 ^ 63"

definition env_bool :: "string \<Rightarrow> bool \<Rightarrow> bool" where
  "env_bool raw dflt = (if raw = [] then dflt else raw = ''1'' \<or> to_lower raw = ''true'')"

definition NewServer :: "(string \<Rightarrow> string) \<Rightarrow> goerr + Server" where
  "NewServer env =
     (if length (env ''SESSION_SECRET'') < 32 then Inl (ErrMsg ''SESSION_SECRET must be at least 32 bytes'')
      else if env ''CARRIER_SECRET_KEY'' = [] then Inl (ErrMsg ''CARRIER_SECRET_KEY is required'')
      else case ParseKey (env ''CARRIER_SECRET_KEY'') of
        Inl _ \<Rightarrow> Inl (ErrMsg ''CARRIER_SECRET_KEY must be 32 raw bytes or 64 hex characters'')
      | Inr carrierKey \<Rightarrow>
          (case (if env ''SESSION_TTL_HOURS'' = [] then Some defaultSessionTTL
                 else case parse_int (env ''SESSION_TTL_HOURS'') of
                        None \<Rightarrow> None
                      | Some hours \<Rightarrow> if hours \<le> 0 then None else Some (wrap64 (hours * hour))) of
             None \<Rightarrow> Inl (ErrMsg ''SESSION_TTL_HOURS must be a positive integer'')
           | Some ttl \<Rightarrow>
               Inr \<lparr>SessionSecret = env ''SESSION_SECRET'', CarrierSecretKey = carrierKey, SessionTTL = ttl,
                    CookieSecure = env_bool (env ''COOKIE_SECURE'') True,
                    RequireAdmin2FA = env_bool (env ''REQUIRE_ADMIN_2FA'') True\<rparr>))"

definition corsAllowedOrigins :: "(string \<Rightarrow> string) \<Rightarrow> string list" where
  "corsAllowedOrigins env =
     (let raw = trim_space (env ''CORS_ORIGINS'') in
      if raw = [] then [''http://localhost:3000'']
      else let out = filter (\<lambda>p. p \<noteq> []) (map trim_space (split_on (CHR '','') raw))
           in if out = [] then [''http://localhost:3000''] else out)"

section \<open>Requests and replies\<close>

text \<open>What the handlers read of a request besides its body.\<close>

record request =
  rq_Method :: string
  rq_Path :: string
  rq_Cookie :: "string \<Rightarrow> string"    \<comment> \<open>empty when the cookie is missing\<close>
  rq_XFF :: string
  rq_RemoteAddr :: string

definition rq_ip :: "request \<Rightarrow> string" where
  "rq_ip r = clientIP (rq_XFF r) (rq_RemoteAddr r)"

record userResponse =
  ur_ID :: uuid
  ur_Email :: string
  ur_Role :: UserRole
  ur_DisplayName :: "string option"
  ur_TOTPEnabled :: bool
  ur_Disabled :: bool
  ur_CreatedAt :: time

definition toUserResponse :: "User \<Rightarrow> userResponse" where
  "toUserResponse u =
     \<lparr>ur_ID = u_ID u, ur_Email = u_Email u, ur_Role = u_Role u, ur_DisplayName = u_DisplayName u,
      ur_TOTPEnabled = u_TOTPEnabled u, ur_Disabled = (u_DisabledAt u \<noteq> None), ur_CreatedAt = u_CreatedAt u\<rparr>"

text \<open>The bodies of the replies, and the cookies that go with them.\<close>

datatype auth_body =
    LoginOk userResponse
  | TotpRequired
  | TotpSetupRequired userResponse
  | StatusOk
  | ReloginRequired
  | TotpSecret string string
  | Me userResponse

type_synonym 's auth_handler = "('s, auth_body \<times> cookie list) handler"

definition cookie_of :: "Server \<Rightarrow> string \<Rightarrow> string \<Rightarrow> time \<Rightarrow> cookie" where
  "cookie_of S name val ttl = \<lparr>ck_Name = name, ck_Value = val, ck_Secure = CookieSecure S, ck_MaxAge = ttl div second\<rparr>"

section \<open>Statements\<close>

definition lookupUserByEmail :: "string \<Rightarrow> User sql" where
  "lookupUserByEmail email = query_row (\<lambda>t _. filter (\<lambda>u. to_lower (u_Email u) = email) (users t))"

definition lookupUserByID :: "uuid \<Rightarrow> User sql" where
  "lookupUserByID i = query_row (\<lambda>t _.
     map (\<lambda>u. u\<lparr>u_DisplayName := None, u_DisabledAt := None\<rparr>) (filter (\<lambda>u. u_ID u = i) (users t)))"

definition session_users :: "string \<Rightarrow> tables \<Rightarrow> time \<Rightarrow> User list" where
  "session_users h t now =
     concat (map (\<lambda>s. if s_TokenHash s = h \<and> s_ExpiresAt s > now then filter (\<lambda>u. u_ID u = s_UserID s) (users t) else [])
       (sessions t))"

definition lookupUserBySessionToken :: "crypto \<Rightarrow> string \<Rightarrow> User sql" where
  "lookupUserBySessionToken C plain = query_row (session_users (HashToken C plain))"

definition new_session :: "uuid \<Rightarrow> string \<Rightarrow> time \<Rightarrow> uuid \<Rightarrow> time \<Rightarrow> Session" where
  "new_session uid tokenHash expiresAt i now =
     \<lparr>s_ID = i, s_UserID = uid, s_TokenHash = tokenHash, s_ExpiresAt = pg_time expiresAt, s_CreatedAt = now\<rparr>"

definition insert_session_stmt :: "uuid \<Rightarrow> string \<Rightarrow> time \<Rightarrow> uuid \<Rightarrow> time \<Rightarrow> tables \<Rightarrow> goerr + unit \<times> tables" where
  "insert_session_stmt uid tokenHash expiresAt i now t =
     (if i \<in> s_ID ` set (sessions t) \<or> tokenHash \<in> s_TokenHash ` set (sessions t) then Inl unique_violation
      else if uid \<notin> u_ID ` set (users t) then Inl foreign_key_violation
      else Inr ((), t\<lparr>sessions := sessions t @ [new_session uid tokenHash expiresAt i now]\<rparr>))"

definition insertSession :: "uuid \<Rightarrow> string \<Rightarrow> time \<Rightarrow> unit sql" where
  "insertSession uid tokenHash expiresAt = db_insert (insert_session_stmt uid tokenHash expiresAt)"

definition insertAudit :: "uuid option \<Rightarrow> string \<Rightarrow> string \<Rightarrow> string \<Rightarrow> unit sql" where
  "insertAudit uid event ip meta = db_insert (\<lambda>_ now t.
     if uid \<noteq> None \<and> the uid \<notin> u_ID ` set (users t) then Inl foreign_key_violation
     else Inr ((), t\<lparr>audit_logs := audit_logs t @
       [\<lparr>a_ID = length (audit_logs t) + 1, a_UserID = uid, a_Event = event,
         a_IP = (if ip = [] then None else Some ip), a_Meta = meta, a_CreatedAt = now\<rparr>]\<rparr>))"

definition set_lock :: "int \<Rightarrow> time option \<Rightarrow> User \<Rightarrow> User" where
  "set_lock n locked u = u\<lparr>u_FailedLoginCount := n, u_LockedUntil := map_option pg_time locked\<rparr>"

definition recordFailedLogin :: "User \<Rightarrow> string \<Rightarrow> time \<Rightarrow> unit sql" where
  "recordFailedLogin user ip now =
     (let failed = u_FailedLoginCount user + 1;
          (failed, lockedUntil) = (if failed \<ge> maxFailedLogins then (0, Some (now + lockDuration)) else (failed, None))
      in bindE (db_update (\<lambda>t. Inr ((), update_users (u_ID user) (set_lock failed lockedUntil) t))) (\<lambda>_.
         insertAudit (Some (u_ID user)) ''login_failed'' ip (json_object [(''email'', u_Email user)])))"

definition resetFailedLogin :: "uuid \<Rightarrow> unit sql" where
  "resetFailedLogin uid = db_update (\<lambda>t. Inr ((), update_users uid (set_lock 0 None) t))"

definition deleteSession :: "crypto \<Rightarrow> string \<Rightarrow> unit sql" where
  "deleteSession C plain = db_update (\<lambda>t.
     Inr ((), t\<lparr>sessions := filter (\<lambda>s. s_TokenHash s \<noteq> HashToken C plain) (sessions t)\<rparr>))"

section \<open>Login\<close>

record loginRequest =
  lr_Email :: string
  lr_Password :: string

text \<open>A new session with its cookie: the token is drawn (\<open>rnd\<close>) and stored by its hash.\<close>

definition open_session :: "crypto \<Rightarrow> Server \<Rightarrow> User \<Rightarrow> string option \<Rightarrow> time \<Rightarrow> (string \<Rightarrow> dbst auth_handler) \<Rightarrow> dbst auth_handler" where
  "open_session C S user rnd now k =
     (case NewSessionToken C rnd of
        Inl _ \<Rightarrow> internal_error
      | Inr (plain, hash) \<Rightarrow>
          callH (insertSession (u_ID user) hash (now + SessionTTL S)) (\<lambda>_. internal_error) (\<lambda>_. k plain))"

definition after_password :: "crypto \<Rightarrow> uuid_lib \<Rightarrow> Server \<Rightarrow> request \<Rightarrow> string option \<Rightarrow> time \<Rightarrow> User \<Rightarrow> dbst auth_handler" where
  "after_password C U S rq rnd now user =
     callH (resetFailedLogin (u_ID user)) (\<lambda>_. internal_error) (\<lambda>_.
     if u_TOTPEnabled user then
       (case NewPendingToken C U (u_ID user) (SessionSecret S) pendingTTL now of
          Inl _ \<Rightarrow> internal_error
        | Inr token \<Rightarrow>
            replyH 200 (TotpRequired,
              [cookie_of S CookiePending token pendingTTL, clearCookie CookieSession (CookieSecure S)]))
     else if RequireAdmin2FA S \<and> u_Role user = UserRoleAdmin then
       open_session C S user rnd now (\<lambda>plain.
         replyH 200 (TotpSetupRequired (toUserResponse user),
           [cookie_of S CookieSession plain (SessionTTL S), clearCookie CookiePending (CookieSecure S)]))
     else
       open_session C S user rnd now (\<lambda>plain.
         ignoreH (insertAudit (Some (u_ID user)) ''login_ok'' (rq_ip rq) ''{}'')
           (replyH 200 (LoginOk (toUserResponse user),
              [cookie_of S CookieSession plain (SessionTTL S), clearCookie CookiePending (CookieSecure S)]))))"

definition handleLogin :: "crypto \<Rightarrow> uuid_lib \<Rightarrow> Server \<Rightarrow> request \<Rightarrow> loginRequest option \<Rightarrow> string option \<Rightarrow> time \<Rightarrow> dbst auth_handler" where
  "handleLogin C U S rq body rnd now =
     (case body of
        None \<Rightarrow> failH 400 ''invalid_json''
      | Some req \<Rightarrow>
          (let email = trim_space (to_lower (lr_Email req)) in
           if email = [] \<or> lr_Password req = [] then failH 400 ''email_and_password_required''
           else callH (lookupUserByEmail email)
             (\<lambda>e. if errors_is e SqlNoRows then failH 401 ''invalid_credentials'' else internal_error)
             (\<lambda>user.
                if u_DisabledAt user \<noteq> None then failH 403 ''account_disabled''
                else if (case u_LockedUntil user of None \<Rightarrow> False | Some l \<Rightarrow> l > now) then failH 423 ''account_locked''
                else case VerifyPassword C (u_PasswordHash user) (lr_Password req) of
                  None \<Rightarrow> (\<lambda>s. (Panicked, s))
                | Some False \<Rightarrow>
                    ignoreH (recordFailedLogin user (rq_ip rq) now) (failH 401 ''invalid_credentials'')
                | Some True \<Rightarrow> after_password C U S rq rnd now user)))"

definition handleLogout :: "crypto \<Rightarrow> Server \<Rightarrow> request \<Rightarrow> dbst auth_handler" where
  "handleLogout C S rq =
     (let k = replyH 200 (StatusOk, [clearCookie CookieSession (CookieSecure S), clearCookie CookiePending (CookieSecure S)])
      in if rq_Cookie rq CookieSession \<noteq> [] then ignoreH (deleteSession C (rq_Cookie rq CookieSession)) k else k)"

definition handleMe :: "User option \<Rightarrow> dbst auth_handler" where
  "handleMe user =
     (case user of
        None \<Rightarrow> failH 401 ''unauthorized''
      | Some u \<Rightarrow> replyH 200 (Me (toUserResponse u), []))"

section \<open>The session middleware\<close>

definition adminTOTPSetupRequired :: "Server \<Rightarrow> User \<Rightarrow> bool" where
  "adminTOTPSetupRequired S user \<longleftrightarrow> RequireAdmin2FA S \<and> u_Role user = UserRoleAdmin \<and> \<not> u_TOTPEnabled user"

definition admin2FAEnrollmentAllowed :: "request \<Rightarrow> bool" where
  "admin2FAEnrollmentAllowed rq \<longleftrightarrow> rq_Method rq = ''POST'' \<and>
     rq_Path rq \<in> set [''/auth/2fa/setup'', ''/auth/2fa/enable'', ''/auth/logout'']"

definition RequireSession :: "crypto \<Rightarrow> Server \<Rightarrow> request \<Rightarrow> (User \<Rightarrow> (dbst, 'b) handler) \<Rightarrow> (dbst, 'b) handler" where
  "RequireSession C S rq next' =
     (if rq_Cookie rq CookieSession = [] then failH 401 ''unauthorized''
      else callH (lookupUserBySessionToken C (rq_Cookie rq CookieSession)) (\<lambda>_. failH 401 ''unauthorized'') (\<lambda>user.
        if u_DisabledAt user \<noteq> None then failH 403 ''account_disabled''
        else if adminTOTPSetupRequired S user \<and> \<not> admin2FAEnrollmentAllowed rq then failH 403 ''totp_setup_required''
        else next' user))"

text \<open>\<open>RequireAdmin\<close> (carriers.go), \<open>RequireSupervisor\<close> (campaigns.go), \<open>RequireAgent\<close> (agent\_ops.go).\<close>

definition require_role :: "UserRole set \<Rightarrow> (User \<Rightarrow> (dbst, 'b) handler) \<Rightarrow> User \<Rightarrow> (dbst, 'b) handler" where
  "require_role roles next' user = (if u_Role user \<notin> roles then failH 403 ''forbidden'' else next' user)"

definition RequireAdmin :: "(User \<Rightarrow> (dbst, 'b) handler) \<Rightarrow> User \<Rightarrow> (dbst, 'b) handler" where
  "RequireAdmin = require_role {UserRoleAdmin}"

definition RequireSupervisor :: "(User \<Rightarrow> (dbst, 'b) handler) \<Rightarrow> User \<Rightarrow> (dbst, 'b) handler" where
  "RequireSupervisor = require_role {UserRoleAdmin, UserRoleSupervisor}"

section \<open>Two-factor authentication\<close>

definition decryptTOTPSecret :: "crypto \<Rightarrow> Server \<Rightarrow> User \<Rightarrow> goerr + string" where
  "decryptTOTPSecret C S user =
     (case u_TOTPSecretEncrypted user of
        None \<Rightarrow> Inl (ErrMsg ''totp secret missing'')
      | Some blob \<Rightarrow> if blob = [] then Inl (ErrMsg ''totp secret missing'') else Decrypt C (CarrierSecretKey S) blob)"

text \<open>The library generates the secret.\<close>

definition handleTOTPSetup ::
  "crypto \<Rightarrow> Server \<Rightarrow> User \<Rightarrow> (GenerateOpts \<Rightarrow> goerr + string) \<Rightarrow> string option \<Rightarrow> dbst auth_handler" where
  "handleTOTPSetup C S user generate nonce =
     (if u_TOTPEnabled user then failH 409 ''totp_already_enabled''
      else case GenerateTOTPSecret generate of
        Inl _ \<Rightarrow> internal_error
      | Inr secret \<Rightarrow>
          (case Encrypt C (CarrierSecretKey S) secret nonce of
             Inl _ \<Rightarrow> internal_error
           | Inr encrypted \<Rightarrow>
               callH (db_update (\<lambda>t. Inr ((), update_users (u_ID user)
                   (\<lambda>u. u\<lparr>u_TOTPSecretEncrypted := Some encrypted, u_TOTPEnabled := False\<rparr>) t)))
                 (\<lambda>_. internal_error) (\<lambda>_.
               replyH 200 (TotpSecret secret (OTPAuthURL secret (u_Email user)), []))))"

definition handleTOTPEnable :: "crypto \<Rightarrow> Server \<Rightarrow> request \<Rightarrow> User \<Rightarrow> string option \<Rightarrow> time \<Rightarrow> dbst auth_handler" where
  "handleTOTPEnable C S rq user body now =
     (if u_TOTPEnabled user then failH 409 ''totp_already_enabled''
      else case body of
        None \<Rightarrow> failH 400 ''code_required''
      | Some code \<Rightarrow>
          if code = [] then failH 400 ''code_required''
          else callH (lookupUserByID (u_ID user)) (\<lambda>_. internal_error) (\<lambda>fresh.
            case decryptTOTPSecret C S fresh of
              Inl _ \<Rightarrow> failH 400 ''totp_not_setup''
            | Inr secret \<Rightarrow>
                if \<not> ValidateTOTP C secret code now then
                  ignoreH (insertAudit (Some (u_ID user)) ''totp_failed'' (rq_ip rq) ''{}'') (failH 401 ''invalid_totp'')
                else
                  callH (db_update (\<lambda>t. Inr ((), update_users (u_ID user) (\<lambda>u. u\<lparr>u_TOTPEnabled := True\<rparr>) t)))
                    (\<lambda>_. internal_error) (\<lambda>_.
                  if u_Role user = UserRoleAdmin then
                    (let k = replyH 200 (ReloginRequired, [clearCookie CookieSession (CookieSecure S)])
                     in if rq_Cookie rq CookieSession \<noteq> [] then ignoreH (deleteSession C (rq_Cookie rq CookieSession)) k else k)
                  else replyH 200 (StatusOk, []))))"

definition handleTOTPVerify ::
  "crypto \<Rightarrow> uuid_lib \<Rightarrow> Server \<Rightarrow> request \<Rightarrow> string option \<Rightarrow> string option \<Rightarrow> time \<Rightarrow> dbst auth_handler" where
  "handleTOTPVerify C U S rq body rnd now =
     (if rq_Cookie rq CookiePending = [] then failH 401 ''pending_required''
      else case ParsePendingToken C U (rq_Cookie rq CookiePending) (SessionSecret S) now of
        Inl _ \<Rightarrow> failH 401 ''pending_invalid''
      | Inr uid \<Rightarrow>
          (case body of
             None \<Rightarrow> failH 400 ''code_required''
           | Some code \<Rightarrow>
               if code = [] then failH 400 ''code_required''
               else callH (lookupUserByID uid)
                 (\<lambda>e. if errors_is e SqlNoRows then failH 401 ''unauthorized'' else internal_error) (\<lambda>user.
                 if (case u_LockedUntil user of None \<Rightarrow> False | Some l \<Rightarrow> l > now) then failH 423 ''account_locked''
                 else if \<not> u_TOTPEnabled user then failH 400 ''totp_not_enabled''
                 else case decryptTOTPSecret C S user of
                   Inl _ \<Rightarrow> internal_error
                 | Inr secret \<Rightarrow>
                     if \<not> ValidateTOTP C secret code now then
                       ignoreH (recordFailedLogin user (rq_ip rq) now)
                         (ignoreH (insertAudit (Some (u_ID user)) ''totp_failed'' (rq_ip rq) ''{}'')
                            (failH 401 ''invalid_totp''))
                     else callH (resetFailedLogin (u_ID user)) (\<lambda>_. internal_error) (\<lambda>_.
                       open_session C S user rnd now (\<lambda>plain.
                         ignoreH (insertAudit (Some (u_ID user)) ''login_ok'' (rq_ip rq) ''{}'')
                           (replyH 200 (LoginOk (toUserResponse user),
                              [cookie_of S CookieSession plain (SessionTTL S), clearCookie CookiePending (CookieSecure S)])))))))"


section \<open>Lemmas\<close>

definition not_locked :: "User \<Rightarrow> time \<Rightarrow> bool" where
  "not_locked u now \<longleftrightarrow> (case u_LockedUntil u of None \<Rightarrow> True | Some l \<Rightarrow> l \<le> now)"

lemma insertAudit_frame:
  assumes "insertAudit uid ev ip meta s = (r, s')"
  shows "sessions (tabs s') = sessions (tabs s) \<and> users (tabs s') = users (tabs s)"
  using db_insert_any [OF assms [unfolded insertAudit_def]] by (auto split: if_split_asm)

lemma update_users_frame:
  assumes "db_update (\<lambda>t. Inr ((), update_users i f t)) s = (r, s')"
  shows "sessions (tabs s') = sessions (tabs s)"
  using db_update_any [OF assms] by (auto simp: update_users_def)

lemma resetFailedLogin_frame:
  "resetFailedLogin uid s = (r, s') \<Longrightarrow> sessions (tabs s') = sessions (tabs s)"
  unfolding resetFailedLogin_def by (rule update_users_frame)

lemma recordFailedLogin_frame:
  "recordFailedLogin u ip now s = (r, s') \<Longrightarrow> sessions (tabs s') = sessions (tabs s)"
  unfolding recordFailedLogin_def Let_def
  by (auto simp: bindE_iff split: prod.split_asm dest!: update_users_frame insertAudit_frame)

lemma new_session_sel [simp]:
  "s_UserID (new_session uid h e i now) = uid" "s_TokenHash (new_session uid h e i now) = h"
  "s_ExpiresAt (new_session uid h e i now) = pg_time e"
  by (simp_all add: new_session_def)

lemma insertSession_ok:
  assumes "insertSession uid h e s = (Inr x, s')"
  shows "\<exists>n. sessions (tabs s') = sessions (tabs s) @ [n] \<and> s_UserID n = uid \<and> s_TokenHash n = h \<and>
    s_ExpiresAt n = pg_time e \<and> users (tabs s') = users (tabs s) \<and> h \<notin> s_TokenHash ` set (sessions (tabs s))"
  using db_insert_Inr [OF assms [unfolded insertSession_def]]
  by (intro exI [of _ "new_session uid h e (db_rand s (db_drawn s)) (db_now s)"])
     (auto simp: insert_session_stmt_def split: if_split_asm)

lemma insertSession_err: "insertSession uid h e s = (Inl x, s') \<Longrightarrow> tabs s' = tabs s"
  unfolding insertSession_def by (rule db_insert_err)

text \<open>What a reply with a body says about \<open>open_session\<close>.\<close>

lemma open_session_reply:
  assumes "open_session C S user rnd now k s = (q, s')"
  shows "(q = Fail 500 ''internal_error'' \<and> tabs s' = tabs s) \<or>
    (\<exists>buf s1. rnd = Some buf \<and> k (b64_encode RawURL buf) s1 = (q, s') \<and>
       insertSession (u_ID user) (HashToken C (b64_encode RawURL buf)) (now + SessionTTL S) s = (Inr (), s1))"
  using assms unfolding open_session_def NewSessionToken_def
  by (cases rnd) (auto simp: Let_def handler_iffs dest: insertSession_err)

text \<open>Whom a session token lets in.\<close>

definition session_of :: "tables \<Rightarrow> time \<Rightarrow> string \<Rightarrow> User \<Rightarrow> bool" where
  "session_of t now h u \<longleftrightarrow> u \<in> set (users t) \<and>
     (\<exists>s \<in> set (sessions t). s_TokenHash s = h \<and> s_ExpiresAt s > now \<and> s_UserID s = u_ID u)"

lemma lookupUserBySessionToken_ok:
  assumes "lookupUserBySessionToken C plain s = (Inr u, s')"
  shows "session_of (tabs s) (db_now s) (HashToken C plain) u \<and> tabs s' = tabs s"
proof -
  obtain xs where xs: "session_users (HashToken C plain) (tabs s) (db_now s) = u # xs" "tabs s' = tabs s"
    using query_row_ok [OF assms [unfolded lookupUserBySessionToken_def]] by blast
  have "u \<in> set (session_users (HashToken C plain) (tabs s) (db_now s))" unfolding xs(1) by simp
  with xs(2) show ?thesis
    by (auto simp: session_users_def session_of_def split: if_split_asm)
qed

lemma RequireSession_cases:
  assumes "RequireSession C S rq next' s = (q, s')"
  shows "(q \<in> {Fail 401 ''unauthorized'', Fail 403 ''account_disabled'', Fail 403 ''totp_setup_required''} \<and> tabs s' = tabs s) \<or>
    (\<exists>u s1. next' u s1 = (q, s') \<and> tabs s1 = tabs s \<and>
       session_of (tabs s) (db_now s) (HashToken C (rq_Cookie rq CookieSession)) u \<and> u_DisabledAt u = None \<and>
       (adminTOTPSetupRequired S u \<longrightarrow> admin2FAEnrollmentAllowed rq))"
proof -
  have err: "lookupUserBySessionToken C x s = (Inl e, s') \<Longrightarrow> tabs s' = tabs s" for x e s'
    unfolding lookupUserBySessionToken_def by (rule query_row_tabs)
  show ?thesis
    using assms unfolding RequireSession_def
    by (auto simp: handler_iffs split: if_split_asm dest: err dest!: lookupUserBySessionToken_ok)
qed

section \<open>Properties\<close>

text \<open>
  A handler behind the session check, and behind a role check, runs only for a user with a
  session of that token that has not expired, who is not disabled and has the role; an
  administrator who still has to enrol the second factor reaches the enrolment routes only.
  Every other request is refused and changes no table.
\<close>

theorem session_guard:
  assumes "RequireSession C S rq (require_role roles handler) s = (q, s')"
  shows "(q \<in> {Fail 401 ''unauthorized'', Fail 403 ''account_disabled'', Fail 403 ''totp_setup_required'',
               Fail 403 ''forbidden''} \<and> tabs s' = tabs s) \<or>
    (\<exists>u s1. handler u s1 = (q, s') \<and> tabs s1 = tabs s \<and>
       session_of (tabs s) (db_now s) (HashToken C (rq_Cookie rq CookieSession)) u \<and>
       u_Role u \<in> roles \<and> u_DisabledAt u = None \<and>
       (RequireAdmin2FA S \<and> u_Role u = UserRoleAdmin \<and> \<not> u_TOTPEnabled u \<longrightarrow>
          rq_Method rq = ''POST'' \<and> rq_Path rq \<in> {''/auth/2fa/setup'', ''/auth/2fa/enable'', ''/auth/logout''}))"
  using RequireSession_cases [OF assms]
  by (auto simp: require_role_def adminTOTPSetupRequired_def admin2FAEnrollmentAllowed_def split: if_split_asm)

definition demo_server :: Server where
  "demo_server = \<lparr>SessionSecret = replicate 32 (CHR ''k''), CarrierSecretKey = replicate 32 (CHR ''c''),
     SessionTTL = 1000 * second, CookieSecure = True, RequireAdmin2FA = True\<rparr>"

definition demo_request :: request where
  "demo_request = \<lparr>rq_Method = ''GET'', rq_Path = ''/admin/users'',
     rq_Cookie = (\<lambda>n. if n = CookieSession then ''tok'' else []), rq_XFF = [], rq_RemoteAddr = ''10.0.0.1:99''\<rparr>"

definition demo_user :: "UserRole \<Rightarrow> User" where
  "demo_user role = \<lparr>u_ID = 5, u_Email = ''a@b'', u_PasswordHash = ''x'', u_Role = role, u_DisplayName = None,
     u_TOTPSecretEncrypted = None, u_TOTPEnabled = False, u_FailedLoginCount = 0, u_LockedUntil = None,
     u_DisabledAt = None, u_CreatedAt = 0\<rparr>"

definition session_db :: "UserRole \<Rightarrow> dbst" where
  "session_db role = db_of (empty_tables\<lparr>users := [demo_user role], sessions :=
     [\<lparr>s_ID = 1, s_UserID = 5, s_TokenHash = HashToken ref_crypto ''tok'', s_ExpiresAt = 10, s_CreatedAt = 0\<rparr>]\<rparr>)"

theorem session_guard_witness:
  "\<exists>q s'. RequireSession ref_crypto demo_server demo_request (RequireAdmin (\<lambda>u. replyH 200 (u_ID u))) (session_db UserRoleAdmin) = (q, s') \<and>
     (\<forall>x. q \<noteq> Reply 200 x)"
proof -
  let ?m = "RequireSession ref_crypto demo_server demo_request (RequireAdmin (\<lambda>u. replyH 200 (u_ID u))) (session_db UserRoleAdmin)"
  have m: "RequireSession ref_crypto demo_server demo_request (require_role {UserRoleAdmin} (\<lambda>u. replyH 200 (u_ID u)))
      (session_db UserRoleAdmin) = (fst ?m, snd ?m)"
    by (simp add: RequireAdmin_def)
  have a: "u \<in> set (users (tabs (session_db UserRoleAdmin))) \<Longrightarrow> \<not> u_TOTPEnabled u" for u
    by (auto simp: session_db_def db_of_def demo_user_def)
  have r: "RequireAdmin2FA demo_server" "rq_Method demo_request \<noteq> ''POST''"
    by (simp_all add: demo_server_def demo_request_def)
  have "fst ?m \<noteq> Reply 200 x" for x
    using session_guard [OF m] a r by (auto simp: session_of_def)
  then show ?thesis by (intro exI [of _ "fst ?m"] exI [of _ "snd ?m"]) auto
qed


text \<open>What a login knows of the user when it goes on after the checks.\<close>

lemma lookupUserByEmail_ok:
  "lookupUserByEmail e s = (Inr u, s') \<Longrightarrow> u \<in> set (users (tabs s)) \<and> to_lower (u_Email u) = e \<and> tabs s' = tabs s"
  unfolding lookupUserByEmail_def by (rule query_row_filter)

lemma lookupUserByEmail_tabs: "lookupUserByEmail e s = (r, s') \<Longrightarrow> tabs s' = tabs s"
  unfolding lookupUserByEmail_def by (rule query_row_tabs)

lemma open_session_ok:
  assumes "open_session C S user rnd now k s = (q, s')"
    and "\<And>plain s1 s2. k plain s1 = (q, s2) \<Longrightarrow> q = Reply 200 (b plain, ck plain) \<and>
           sessions (tabs s2) = sessions (tabs s1)"
  shows "(q = Fail 500 ''internal_error'' \<and> tabs s' = tabs s) \<or>
    (\<exists>plain n. q = Reply 200 (b plain, ck plain) \<and> sessions (tabs s') = sessions (tabs s) @ [n] \<and>
       s_UserID n = u_ID user \<and> s_TokenHash n = HashToken C plain \<and> s_ExpiresAt n = pg_time (now + SessionTTL S))"
  using open_session_reply [OF assms(1)]
proof (elim disjE exE conjE)
  fix buf s1
  assume k: "k (b64_encode RawURL buf) s1 = (q, s')"
    and i: "insertSession (u_ID user) (HashToken C (b64_encode RawURL buf)) (now + SessionTTL S) s = (Inr (), s1)"
  from assms(2) [OF k] insertSession_ok [OF i] show ?thesis by auto
qed simp

definition login_checks :: "crypto \<Rightarrow> loginRequest \<Rightarrow> time \<Rightarrow> dbst \<Rightarrow> User \<Rightarrow> bool" where
  "login_checks C req now s u \<longleftrightarrow> u \<in> set (users (tabs s)) \<and>
     to_lower (u_Email u) = trim_space (to_lower (lr_Email req)) \<and> u_DisabledAt u = None \<and> not_locked u now \<and>
     VerifyPassword C (u_PasswordHash u) (lr_Password req) = Some True"

text \<open>What a login gives once the password is right.\<close>

definition login_outcome :: "crypto \<Rightarrow> Server \<Rightarrow> time \<Rightarrow> User \<Rightarrow> dbst \<Rightarrow> (auth_body \<times> cookie list) reply \<Rightarrow> dbst \<Rightarrow> bool" where
  "login_outcome C S now u s q s' \<longleftrightarrow>
     u_TOTPEnabled u \<and> sessions (tabs s') = sessions (tabs s) \<and>
       (\<exists>token. q = Reply 200 (TotpRequired, [cookie_of S CookiePending token pendingTTL, clearCookie CookieSession (CookieSecure S)])) \<or>
     \<not> u_TOTPEnabled u \<and>
       (\<exists>plain n. q = Reply 200 (if RequireAdmin2FA S \<and> u_Role u = UserRoleAdmin then TotpSetupRequired (toUserResponse u)
            else LoginOk (toUserResponse u), [cookie_of S CookieSession plain (SessionTTL S), clearCookie CookiePending (CookieSecure S)]) \<and>
          sessions (tabs s') = sessions (tabs s) @ [n] \<and> s_UserID n = u_ID u \<and> s_TokenHash n = HashToken C plain \<and>
          s_ExpiresAt n = pg_time (now + SessionTTL S))"

lemma after_password_cases:
  assumes "after_password C U S rq rnd now u s = (q, s')"
  shows "q = Fail 500 ''internal_error'' \<and> sessions (tabs s') = sessions (tabs s) \<or> login_outcome C S now u s q s'"
proof -
  from assms consider (err) "q = Fail 500 ''internal_error''" "sessions (tabs s') = sessions (tabs s)"
    | (totp) token where "u_TOTPEnabled u" "sessions (tabs s') = sessions (tabs s)"
        "q = Reply 200 (TotpRequired, [cookie_of S CookiePending token pendingTTL, clearCookie CookieSession (CookieSecure S)])"
    | (enrol) s1 where "\<not> u_TOTPEnabled u" "RequireAdmin2FA S \<and> u_Role u = UserRoleAdmin" "sessions (tabs s1) = sessions (tabs s)"
        "open_session C S u rnd now (\<lambda>plain.
            replyH 200 (TotpSetupRequired (toUserResponse u),
              [cookie_of S CookieSession plain (SessionTTL S), clearCookie CookiePending (CookieSecure S)])) s1 = (q, s')"
    | (ok) s1 where "\<not> u_TOTPEnabled u" "\<not> (RequireAdmin2FA S \<and> u_Role u = UserRoleAdmin)" "sessions (tabs s1) = sessions (tabs s)"
        "open_session C S u rnd now (\<lambda>plain.
            ignoreH (insertAudit (Some (u_ID u)) ''login_ok'' (rq_ip rq) ''{}'')
              (replyH 200 (LoginOk (toUserResponse u),
                [cookie_of S CookieSession plain (SessionTTL S), clearCookie CookiePending (CookieSecure S)]))) s1 = (q, s')"
    unfolding after_password_def
    by (auto simp: callH_iff split: if_split_asm sum.split_asm dest!: resetFailedLogin_frame)
  then show ?thesis
  proof cases
    case enrol
    from open_session_ok [OF enrol(4), of "\<lambda>_. TotpSetupRequired (toUserResponse u)"
        "\<lambda>plain. [cookie_of S CookieSession plain (SessionTTL S), clearCookie CookiePending (CookieSecure S)]"] enrol(1-3)
    show ?thesis by (auto simp: login_outcome_def)
  next
    case ok
    let ?ck = "\<lambda>plain. [cookie_of S CookieSession plain (SessionTTL S), clearCookie CookiePending (CookieSecure S)]"
    have k: "q' = Reply 200 (LoginOk (toUserResponse u), ?ck plain) \<and> sessions (tabs s2) = sessions (tabs s1)"
      if "ignoreH (insertAudit (Some (u_ID u)) ''login_ok'' (rq_ip rq) ''{}'')
            (replyH 200 (LoginOk (toUserResponse u), ?ck plain)) s1 = (q', s2)" for plain s1 s2 q'
      using that by (auto simp: ignoreH_iff dest: insertAudit_frame)
    from open_session_ok [OF ok(4), of "\<lambda>_. LoginOk (toUserResponse u)" ?ck, OF k] ok(1-3) show ?thesis
      by (auto simp: login_outcome_def)
  qed (auto simp: login_outcome_def)
qed

lemma handleLogin_cases:
  assumes "handleLogin C U S rq body rnd now s = (q, s')"
  shows "(\<exists>c e. q = Fail c e) \<and> sessions (tabs s') = sessions (tabs s) \<or> q = Panicked \<and> tabs s' = tabs s \<or>
    (\<exists>req u. body = Some req \<and> login_checks C req now s u \<and> login_outcome C S now u s q s')"
proof (cases body)
  case None
  then show ?thesis using assms by (auto simp: handleLogin_def)
next
  case (Some req)
  let ?email = "trim_space (to_lower (lr_Email req))"
  show ?thesis
  proof (cases "?email = [] \<or> lr_Password req = []")
    case True
    then show ?thesis using assms Some by (auto simp: handleLogin_def Let_def)
  next
    case False
    note run = assms [unfolded handleLogin_def Some option.case Let_def, simplified False if_False, unfolded callH_iff]
    from run show ?thesis
    proof (elim disjE exE conjE, goal_cases)
      case (1 e s1)
      then show ?case using lookupUserByEmail_tabs [OF 1(1)] by (auto split: if_split_asm)
    next
      case (2 u s1)
      note u = lookupUserByEmail_ok [OF 2(1)]
      show ?case
      proof (cases "u_DisabledAt u = None \<and> not_locked u now \<and> VerifyPassword C (u_PasswordHash u) (lr_Password req) = Some True")
        case False
        then show ?thesis
          using 2(2) u
          by (auto simp: not_locked_def handler_iffs split: if_split_asm option.split_asm bool.split_asm
              dest!: recordFailedLogin_frame)
      next
        case True
        then have "login_checks C req now s u" using u by (simp add: login_checks_def)
        moreover have nl: "\<not> (case u_LockedUntil u of None \<Rightarrow> False | Some l \<Rightarrow> now < l)"
          using True by (auto simp: not_locked_def split: option.splits)
        moreover have "login_outcome C S now u s1 q s' = login_outcome C S now u s q s'"
          using u by (simp add: login_outcome_def)
        moreover have "after_password C U S rq rnd now u s1 = (q, s')"
          using 2(2) True nl by auto
        ultimately show ?thesis
          using u Some after_password_cases [of C U S rq rnd now u s1 q s'] by auto
      qed
    qed
  qed
qed


text \<open>
  C10. A login opens a session, one row for the token in the cookie, only for a stored user whose
  account is neither disabled nor locked, whose password verifies and who has no second factor;
  with a second factor it only hands out a pending token. Every other reply is an error and
  opens no session.
\<close>

theorem login_opens_session:
  assumes "handleLogin C U S rq body rnd now s = (q, s')"
  shows "sessions (tabs s') = sessions (tabs s) \<and>
      (\<forall>c b cks. q = Reply c (b, cks) \<longrightarrow> b = TotpRequired) \<or>
    (\<exists>req u plain n. body = Some req \<and> login_checks C req now s u \<and> \<not> u_TOTPEnabled u \<and>
       sessions (tabs s') = sessions (tabs s) @ [n] \<and> s_UserID n = u_ID u \<and> s_TokenHash n = HashToken C plain \<and>
       s_ExpiresAt n = pg_time (now + SessionTTL S) \<and>
       q = Reply 200 (if RequireAdmin2FA S \<and> u_Role u = UserRoleAdmin then TotpSetupRequired (toUserResponse u)
            else LoginOk (toUserResponse u),
         [cookie_of S CookieSession plain (SessionTTL S), clearCookie CookiePending (CookieSecure S)]))"
  using handleLogin_cases [OF assms]
proof (elim disjE exE conjE)
  fix req u
  assume b: "body = Some req" and c: "login_checks C req now s u" and o: "login_outcome C S now u s q s'"
  show ?thesis
  proof (cases "u_TOTPEnabled u")
    case True
    then show ?thesis using o by (auto simp: login_outcome_def)
  next
    case False
    then obtain plain n where
      "q = Reply 200 (if RequireAdmin2FA S \<and> u_Role u = UserRoleAdmin then TotpSetupRequired (toUserResponse u)
            else LoginOk (toUserResponse u), [cookie_of S CookieSession plain (SessionTTL S), clearCookie CookiePending (CookieSecure S)])"
      "sessions (tabs s') = sessions (tabs s) @ [n]" "s_UserID n = u_ID u" "s_TokenHash n = HashToken C plain"
      "s_ExpiresAt n = pg_time (now + SessionTTL S)"
      using o unfolding login_outcome_def by blast
    with False b c show ?thesis by blast
  qed
qed auto

definition auth_db :: "User \<Rightarrow> dbst" where
  "auth_db u = db_of (empty_tables\<lparr>users := [u]\<rparr>)"

definition good_login :: loginRequest where
  "good_login = \<lparr>lr_Email = '' A@b'', lr_Password = ''secret''\<rparr>"

lemma login_example:
  assumes "VerifyPassword ref_crypto h ''secret'' = Some True"
  shows "length (sessions (tabs (snd (handleLogin ref_crypto ref_uuid demo_server demo_request (Some good_login)
      (Some ''random'') 7000 (auth_db ((demo_user UserRoleAgent)\<lparr>u_PasswordHash := h\<rparr>)))))) = 1"
proof -
  have e: "trim_space (to_lower '' A@b'') = ''a@b''" "to_lower ''a@b'' = ''a@b''" by code_simp+
  show ?thesis
    using assms
    by (simp add: handleLogin_def good_login_def Let_def e lookupUserByEmail_def auth_db_def db_of_def empty_tables_def
        demo_user_def callH_def ignoreH_def after_password_def resetFailedLogin_def open_session_def NewSessionToken_def
        insertSession_def db_insert_def insert_session_stmt_def update_users_def set_lock_def insertAudit_def)
qed

theorem login_opens_session_witness:
  "\<exists>h plain. fst (handleLogin ref_crypto ref_uuid demo_server demo_request (Some good_login) (Some ''random'') 7000
      (auth_db ((demo_user UserRoleAgent)\<lparr>u_PasswordHash := h\<rparr>))) =
     Reply 200 (LoginOk (toUserResponse ((demo_user UserRoleAgent)\<lparr>u_PasswordHash := h\<rparr>)),
        [cookie_of demo_server CookieSession plain (1000 * second), clearCookie CookiePending True])"
proof -
  obtain h where h: "HashPassword ref_crypto (Some (replicate 16 (CHR ''s''))) ''secret'' = Some (Inr h)"
    by (simp add: HashPassword_def ref_crypto_def argon_defs)
  let ?u = "(demo_user UserRoleAgent)\<lparr>u_PasswordHash := h\<rparr>"
  let ?m = "handleLogin ref_crypto ref_uuid demo_server demo_request (Some good_login) (Some ''random'') 7000 (auth_db ?u)"
  have "length (sessions (tabs (snd ?m))) = 1"
    by (rule login_example) (use verify_hashed [OF ref_crypto.crypto_library_axioms h] in simp)
  moreover have d: "SessionTTL demo_server = 1000 * second" "CookieSecure demo_server" "u_Role (demo_user UserRoleAgent) = UserRoleAgent"
    by (simp_all add: demo_server_def demo_user_def)
  moreover have "sessions (tabs (auth_db ?u)) = []" "users (tabs (auth_db ?u)) = [?u]"
    by (simp_all add: auth_db_def db_of_def empty_tables_def)
  ultimately show ?thesis
    using login_opens_session [OF surjective_pairing [of ?m]]
    by - (rule exI [of _ h], auto simp: login_checks_def d)
qed

end
