(* ===== verification/Auth_Lockout.thy ===== *)
theory Auth_Lockout
  imports Api_Auth
begin

text \<open>
  The lockout of \<open>services/api/internal/httpapi/auth.go\<close> over sequences of requests: wrong
  passwords in a row lock the account; wrong codes of the second factor, with a right password
  before each, never do.
\<close>

section \<open>One request on a database that answers\<close>

text \<open>The one row of the address and of its id is \<open>u\<close>, and the database reports no errors.\<close>

definition account :: "string \<Rightarrow> User \<Rightarrow> dbst \<Rightarrow> bool" where
  "account email u s \<longleftrightarrow> db_faults s = [] \<and> filter (\<lambda>v. to_lower (u_Email v) = email) (users (tabs s)) = [u] \<and>
     filter (\<lambda>v. u_ID v = u_ID u) (users (tabs s)) = [u]"

lemma set_lock_sel [simp]:
  "u_ID (set_lock n l u) = u_ID u" "u_Email (set_lock n l u) = u_Email u"
  "u_PasswordHash (set_lock n l u) = u_PasswordHash u" "u_DisabledAt (set_lock n l u) = u_DisabledAt u"
  "u_TOTPEnabled (set_lock n l u) = u_TOTPEnabled u" "u_Role (set_lock n l u) = u_Role u"
  "u_TOTPSecretEncrypted (set_lock n l u) = u_TOTPSecretEncrypted u"
  "u_FailedLoginCount (set_lock n l u) = n" "u_LockedUntil (set_lock n l u) = map_option pg_time l"
  "set_lock n l (set_lock n' l' u) = set_lock n l u"
  by (simp_all add: set_lock_def)

lemma filter_update_users:
  assumes "\<And>v. P (f v) = P v"
  shows "filter P (users (update_users i f t)) = map (\<lambda>u. if u_ID u = i then f u else u) (filter P (users t))"
proof -
  have "filter P (map (\<lambda>u. if u_ID u = i then f u else u) us) = map (\<lambda>u. if u_ID u = i then f u else u) (filter P us)" for us
    by (induction us) (auto simp: assms)
  then show ?thesis by (simp add: update_users_def)
qed

lemma account_update:
  assumes "account email u s"
  shows "account email (set_lock n l u) (s\<lparr>tabs := update_users (u_ID u) (set_lock n l) (tabs s)\<rparr>)"
  using assms by (simp add: account_def filter_update_users)

lemma insertAudit_run:
  assumes "db_faults s = []"
  shows "db_faults (snd (insertAudit uid ev ip meta s)) = []"
    and "users (tabs (snd (insertAudit uid ev ip meta s))) = users (tabs s)"
  using assms by (simp_all add: insertAudit_def db_insert_def split: sum.splits)

lemma insertAudit_account: "account email u s \<Longrightarrow> account email u (snd (insertAudit uid ev ip meta s))"
  unfolding account_def by (simp add: insertAudit_run)

definition next_lock :: "User \<Rightarrow> time \<Rightarrow> int \<times> time option" where
  "next_lock u now =
     (if u_FailedLoginCount u + 1 \<ge> maxFailedLogins then (0, Some (now + lockDuration)) else (u_FailedLoginCount u + 1, None))"

lemma recordFailedLogin_account:
  assumes "account email u s"
  shows "account email (case next_lock u now of (n, l) \<Rightarrow> set_lock n l u) (snd (recordFailedLogin u ip now s))"
proof -
  obtain n l where nl: "next_lock u now = (n, l)" by (cases "next_lock u now")
  then have "recordFailedLogin u ip now s =
      insertAudit (Some (u_ID u)) ''login_failed'' ip (json_object [(''email'', u_Email u)])
        (s\<lparr>tabs := update_users (u_ID u) (set_lock n l) (tabs s)\<rparr>)"
    using assms by (simp add: recordFailedLogin_def next_lock_def account_def bindE_def Let_def split: if_splits)
  then show ?thesis using insertAudit_account [OF account_update [OF assms]] nl by simp
qed

lemma resetFailedLogin_account:
  assumes "account email u s"
  shows "\<exists>s'. resetFailedLogin (u_ID u) s = (Inr (), s') \<and> account email (set_lock 0 None u) s'"
  using account_update [OF assms, of 0 None] assms by (simp add: resetFailedLogin_def account_def)

text \<open>A login request for the account.\<close>

definition login_for :: "string \<Rightarrow> loginRequest \<Rightarrow> bool" where
  "login_for email req \<longleftrightarrow> trim_space (to_lower (lr_Email req)) = email \<and> email \<noteq> [] \<and> lr_Password req \<noteq> []"

lemma handleLogin_account:
  assumes "account email u s" and "login_for email req"
  shows "handleLogin C U S rq (Some req) rnd now s =
     (if u_DisabledAt u \<noteq> None then failH 403 ''account_disabled''
      else if (case u_LockedUntil u of None \<Rightarrow> False | Some l \<Rightarrow> l > now) then failH 423 ''account_locked''
      else case VerifyPassword C (u_PasswordHash u) (lr_Password req) of
        None \<Rightarrow> (\<lambda>s. (Panicked, s))
      | Some False \<Rightarrow>
          ignoreH (recordFailedLogin u (rq_ip rq) now) (failH 401 ''invalid_credentials'')
      | Some True \<Rightarrow> after_password C U S rq rnd now u) s"
  using assms
  by (simp add: handleLogin_def login_for_def account_def Let_def callH_def lookupUserByEmail_def)

lemma wrong_password_account:
  assumes "account email u s" "login_for email req" "u_DisabledAt u = None" "u_LockedUntil u = None"
    and "VerifyPassword C (u_PasswordHash u) (lr_Password req) = Some False"
  shows "\<exists>s'. handleLogin C U S rq (Some req) rnd now s = (Fail 401 ''invalid_credentials'', s') \<and>
     account email (case next_lock u now of (n, l) \<Rightarrow> set_lock n l u) s'"
  using recordFailedLogin_account [OF assms(1), of now "rq_ip rq"] assms(3-5)
  by (simp add: handleLogin_account [OF assms(1, 2)] ignoreH_def)

section \<open>Wrong passwords\<close>

text \<open>Login requests one after the other, each at its time.\<close>

fun logins :: "crypto \<Rightarrow> uuid_lib \<Rightarrow> Server \<Rightarrow> request \<Rightarrow> (loginRequest \<times> time) list \<Rightarrow> dbst \<Rightarrow>
    (auth_body \<times> cookie list) reply list \<times> dbst" where
  "logins C U S rq [] s = ([], s)"
| "logins C U S rq ((req, now) # rs) s =
     (case handleLogin C U S rq (Some req) None now s of (q, s1) \<Rightarrow>
        case logins C U S rq rs s1 of (qs, s2) \<Rightarrow> (q # qs, s2))"

definition wrong_for :: "crypto \<Rightarrow> string \<Rightarrow> User \<Rightarrow> loginRequest \<Rightarrow> bool" where
  "wrong_for C email u req \<longleftrightarrow> login_for email req \<and> VerifyPassword C (u_PasswordHash u) (lr_Password req) = Some False"

text \<open>While the count stays below the limit it goes up and nothing is locked.\<close>

lemma wrong_logins_count:
  assumes "account email (set_lock k None u) s" "0 \<le> k" "k + int (length rs) < maxFailedLogins"
    and "u_DisabledAt u = None" "\<forall>(req, now) \<in> set rs. wrong_for C email u req"
  shows "\<exists>s'. logins C U S rq rs s = (replicate (length rs) (Fail 401 ''invalid_credentials''), s') \<and>
     account email (set_lock (k + int (length rs)) None u) s'"
  using assms
proof (induction rs arbitrary: s k)
  case (Cons r rs)
  obtain req now where r: "r = (req, now)" by (cases r)
  obtain s1 where s1: "handleLogin C U S rq (Some req) None now s = (Fail 401 ''invalid_credentials'', s1)"
      "account email (set_lock (k + 1) None u) s1"
    using wrong_password_account [OF Cons.prems(1), of req C U S rq None now] Cons.prems r
    by (auto simp: wrong_for_def next_lock_def)
  with Cons.IH [OF s1(2)] Cons.prems r show ?case
    by (auto simp: algebra_simps)
qed auto

lemma logins_append:
  "logins C U S rq (xs @ ys) s =
     (case logins C U S rq xs s of (qs, s1) \<Rightarrow> case logins C U S rq ys s1 of (qs', s2) \<Rightarrow> (qs @ qs', s2))"
  by (induction xs arbitrary: s) (auto split: prod.split)

lemma wrong_logins_lock:
  assumes "account email (set_lock 0 None u) s" "length rs = 4" "u_DisabledAt u = None"
    and "\<forall>(req, now) \<in> set (rs @ [(fin, t)]). wrong_for C email u req"
  shows "\<exists>s'. logins C U S rq (rs @ [(fin, t)]) s = (replicate 5 (Fail 401 ''invalid_credentials''), s') \<and>
     account email (set_lock 0 (Some (t + lockDuration)) u) s'"
proof -
  obtain s1 where s1: "logins C U S rq rs s = (replicate 4 (Fail 401 ''invalid_credentials''), s1)"
      "account email (set_lock 4 None u) s1"
    using wrong_logins_count [OF assms(1), of rs C U S rq] assms(2-4) by (auto simp: maxFailedLogins_def)
  obtain s2 where "handleLogin C U S rq (Some fin) None t s1 = (Fail 401 ''invalid_credentials'', s2)"
      "account email (set_lock 0 (Some (t + lockDuration)) u) s2"
    using wrong_password_account [OF s1(2), of fin C U S rq None t] assms(3, 4)
    by (auto simp: wrong_for_def next_lock_def maxFailedLogins_def)
  with s1(1) show ?thesis
    by (simp add: logins_append replicate_app_Cons_same eval_nat_numeral)
qed

section \<open>Wrong codes\<close>

text \<open>One guess: log in with the right password, then try a code with the pending cookie.\<close>

definition pending_cookie :: "(auth_body \<times> cookie list) reply \<Rightarrow> string" where
  "pending_cookie q = (case q of Reply _ (TotpRequired, c # _) \<Rightarrow> ck_Value c | _ \<Rightarrow> [])"

definition guess :: "crypto \<Rightarrow> uuid_lib \<Rightarrow> Server \<Rightarrow> request \<Rightarrow> loginRequest \<Rightarrow> string \<Rightarrow> time \<Rightarrow> dbst auth_handler" where
  "guess C U S rq req code now s =
     (case handleLogin C U S rq (Some req) None now s of (q, s1) \<Rightarrow>
        handleTOTPVerify C U S (rq\<lparr>rq_Cookie := (\<lambda>n. if n = CookiePending then pending_cookie q else [])\<rparr>)
          (Some code) None now s1)"

fun guesses :: "crypto \<Rightarrow> uuid_lib \<Rightarrow> Server \<Rightarrow> request \<Rightarrow> loginRequest \<Rightarrow> (string \<times> time) list \<Rightarrow> dbst \<Rightarrow>
    (auth_body \<times> cookie list) reply list \<times> dbst" where
  "guesses C U S rq req [] s = ([], s)"
| "guesses C U S rq req ((code, now) # gs) s =
     (case guess C U S rq req code now s of (q, s1) \<Rightarrow>
        case guesses C U S rq req gs s1 of (qs, s2) \<Rightarrow> (q # qs, s2))"

text \<open>A user with a second factor, and the right password.\<close>

definition right_password :: "crypto \<Rightarrow> Server \<Rightarrow> string \<Rightarrow> User \<Rightarrow> loginRequest \<Rightarrow> string \<Rightarrow> bool" where
  "right_password C S email u req secret \<longleftrightarrow> login_for email req \<and>
     VerifyPassword C (u_PasswordHash u) (lr_Password req) = Some True \<and> u_DisabledAt u = None \<and> u_TOTPEnabled u \<and>
     decryptTOTPSecret C S u = Inr secret \<and> 32 \<le> length (SessionSecret S)"

lemma decrypt_set_lock [simp]: "decryptTOTPSecret C S (set_lock n l u) = decryptTOTPSecret C S u"
  by (simp add: decryptTOTPSecret_def)

lemma login_pending:
  assumes "account email u s" "right_password C S email u req secret" "u_LockedUntil u = None"
  shows "\<exists>token s1. handleLogin C U S rq (Some req) rnd now s =
       (Reply 200 (TotpRequired, [cookie_of S CookiePending token pendingTTL, clearCookie CookieSession (CookieSecure S)]), s1) \<and>
     NewPendingToken C U (u_ID u) (SessionSecret S) pendingTTL now = Inr token \<and> account email (set_lock 0 None u) s1 \<and>
     sessions (tabs s1) = sessions (tabs s)"
proof -
  obtain s1 where s1: "resetFailedLogin (u_ID u) s = (Inr (), s1)" "account email (set_lock 0 None u) s1"
    using resetFailedLogin_account [OF assms(1)] by blast
  obtain token where t: "NewPendingToken C U (u_ID u) (SessionSecret S) pendingTTL now = Inr token"
    using assms(2) by (simp add: NewPendingToken_def right_password_def Let_def)
  show ?thesis
    using handleLogin_account [OF assms(1), of req C U S rq rnd now] assms(2, 3) s1 t resetFailedLogin_frame [OF s1(1)]
    by (simp add: right_password_def after_password_def callH_def)
qed

lemma lookupUserByID_account:
  "account email u s \<Longrightarrow> lookupUserByID (u_ID u) s = (Inr (u\<lparr>u_DisplayName := None, u_DisabledAt := None\<rparr>), s)"
  by (simp add: lookupUserByID_def account_def)

text \<open>The failure is recorded for the row that was read; only the lock columns change.\<close>

lemma recordFailedLogin_row:
  "recordFailedLogin (u\<lparr>u_DisplayName := d, u_DisabledAt := e\<rparr>) ip now = recordFailedLogin u ip now"
  by (simp add: recordFailedLogin_def)

lemma wrong_code_account:
  assumes "uuid_library U" "account email u s" "u_LockedUntil u = None" "u_FailedLoginCount u = 0" "u_TOTPEnabled u"
    and "decryptTOTPSecret C S u = Inr secret" "code \<noteq> []" "\<not> ValidateTOTP C secret code now"
    and "ParsePendingToken C U token (SessionSecret S) now = Inr (u_ID u)" "token \<noteq> []" "rq_Cookie rq CookiePending = token"
  shows "\<exists>s1. handleTOTPVerify C U S rq (Some code) None now s = (Fail 401 ''invalid_totp'', s1) \<and>
    account email (set_lock 1 None u) s1"
proof -
  let ?u = "u\<lparr>u_DisplayName := None, u_DisabledAt := None\<rparr>"
  have d: "decryptTOTPSecret C S ?u = Inr secret"
    using assms(6) by (simp add: decryptTOTPSecret_def)
  let ?s1 = "snd (recordFailedLogin u (rq_ip rq) now s)"
  have s1: "account email (set_lock 1 None u) ?s1"
    using recordFailedLogin_account [OF assms(2), of now "rq_ip rq"] assms(4)
    by (simp add: next_lock_def maxFailedLogins_def)
  show ?thesis
    using assms d lookupUserByID_account [OF assms(2)] insertAudit_account [OF s1]
    by (simp add: handleTOTPVerify_def callH_def ignoreH_def recordFailedLogin_row)
qed

text \<open>The right code after the right password: a session for the account.\<close>

lemma right_code_account:
  assumes "account email u s" "u_LockedUntil u = None" "u_TOTPEnabled u"
    and "decryptTOTPSecret C S u = Inr secret" "code \<noteq> []" "ValidateTOTP C secret code now"
    and "ParsePendingToken C U token (SessionSecret S) now = Inr (u_ID u)" "token \<noteq> []" "rq_Cookie rq CookiePending = token"
    and "HashToken C (b64_encode RawURL buf) \<notin> s_TokenHash ` set (sessions (tabs s))"
    and "db_rand s (db_drawn s) \<notin> s_ID ` set (sessions (tabs s))"
  shows "\<exists>s1 n. handleTOTPVerify C U S rq (Some code) (Some buf) now s =
      (Reply 200 (LoginOk (toUserResponse (u\<lparr>u_DisplayName := None, u_DisabledAt := None\<rparr>)),
         [cookie_of S CookieSession (b64_encode RawURL buf) (SessionTTL S), clearCookie CookiePending (CookieSecure S)]), s1) \<and>
    sessions (tabs s1) = sessions (tabs s) @ [n] \<and> s_UserID n = u_ID u \<and>
    s_TokenHash n = HashToken C (b64_encode RawURL buf) \<and> s_ExpiresAt n = pg_time (now + SessionTTL S)"
proof -
  let ?v = "u\<lparr>u_DisplayName := None, u_DisabledAt := None\<rparr>"
  let ?s0 = "s\<lparr>tabs := update_users (u_ID u) (set_lock 0 None) (tabs s)\<rparr>"
  let ?n = "new_session (u_ID u) (HashToken C (b64_encode RawURL buf)) (now + SessionTTL S) (db_rand s (db_drawn s)) (db_now s)"
  have f: "db_faults s = []" using assms(1) by (simp add: account_def)
  have "u \<in> set (filter (\<lambda>v. u_ID v = u_ID u) (users (tabs s)))" using assms(1) by (simp add: account_def)
  then have "u_ID u \<in> u_ID ` set (users (tabs s))" by simp
  moreover have "map u_ID (users (tabs ?s0)) = map u_ID (users (tabs s))" by (simp add: map_update_users)
  ultimately have "u_ID u \<in> u_ID ` set (users (tabs ?s0))" by (metis list.set_map)
  then obtain s2 where i: "insertSession (u_ID u) (HashToken C (b64_encode RawURL buf)) (now + SessionTTL S) ?s0 = (Inr (), s2)"
    and s2: "sessions (tabs s2) = sessions (tabs s) @ [?n]"
    using assms(10, 11) f
    by (auto simp: insertSession_def db_insert_def insert_session_stmt_def update_users_def)
  have d: "decryptTOTPSecret C S ?v = Inr secret" using assms(4) by (simp add: decryptTOTPSecret_def)
  have r: "resetFailedLogin (u_ID u) s = (Inr (), ?s0)" using f by (simp add: resetFailedLogin_def)
  have "\<exists>s1. handleTOTPVerify C U S rq (Some code) (Some buf) now s =
      (Reply 200 (LoginOk (toUserResponse ?v),
         [cookie_of S CookieSession (b64_encode RawURL buf) (SessionTTL S), clearCookie CookiePending (CookieSecure S)]), s1) \<and>
    s1 = snd (insertAudit (Some (u_ID u)) ''login_ok'' (rq_ip rq) ''{}'' s2)"
    using assms(2, 3, 5-9) d r i lookupUserByID_account [OF assms(1)]
    by (simp add: handleTOTPVerify_def callH_def ignoreH_def open_session_def NewSessionToken_def Let_def)
  moreover have "sessions (tabs (snd (insertAudit (Some (u_ID u)) ''login_ok'' (rq_ip rq) ''{}'' s2))) = sessions (tabs s2)"
    using insertAudit_frame [OF surjective_pairing] by blast
  ultimately show ?thesis using s2 by (auto intro!: exI [of _ ?n])
qed

lemma new_pending_parse:
  assumes "uuid_library U" "NewPendingToken C U i secret ttl now = Inr token" "in_int64 (time_Unix (now + ttl))" "0 \<le> ttl"
  shows "ParsePendingToken C U token secret now = Inr i \<and> token \<noteq> []"
proof -
  have len: "\<not> length secret < 32" and t: "token = b64_encode RawURL (pending_text C U i (time_Unix (now + ttl)) secret)"
    using assms(2) by (auto simp: NewPendingToken_def Let_def pending_text_def split: if_splits)
  have p: "ParsePendingToken C U token secret now = Inr i"
    using parse_pending_text [OF assms(1) len assms(3), where now = now] zdiv_mono1 [of now "now + ttl" second] assms(4)
    unfolding t by (simp add: time_Unix_def second_def)
  moreover have "ParsePendingToken C U [] secret now \<noteq> Inr i"
  proof -
    have "b64_decode RawURL [] = Some []" by code_simp
    then show ?thesis using len by (simp add: ParsePendingToken_def)
  qed
  ultimately show ?thesis by metis
qed

lemma guess_wrong:
  assumes "uuid_library U" "account email u s" "right_password C S email u req secret" "u_LockedUntil u = None"
    and "code \<noteq> []" "\<not> ValidateTOTP C secret code now" "in_int64 (time_Unix (now + pendingTTL))"
  shows "\<exists>s1. guess C U S rq req code now s = (Fail 401 ''invalid_totp'', s1) \<and> account email (set_lock 1 None u) s1"
proof -
  obtain token s1 where l: "handleLogin C U S rq (Some req) None now s =
       (Reply 200 (TotpRequired, [cookie_of S CookiePending token pendingTTL, clearCookie CookieSession (CookieSecure S)]), s1)"
    and t: "NewPendingToken C U (u_ID u) (SessionSecret S) pendingTTL now = Inr token" and a: "account email (set_lock 0 None u) s1"
    using login_pending [OF assms(2-4)] by blast
  have p: "ParsePendingToken C U token (SessionSecret S) now = Inr (u_ID u) \<and> token \<noteq> []"
    by (rule new_pending_parse [OF assms(1) t assms(7)]) (simp add: pendingTTL_def second_def)
  have pc: "pending_cookie (Reply 200 (TotpRequired, [cookie_of S CookiePending token pendingTTL,
      clearCookie CookieSession (CookieSecure S)])) = token"
    by (simp add: pending_cookie_def cookie_of_def)
  show ?thesis
    using wrong_code_account [OF assms(1) a, where C = C and S = S and secret = secret and code = code and token = token
        and rq = "rq\<lparr>rq_Cookie := (\<lambda>n. if n = CookiePending then token else [])\<rparr>" and now = now] assms(3, 5, 6) p
    unfolding guess_def l prod.case pc by (simp add: right_password_def)
qed

lemma right_password_set_lock [simp]:
  "right_password C S email (set_lock n l u) req secret = right_password C S email u req secret"
  by (simp add: right_password_def)

section \<open>Properties\<close>


lemma hashed_password:
  assumes "HashPassword ref_crypto (Some salt) pw = Some (Inr h)"
  shows "VerifyPassword ref_crypto h pw = Some True"
  using verify_hashed [OF ref_crypto.crypto_library_axioms assms] by simp

definition bad_login :: loginRequest where
  "bad_login = \<lparr>lr_Email = ''A@b '', lr_Password = ''guess''\<rparr>"


text \<open>
  C12. Wrong codes never lock the account of someone who knows the password: with a login before
  each code, which resets the count of failures, every one of any number of wrong codes is
  answered as a wrong code and none as a locked account.
\<close>

theorem totp_guesses_never_lock:
  assumes "uuid_library U" "account email u s" "right_password C S email u req secret" "u_LockedUntil u = None"
    and "\<forall>(code, now) \<in> set gs. code \<noteq> [] \<and> \<not> ValidateTOTP C secret code now \<and> in_int64 (time_Unix (now + pendingTTL))"
  shows "fst (guesses C U S rq req gs s) = replicate (length gs) (Fail 401 ''invalid_totp'')"
  using assms
proof (induction gs arbitrary: s u)
  case (Cons g gs)
  obtain code now where g: "g = (code, now)" by (cases g)
  obtain s1 where s1: "guess C U S rq req code now s = (Fail 401 ''invalid_totp'', s1)" "account email (set_lock 1 None u) s1"
    using guess_wrong [OF Cons.prems(1-4), of code now rq] Cons.prems(5) g by auto
  have "fst (guesses C U S rq req gs s1) = replicate (length gs) (Fail 401 ''invalid_totp'')"
    by (rule Cons.IH [OF Cons.prems(1) s1(2)]) (use Cons.prems(3, 5) in auto)
  then show ?case using s1(1) g by (cases "guesses C U S rq req gs s1") simp
qed simp



definition totp_user :: "string \<Rightarrow> User" where
  "totp_user h = (demo_user UserRoleAgent)\<lparr>u_PasswordHash := h, u_TOTPEnabled := True,
     u_TOTPSecretEncrypted := Some (replicate 12 (CHR ''n'') @ ''123456'' @ replicate 16 (CHR ''c''))\<rparr>"

theorem totp_guesses_never_lock_witness:
  "\<exists>h. fst (guesses ref_crypto ref_uuid demo_server demo_request bad_login
       [(''000000'', 0), (''000001'', 1), (''000002'', 2), (''000003'', 3), (''000004'', 4), (''000005'', 5)]
       (auth_db (totp_user h))) = replicate 6 (Fail 401 ''invalid_totp'')"
proof -
  obtain h where h: "HashPassword ref_crypto (Some (replicate 16 (CHR ''s''))) ''guess'' = Some (Inr h)"
    by (simp add: HashPassword_def ref_crypto_def argon_defs)
  have a: "account ''a@b'' (totp_user h) (auth_db (totp_user h))"
  proof -
    have "to_lower ''a@b'' = ''a@b''" by code_simp
    then show ?thesis by (simp add: account_def auth_db_def db_of_def totp_user_def demo_user_def)
  qed
  have d: "decryptTOTPSecret ref_crypto demo_server (totp_user h) = Inr ''123456''"
    by (simp add: decryptTOTPSecret_def totp_user_def demo_server_def Decrypt_def newGCM_def keySize_def nonceSize_def
        ref_crypto_def suffix_def)
  have l: "login_for ''a@b'' bad_login" by code_simp
  have r: "right_password ref_crypto demo_server ''a@b'' (totp_user h) bad_login ''123456''"
    using hashed_password [OF h] d l
    by (simp add: right_password_def totp_user_def demo_user_def bad_login_def demo_server_def)
  have t: "u_LockedUntil (totp_user h) = None" by (simp add: totp_user_def demo_user_def)
  let ?gs = "[(''000000'', 0 :: int), (''000001'', 1), (''000002'', 2), (''000003'', 3), (''000004'', 4), (''000005'', 5)]"
  have g: "\<forall>(code, now) \<in> set ?gs. code \<noteq> [] \<and> \<not> ValidateTOTP ref_crypto ''123456'' code now \<and>
      in_int64 (time_Unix (now + pendingTTL))"
    by (simp add: ValidateTOTP_def ref_crypto_def in_int64_def time_Unix_def pendingTTL_def second_def)
  have "length ?gs = 6" by simp
  with totp_guesses_never_lock [OF ref_uuid.uuid_library_axioms a r t g, of demo_request] show ?thesis
    by (intro exI [of _ h]) metis
qed

end
