(* ===== verification/Driver.thy ===== *)
theory Driver
  imports Database
begin

text \<open>
  What the stores can answer when the database fails only with the errors of the driver that
  \<open>services/api/internal/db/db.go\<close> opens, pgx: a small calculus of the errors of a computation.
\<close>

section \<open>Errors of the driver\<close>

text \<open>
  What a statement can fail with: an error of the driver in use, or none of its rows. \<open>drives Q m\<close>
  says that every error of \<open>m\<close> satisfies \<open>Q\<close> when the statements fail with such errors only.
\<close>

definition driver_error :: "goerr \<Rightarrow> bool" where
  "driver_error e \<longleftrightarrow> (\<exists>c. e = PgconnError c) \<or> (\<exists>m. e = ErrMsg m) \<or> e = SqlNoRows"

definition driver_db :: "dbst \<Rightarrow> bool" where
  "driver_db s \<longleftrightarrow> (\<forall>e. Some e \<in> set (db_faults s) \<longrightarrow> driver_error e)"

definition drives :: "(goerr \<Rightarrow> bool) \<Rightarrow> 'a sql \<Rightarrow> bool" where
  "drives Q m \<longleftrightarrow> (\<forall>s. driver_db s \<longrightarrow> driver_db (snd (m s)) \<and> (\<forall>e. fst (m s) = Inl e \<longrightarrow> Q e))"

named_theorems drives_intros

lemma driver_errors [simp]: "driver_error unique_violation" "driver_error foreign_key_violation"
  "driver_error check_violation" "driver_error int4_error" "driver_error SqlNoRows"
  by (auto simp: driver_error_def unique_violation_def foreign_key_violation_def check_violation_def int4_error_def)

lemma drivesI:
  "(\<And>s r s'. driver_db s \<Longrightarrow> m s = (r, s') \<Longrightarrow> driver_db s' \<and> (\<forall>e. r = Inl e \<longrightarrow> Q e)) \<Longrightarrow> drives Q m"
  unfolding drives_def by (metis surjective_pairing)

lemma drives_err: "drives Q m \<Longrightarrow> driver_db s \<Longrightarrow> m s = (Inl e, s') \<Longrightarrow> Q e"
  unfolding drives_def by (metis fst_conv)

lemma drives_weaken: "drives P m \<Longrightarrow> (\<And>e. P e \<Longrightarrow> Q e) \<Longrightarrow> drives Q m"
  unfolding drives_def by blast

lemma drives_stmt:
  assumes "\<And>s r s'. driver_db s \<Longrightarrow> f s = (r, s') \<Longrightarrow> driver_db s' \<and> (\<forall>e. r = Inl e \<longrightarrow> driver_error e)"
  shows "drives driver_error (stmt f)"
proof (rule drivesI)
  fix s r s'
  assume d: "driver_db s" and run: "stmt f s = (r, s')"
  show "driver_db s' \<and> (\<forall>e. r = Inl e \<longrightarrow> driver_error e)"
  proof (cases "db_faults s")
    case Nil
    with run have "f s = (r, s')" by (simp add: stmt_def)
    then show ?thesis using assms d by blast
  next
    case (Cons x fs)
    with d have fs: "driver_db (s\<lparr>db_faults := fs\<rparr>)" by (simp add: driver_db_def)
    show ?thesis
    proof (cases x)
      case None
      with run Cons have "f (s\<lparr>db_faults := fs\<rparr>) = (r, s')" by (simp add: stmt_def)
      then show ?thesis using assms fs by blast
    next
      case (Some e)
      with run Cons d fs show ?thesis by (auto simp: stmt_def driver_db_def)
    qed
  qed
qed

lemma drives_select [drives_intros]: "drives driver_error (db_select q)"
  unfolding db_select_def by (rule drives_stmt) auto

lemma drives_insert [drives_intros]:
  assumes "\<And>i now t e. q i now t = Inl e \<Longrightarrow> driver_error e"
  shows "drives driver_error (db_insert q)"
  unfolding db_insert_def
  by (rule drives_stmt) (auto simp: driver_db_def split: sum.split_asm dest: assms)

lemma drives_update [drives_intros]:
  assumes "\<And>t e. q t = Inl e \<Longrightarrow> driver_error e"
  shows "drives driver_error (db_update q)"
  unfolding db_update_def
  by (rule drives_stmt) (auto simp: driver_db_def split: sum.split_asm dest: assms)

lemma drives_skip: "drives driver_error (stmt (\<lambda>s. (Inr (f s), s)))"
  by (rule drives_stmt) auto

lemma drives_retE [drives_intros]: "drives Q (retE x)"
  by (simp add: drives_def)

lemma drives_failE [drives_intros]: "Q e \<Longrightarrow> drives Q (failE e)"
  by (simp add: drives_def)

lemma drives_bindE [drives_intros]: "drives Q m \<Longrightarrow> (\<And>x. drives Q (f x)) \<Longrightarrow> drives Q (bindE m f)"
  unfolding drives_def by (auto simp: bindE_def split: prod.splits sum.splits)

lemma drives_step:
  assumes "drives Q m" "driver_db s" "m s = (r, s')"
  shows "driver_db s'" and "r = Inl e \<Longrightarrow> Q e"
  using assms unfolding drives_def by (metis snd_conv, metis fst_conv)

lemma drives_tryE:
  assumes "drives P m" and "\<And>e. P e \<Longrightarrow> drives Q (f (Inl e))" and "\<And>x. drives Q (f (Inr x))"
  shows "drives Q (tryE m f)"
proof (rule drivesI)
  fix s r s'
  assume d: "driver_db s" and run: "tryE m f s = (r, s')"
  from run [unfolded tryE_iff] show "driver_db s' \<and> (\<forall>e. r = Inl e \<longrightarrow> Q e)"
  proof (elim disjE exE conjE)
    fix e s1
    assume "m s = (Inl e, s1)" "f (Inl e) s1 = (r, s')"
    with drives_step [OF assms(1) d] drives_step [OF assms(2)] show ?thesis by blast
  next
    fix x s1
    assume "m s = (Inr x, s1)" "f (Inr x) s1 = (r, s')"
    with drives_step [OF assms(1) d] drives_step [OF assms(3)] show ?thesis by blast
  qed
qed

lemma drives_in_tx:
  assumes "drives Q m" and "\<And>e. driver_error e \<Longrightarrow> Q e"
  shows "drives Q (in_tx m)"
proof -
  have start: "drives Q (stmt (\<lambda>s. (Inr (tabs s), s)))" and commit: "drives Q (stmt (\<lambda>s. (Inr (), s)))"
    by (rule drives_weaken [OF drives_skip assms(2)], assumption)+
  have body: "drives Q (bindE m (\<lambda>x. bindE (stmt (\<lambda>s. (Inr (), s))) (\<lambda>_. retE x)))"
    by (rule drives_bindE [OF assms(1)], rule drives_bindE [OF commit], rule drives_retE)
  have undo: "drives Q (\<lambda>s. (Inl e, s\<lparr>tabs := t0\<rparr>))" if "Q e" for e and t0 :: tables
    using that by (simp add: drives_def driver_db_def)
  show ?thesis
    unfolding in_tx_def
    by (rule drives_bindE [OF start], rule drives_tryE [OF body]) (simp_all add: undo drives_retE)
qed

lemma first_row_drives [drives_intros]: "drives driver_error m \<Longrightarrow> drives driver_error (first_row m)"
  unfolding first_row_def by (intro drives_bindE) (auto intro: drives_intros split: list.split)

end
