(* ===== verification/Api_Users.thy ===== *)
theory Api_Users
  imports Api_Auth Driver
begin

text \<open>
  The user administration of the API, \<open>services/api/internal/httpapi/users.go\<close>, and what its
  handlers can answer when the database fails only with errors of its own driver.
\<close>

section \<open>Handlers\<close>

record createUserRequest =
  cur_Email :: string
  cur_Password :: string
  cur_Role :: string
  cur_DisplayName :: "string option"

record patchUserRequest =
  pur_DisplayName :: "string option"
  pur_Role :: "string option"
  pur_Disabled :: "bool option"

datatype user_body = UserList "userResponse list" | UserOut userResponse | UserOk

definition parseUserRole :: "string \<Rightarrow> string + UserRole" where
  "parseUserRole raw =
     (let r = to_lower (trim_space raw) in
      if r = ''admin'' then Inr UserRoleAdmin
      else if r = ''supervisor'' then Inr UserRoleSupervisor
      else if r = ''agent'' then Inr UserRoleAgent
      else Inl ''invalid_role'')"

definition handleListUsers :: "(dbst, user_body) handler" where
  "handleListUsers = callH User_List (\<lambda>_. internal_error) (\<lambda>us. replyH 200 (UserList (map toUserResponse us)))"

text \<open>A new password hash, with the bytes drawn for its salt; \<open>None\<close> is a panic of Argon2id.\<close>

definition with_hash :: "crypto \<Rightarrow> string option \<Rightarrow> string \<Rightarrow> (string \<Rightarrow> ('s, 'b) handler) \<Rightarrow> ('s, 'b) handler" where
  "with_hash C rnd pw k =
     (case HashPassword C rnd pw of
        None \<Rightarrow> (\<lambda>s. (Panicked, s))
      | Some (Inl _) \<Rightarrow> internal_error
      | Some (Inr hash) \<Rightarrow> k hash)"

definition trim_opt :: "string option \<Rightarrow> string option" where
  "trim_opt v = (case v of None \<Rightarrow> None | Some x \<Rightarrow> if trim_space x = [] then None else Some (trim_space x))"

definition handleCreateUser :: "crypto \<Rightarrow> string option \<Rightarrow> createUserRequest option \<Rightarrow> (dbst, user_body) handler" where
  "handleCreateUser C rnd body =
     (case body of
        None \<Rightarrow> failH 400 ''invalid_json''
      | Some req \<Rightarrow>
          (let email = trim_space (to_lower (cur_Email req)) in
           if email = [] \<or> \<not> str_contains email ''@'' then failH 400 ''invalid_email''
           else if cur_Password req = [] then failH 400 ''password_required''
           else case parseUserRole (cur_Role req) of
             Inl errMsg \<Rightarrow> failH 400 errMsg
           | Inr role \<Rightarrow>
               with_hash C rnd (cur_Password req) (\<lambda>hash.
                 callH (User_Create \<lparr>cu_Email = email, cu_PasswordHash = hash, cu_Role = role,
                                     cu_DisplayName = trim_opt (cur_DisplayName req)\<rparr>)
                   (\<lambda>e. if errors_is e ErrAdminExists then failH 400 ''admin_exists''
                        else if errors_is e ErrDuplicateEmail then failH 400 ''email_taken''
                        else internal_error)
                   (\<lambda>created. replyH 201 (UserOut (toUserResponse created))))))"

definition handlePatchUser :: "uuid_lib \<Rightarrow> string \<Rightarrow> patchUserRequest option \<Rightarrow> time \<Rightarrow> (dbst, user_body) handler" where
  "handlePatchUser U idp body now =
     (case uparse U idp of
        None \<Rightarrow> failH 400 ''invalid_id''
      | Some i \<Rightarrow>
          (case body of
             None \<Rightarrow> failH 400 ''invalid_json''
           | Some req \<Rightarrow>
               (let disabledAt = (if pur_Disabled req = Some True then Some now else None);
                    upd = (\<lambda>role. callH
                      (User_Update i \<lparr>uu_DisplayName = pur_DisplayName req, uu_Role = role,
                                      uu_Disabled = pur_Disabled req, uu_DisabledAt = disabledAt\<rparr> now)
                      (\<lambda>e. if errors_is e ErrNotFound then failH 404 ''not_found''
                           else if errors_is e ErrAdminExists then failH 400 ''admin_exists''
                           else internal_error)
                      (\<lambda>updated. replyH 200 (UserOut (toUserResponse updated))))
                in case pur_Role req of
                     None \<Rightarrow> upd None
                   | Some raw \<Rightarrow>
                       (case parseUserRole raw of
                          Inl errMsg \<Rightarrow> failH 400 errMsg
                        | Inr role \<Rightarrow> upd (Some role)))))"

definition handleResetUserPassword ::
  "crypto \<Rightarrow> uuid_lib \<Rightarrow> string option \<Rightarrow> string \<Rightarrow> string option \<Rightarrow> (dbst, user_body) handler" where
  "handleResetUserPassword C U rnd idp body =
     (case uparse U idp of
        None \<Rightarrow> failH 400 ''invalid_id''
      | Some i \<Rightarrow>
          (case body of
             None \<Rightarrow> failH 400 ''invalid_json''
           | Some pw \<Rightarrow>
               if pw = [] then failH 400 ''password_required''
               else with_hash C rnd pw (\<lambda>hash.
                 callH (ResetPassword i hash)
                   (\<lambda>e. if errors_is e ErrNotFound then failH 404 ''not_found'' else internal_error)
                   (\<lambda>_. replyH 200 UserOk))))"

section \<open>Lemmas\<close>

text \<open>An error of the driver in use is never seen as a violation of uniqueness.\<close>

lemma driver_not_unique: "driver_error e \<Longrightarrow> \<not> isUniqueViolation e"
  by (auto simp: driver_error_def isUniqueViolation_def)

lemma insert_user_drives: "drives driver_error (insert_user inp)"
  unfolding insert_user_def by (rule drives_insert) (auto simp: Let_def split: if_splits)

lemma lockAdminSlot_drives: "drives (\<lambda>e. \<not> errors_is e ErrDuplicateEmail) lockAdminSlot"
proof -
  have w: "drives (\<lambda>e. \<not> errors_is e ErrDuplicateEmail) (db_select q)" for q :: "tables \<Rightarrow> time \<Rightarrow> 'a"
    by (rule drives_weaken [OF drives_select]) (auto simp: driver_error_def)
  show ?thesis
    unfolding lockAdminSlot_def countAdmins_def
    by (intro drives_bindE w) (auto intro: drives_intros)
qed

lemma User_Create_not_duplicate: "drives (\<lambda>e. \<not> errors_is e ErrDuplicateEmail) (User_Create inp)"
proof -
  have "drives (\<lambda>e. \<not> errors_is e ErrDuplicateEmail) (if cu_Role inp = UserRoleAdmin then lockAdminSlot else retE ())"
    by (simp add: lockAdminSlot_drives drives_retE)
  moreover have "driver_error e \<Longrightarrow> \<not> errors_is e ErrDuplicateEmail" for e
    by (auto simp: driver_error_def)
  ultimately show ?thesis
    unfolding User_Create_def
    by (intro drives_in_tx drives_bindE drives_tryE [OF insert_user_drives])
      (auto simp: driver_not_unique intro: drives_intros)
qed

lemma to_lower_trimmed: "to_lower (trim_space (to_lower s)) = trim_space (to_lower s)"
  using set_trim_space [of "to_lower s"] by (auto simp: to_lower_def intro!: map_idI)

text \<open>A request for a new user that passes the checks of the handler.\<close>

definition new_user_request :: "crypto \<Rightarrow> string option \<Rightarrow> createUserRequest \<Rightarrow> UserRole \<Rightarrow> string \<Rightarrow> bool" where
  "new_user_request C rnd req role h \<longleftrightarrow>
     str_contains (trim_space (to_lower (cur_Email req))) ''@'' \<and> cur_Password req \<noteq> [] \<and>
     parseUserRole (cur_Role req) = Inr role \<and> HashPassword C rnd (cur_Password req) = Some (Inr h)"

lemma handleCreateUser_run:
  assumes "new_user_request C rnd req role h"
  shows "handleCreateUser C rnd (Some req) s =
    callH (User_Create \<lparr>cu_Email = trim_space (to_lower (cur_Email req)), cu_PasswordHash = h, cu_Role = role,
                         cu_DisplayName = trim_opt (cur_DisplayName req)\<rparr>)
      (\<lambda>e. if errors_is e ErrAdminExists then failH 400 ''admin_exists''
           else if errors_is e ErrDuplicateEmail then failH 400 ''email_taken'' else internal_error)
      (\<lambda>created. replyH 201 (UserOut (toUserResponse created))) s"
  using assms by (auto simp: new_user_request_def handleCreateUser_def with_hash_def Let_def)

section \<open>Properties\<close>


definition taken_request :: createUserRequest where
  "taken_request = \<lparr>cur_Email = ''A@b'', cur_Password = ''secret'', cur_Role = ''agent'', cur_DisplayName = None\<rparr>"


end
