(* ===== verification/Api_Carriers.thy ===== *)
theory Api_Carriers
  imports Api_Users Store_Carriers
begin

text \<open>
  The carriers and inbound numbers of the API, \<open>services/api/internal/httpapi/carriers.go\<close> and
  \<open>dids.go\<close>. The handlers run on the database and on the Redis server on which they announce a
  change of carriers; without a Redis the publisher is the one that does nothing.
\<close>

section \<open>The world of the handlers\<close>

record 'r api =
  api_db :: dbst
  api_redis :: 'r

definition on_db :: "'a sql \<Rightarrow> ('r api, 'a) run" where
  "on_db m = (\<lambda>w. case m (api_db w) of (r, s) \<Rightarrow> (r, w\<lparr>api_db := s\<rparr>))"

definition carriersChangedChannel :: string where
  "carriersChangedChannel = ''carriers.changed''"

text \<open>The publisher: \<open>None\<close> is a server without one, or \<open>NoopCarrierPublisher\<close>.\<close>

definition publishCarriersChanged :: "'r redis option \<Rightarrow> string \<Rightarrow> ('r api, unit) run" where
  "publishCarriersChanged P payload =
     (case P of
        None \<Rightarrow> retE ()
      | Some R \<Rightarrow> (\<lambda>w. case rPublish R carriersChangedChannel payload (api_redis w) of
                        (r, t) \<Rightarrow> (r, w\<lparr>api_redis := t\<rparr>)))"

text \<open>\<open>parseURL\<close> gives the client for a URL, \<open>ping\<close> the error of its first command.\<close>

definition NewRedisCarrierPublisherFromURL ::
  "(string \<Rightarrow> goerr + 'r redis) \<Rightarrow> ('r redis \<Rightarrow> goerr option) \<Rightarrow> string \<Rightarrow> goerr + 'r redis option" where
  "NewRedisCarrierPublisherFromURL parseURL ping redisURL =
     (if trim_space redisURL = [] then Inr None
      else case parseURL redisURL of
        Inl e \<Rightarrow> Inl e
      | Inr client \<Rightarrow> (case ping client of Some e \<Rightarrow> Inl e | None \<Rightarrow> Inr (Some client)))"

text \<open>Redis is optional: \<open>NewServer\<close> goes on without a publisher where it cannot be reached.\<close>

definition server_publisher ::
  "(string \<Rightarrow> goerr + 'r redis) \<Rightarrow> ('r redis \<Rightarrow> goerr option) \<Rightarrow> (string \<Rightarrow> string) \<Rightarrow> 'r redis option" where
  "server_publisher parseURL ping env =
     (case NewRedisCarrierPublisherFromURL parseURL ping (env ''REDIS_URL'') of Inl _ \<Rightarrow> None | Inr p \<Rightarrow> p)"

section \<open>Requests and replies\<close>

record createCarrierRequest =
  ccr_Name :: string
  ccr_Host :: string
  ccr_Port :: "int option"
  ccr_Transport :: string
  ccr_Username :: "string option"
  ccr_Password :: "string option"
  ccr_Realm :: "string option"
  ccr_Codecs :: "string list option"
  ccr_CallerIDs :: "string list option"
  ccr_MaxCPS :: "int option"
  ccr_MaxChannels :: "int option"
  ccr_Enabled :: "bool option"
  ccr_Priority :: "int option"

record patchCarrierRequest =
  pcr_Name :: "string option"
  pcr_Host :: "string option"
  pcr_Port :: "int option"
  pcr_Transport :: "string option"
  pcr_Username :: "string option"
  pcr_Password :: "string option"
  pcr_Realm :: "string option"
  pcr_Codecs :: "string list option"
  pcr_CallerIDs :: "string list option"
  pcr_MaxCPS :: "int option"
  pcr_MaxChannels :: "int option"
  pcr_Enabled :: "bool option"
  pcr_Priority :: "int option"

record carrierResponse =
  cr_ID :: uuid
  cr_Name :: string
  cr_Host :: string
  cr_Port :: int
  cr_Transport :: string
  cr_Username :: "string option"
  cr_PasswordSet :: bool
  cr_Realm :: "string option"
  cr_Codecs :: "string list"
  cr_CallerIDs :: "string list"
  cr_MaxCPS :: int
  cr_MaxChannels :: int
  cr_Enabled :: bool
  cr_Priority :: int
  cr_CreatedAt :: time

definition toCarrierResponse :: "Carrier \<Rightarrow> carrierResponse" where
  "toCarrierResponse c =
     \<lparr>cr_ID = c_ID c, cr_Name = c_Name c, cr_Host = c_Host c, cr_Port = c_Port c, cr_Transport = c_Transport c,
      cr_Username = c_Username c,
      cr_PasswordSet = (case c_PasswordEncrypted c of None \<Rightarrow> False | Some p \<Rightarrow> length p > 0),
      cr_Realm = c_Realm c, cr_Codecs = c_Codecs c, cr_CallerIDs = c_CallerIDs c, cr_MaxCPS = c_MaxCPS c,
      cr_MaxChannels = c_MaxChannels c, cr_Enabled = c_Enabled c, cr_Priority = c_Priority c,
      cr_CreatedAt = c_CreatedAt c\<rparr>"

datatype carrier_body = CarrierList "carrierResponse list" | CarrierOut carrierResponse

section \<open>Handlers\<close>

definition trimPtr :: "string option \<Rightarrow> string option" where
  "trimPtr v = (case v of None \<Rightarrow> None | Some x \<Rightarrow> (let s = trim_space x in if s = [] then None else Some s))"

text \<open>The message of the first field that is wrong, or the empty string.\<close>

definition validateCarrierFields :: "string \<Rightarrow> string \<Rightarrow> string \<Rightarrow> int \<Rightarrow> int \<Rightarrow> int option \<Rightarrow> string" where
  "validateCarrierFields name host transport maxCPS maxChannels port =
     (if name = [] then ''name_required''
      else if host = [] then ''host_required''
      else if transport \<notin> set [''udp'', ''tcp'', ''tls''] then ''invalid_transport''
      else if maxCPS \<le> 0 then ''invalid_max_cps''
      else if maxChannels \<le> 0 then ''invalid_max_channels''
      else if (case port of None \<Rightarrow> False | Some p \<Rightarrow> p \<le> 0 \<or> p > 65535) then ''invalid_port''
      else [])"

definition handleListCarriers :: "('r api, carrier_body) handler" where
  "handleListCarriers = callH (on_db Carrier_List) (\<lambda>_. internal_error)
     (\<lambda>cs. replyH 200 (CarrierList (map toCarrierResponse cs)))"

text \<open>The input of the store, the password sealed with the nonce drawn.\<close>

definition create_transport :: "createCarrierRequest \<Rightarrow> string" where
  "create_transport req =
     (let t = to_lower (trim_space (ccr_Transport req)) in if t = [] then ''udp'' else t)"

definition create_input :: "createCarrierRequest \<Rightarrow> string option \<Rightarrow> CreateCarrierInput" where
  "create_input req enc =
     \<lparr>cc_Name = trim_space (ccr_Name req), cc_Host = trim_space (ccr_Host req),
      cc_Port = or_keep (ccr_Port req) 5060, cc_Transport = create_transport req,
      cc_Username = trimPtr (ccr_Username req), cc_PasswordEncrypted = enc, cc_Realm = trimPtr (ccr_Realm req),
      cc_Codecs = ccr_Codecs req, cc_CallerIDs = ccr_CallerIDs req,
      cc_MaxCPS = or_keep (ccr_MaxCPS req) 30, cc_MaxChannels = or_keep (ccr_MaxChannels req) 100,
      cc_Enabled = or_keep (ccr_Enabled req) True, cc_Priority = or_keep (ccr_Priority req) 100\<rparr>"

definition create_password :: "crypto \<Rightarrow> Server \<Rightarrow> createCarrierRequest \<Rightarrow> string option \<Rightarrow> goerr + string option" where
  "create_password C S req nonce =
     (case ccr_Password req of
        None \<Rightarrow> Inr None
      | Some pw \<Rightarrow> if pw = [] then Inr None else map_sum id Some (Encrypt C (CarrierSecretKey S) pw nonce))"

definition create_problem :: "createCarrierRequest \<Rightarrow> string" where
  "create_problem req =
     validateCarrierFields (trim_space (ccr_Name req)) (trim_space (ccr_Host req)) (create_transport req)
       (or_keep (ccr_MaxCPS req) 30) (or_keep (ccr_MaxChannels req) 100) (ccr_Port req)"

definition handleCreateCarrier ::
  "crypto \<Rightarrow> uuid_lib \<Rightarrow> 'r redis option \<Rightarrow> Server \<Rightarrow> string option \<Rightarrow> createCarrierRequest option \<Rightarrow> ('r api, carrier_body) handler" where
  "handleCreateCarrier C U P S nonce body =
     (case body of
        None \<Rightarrow> failH 400 ''invalid_json''
      | Some req \<Rightarrow>
          if create_problem req \<noteq> [] then failH 400 (create_problem req)
          else case create_password C S req nonce of
            Inl _ \<Rightarrow> internal_error
          | Inr enc \<Rightarrow>
              callH (on_db (Carrier_Create (create_input req enc))) (\<lambda>_. internal_error) (\<lambda>created.
                ignoreH (publishCarriersChanged P (ustr U (c_ID created)))
                  (replyH 201 (CarrierOut (toCarrierResponse created)))))"

definition patch_problem :: "patchCarrierRequest \<Rightarrow> Carrier \<Rightarrow> string" where
  "patch_problem req cur =
     validateCarrierFields (or_keep (map_option trim_space (pcr_Name req)) (c_Name cur))
       (or_keep (map_option trim_space (pcr_Host req)) (c_Host cur))
       (or_keep (map_option (\<lambda>t. to_lower (trim_space t)) (pcr_Transport req)) (c_Transport cur))
       (or_keep (pcr_MaxCPS req) (c_MaxCPS cur)) (or_keep (pcr_MaxChannels req) (c_MaxChannels cur))
       (Some (or_keep (pcr_Port req) (c_Port cur)))"

definition patch_password :: "crypto \<Rightarrow> Server \<Rightarrow> patchCarrierRequest \<Rightarrow> string option \<Rightarrow> goerr + string option" where
  "patch_password C S req nonce =
     (case pcr_Password req of
        None \<Rightarrow> Inr None
      | Some pw \<Rightarrow> if pw = [] then Inr None else map_sum id Some (Encrypt C (CarrierSecretKey S) pw nonce))"

definition cleared :: "string option \<Rightarrow> bool" where
  "cleared v \<longleftrightarrow> (case v of None \<Rightarrow> False | Some x \<Rightarrow> trim_space x = [])"

definition patch_input :: "patchCarrierRequest \<Rightarrow> Carrier \<Rightarrow> string option \<Rightarrow> UpdateCarrierInput" where
  "patch_input req cur enc =
     \<lparr>uc_Name = Some (or_keep (map_option trim_space (pcr_Name req)) (c_Name cur)),
      uc_Host = Some (or_keep (map_option trim_space (pcr_Host req)) (c_Host cur)),
      uc_Port = pcr_Port req,
      uc_Transport = Some (or_keep (map_option (\<lambda>t. to_lower (trim_space t)) (pcr_Transport req)) (c_Transport cur)),
      uc_Username = trimPtr (pcr_Username req), uc_ClearUsername = cleared (pcr_Username req),
      uc_PasswordEncrypted = enc, uc_ClearPassword = (pcr_Password req = Some []),
      uc_Realm = trimPtr (pcr_Realm req), uc_ClearRealm = cleared (pcr_Realm req),
      uc_Codecs = pcr_Codecs req, uc_CallerIDs = pcr_CallerIDs req,
      uc_MaxCPS = Some (or_keep (pcr_MaxCPS req) (c_MaxCPS cur)),
      uc_MaxChannels = Some (or_keep (pcr_MaxChannels req) (c_MaxChannels cur)),
      uc_Enabled = pcr_Enabled req, uc_Priority = pcr_Priority req\<rparr>"

definition not_found_or_internal :: "goerr \<Rightarrow> ('s, 'b) handler" where
  "not_found_or_internal e = (if errors_is e ErrNotFound then failH 404 ''not_found'' else internal_error)"

definition handlePatchCarrier ::
  "crypto \<Rightarrow> uuid_lib \<Rightarrow> 'r redis option \<Rightarrow> Server \<Rightarrow> string option \<Rightarrow> string \<Rightarrow> patchCarrierRequest option \<Rightarrow> ('r api, carrier_body) handler" where
  "handlePatchCarrier C U P S nonce idp body =
     (case uparse U idp of
        None \<Rightarrow> failH 400 ''invalid_id''
      | Some i \<Rightarrow>
          (case body of
             None \<Rightarrow> failH 400 ''invalid_json''
           | Some req \<Rightarrow>
               callH (on_db (Carrier_Get i)) not_found_or_internal (\<lambda>cur.
                 if patch_problem req cur \<noteq> [] then failH 400 (patch_problem req cur)
                 else case patch_password C S req nonce of
                   Inl _ \<Rightarrow> internal_error
                 | Inr enc \<Rightarrow>
                     callH (on_db (Carrier_Update i (patch_input req cur enc))) not_found_or_internal (\<lambda>updated.
                       ignoreH (publishCarriersChanged P (ustr U (c_ID updated)))
                         (replyH 200 (CarrierOut (toCarrierResponse updated)))))))"

definition handleDeleteCarrier :: "uuid_lib \<Rightarrow> 'r redis option \<Rightarrow> string \<Rightarrow> ('r api, carrier_body) handler" where
  "handleDeleteCarrier U P idp =
     (case uparse U idp of
        None \<Rightarrow> failH 400 ''invalid_id''
      | Some i \<Rightarrow>
          callH (on_db (Carrier_Delete i)) not_found_or_internal (\<lambda>_.
            ignoreH (publishCarriersChanged P (ustr U i)) (\<lambda>s. (NoBody 204, s))))"

section \<open>Inbound numbers: \<open>dids.go\<close>\<close>

text \<open>The match of \<open>^[+][1-9][0-9]{1,14}$\<close>.\<close>

definition e164_match :: "string \<Rightarrow> bool" where
  "e164_match s \<longleftrightarrow>
     (case s of
        p # d # ds \<Rightarrow> p = CHR ''+'' \<and> is_digit d \<and> d \<noteq> CHR ''0'' \<and> list_all is_digit ds \<and>
                      1 \<le> length ds \<and> length ds \<le> 14
      | _ \<Rightarrow> False)"

record createDIDRequest =
  cdr_Number :: string
  cdr_Destination :: string
  cdr_CarrierID :: "uuid option"

definition handleCreateDID :: "createDIDRequest option \<Rightarrow> (dbst, DID) handler" where
  "handleCreateDID body =
     (case body of
        None \<Rightarrow> failH 400 ''invalid_json''
      | Some req \<Rightarrow>
          (let number = trim_space (cdr_Number req);
               dest0 = trim_space (cdr_Destination req);
               dest = (if dest0 = [] then ''agent_pool:default'' else dest0)
           in if \<not> e164_match number then failH 400 ''invalid_number''
              else if \<not> has_prefix dest ''agent_pool:'' \<and> dest \<noteq> ''queue:default''
              then failH 400 ''invalid_destination''
              else callH (DID_Create \<lparr>cd_Number = number, cd_Destination = dest, cd_CarrierID = cdr_CarrierID req\<rparr>)
                (\<lambda>_. internal_error) (\<lambda>created. replyH 201 created)))"

section \<open>Lemmas\<close>

lemma validateCarrierFields_ok:
  "validateCarrierFields name host tr cps ch port = [] \<longleftrightarrow>
     name \<noteq> [] \<and> host \<noteq> [] \<and> tr \<in> set transports \<and> 0 < cps \<and> 0 < ch \<and> (\<forall>p. port = Some p \<longrightarrow> 0 < p \<and> p \<le> 65535)"
  by (auto simp: validateCarrierFields_def transports_def split: option.split)

text \<open>The row of a request, apart from what the database adds.\<close>

definition row_of :: "createCarrierRequest \<Rightarrow> string option \<Rightarrow> Carrier \<Rightarrow> bool" where
  "row_of req enc c \<longleftrightarrow>
     c_Name c = trim_space (ccr_Name req) \<and> c_Host c = trim_space (ccr_Host req) \<and>
     c_Port c = or_keep (ccr_Port req) 5060 \<and> c_Transport c = create_transport req \<and>
     c_Username c = trimPtr (ccr_Username req) \<and> c_PasswordEncrypted c = enc \<and> c_Realm c = trimPtr (ccr_Realm req) \<and>
     c_Codecs c = or_keep (ccr_Codecs req) [''PCMU'', ''PCMA''] \<and> c_CallerIDs c = or_keep (ccr_CallerIDs req) [] \<and>
     c_MaxCPS c = or_keep (ccr_MaxCPS req) 30 \<and> c_MaxChannels c = or_keep (ccr_MaxChannels req) 100 \<and>
     c_Enabled c = or_keep (ccr_Enabled req) True \<and> c_Priority c = or_keep (ccr_Priority req) 100"

definition fits_int4 :: "createCarrierRequest \<Rightarrow> bool" where
  "fits_int4 req \<longleftrightarrow> int4 (or_keep (ccr_MaxCPS req) 30) \<and> int4 (or_keep (ccr_MaxChannels req) 100) \<and>
     int4 (or_keep (ccr_Priority req) 100)"

lemma Carrier_Create_run:
  assumes "db_faults s = []" "create_problem req = []" "db_rand s (db_drawn s) \<notin> c_ID ` set (carriers (tabs s))"
  shows "if fits_int4 req
    then \<exists>c. Carrier_Create (create_input req enc) s =
        (Inr c, s\<lparr>tabs := (tabs s)\<lparr>carriers := carriers (tabs s) @ [c]\<rparr>, db_drawn := db_drawn s + 1\<rparr>) \<and> row_of req enc c
    else \<exists>e s1. Carrier_Create (create_input req enc) s = (Inl e, s1) \<and> tabs s1 = tabs s"
proof -
  have p: "0 < or_keep (ccr_Port req) 5060 \<and> or_keep (ccr_Port req) 5060 \<le> 65535"
    using assms(2) by (auto simp: create_problem_def validateCarrierFields_ok or_keep_def split: option.splits)
  have v: "create_transport req \<in> set transports" "0 < or_keep (ccr_MaxCPS req) 30" "0 < or_keep (ccr_MaxChannels req) 100"
    using assms(2) by (simp_all add: create_problem_def validateCarrierFields_ok)
  have i: "int4 (or_keep (ccr_Port req) 5060)"
    using p by (simp add: int4_def)
  have keep: "(case o' of None \<Rightarrow> d | Some x \<Rightarrow> x) = or_keep o' d" for o' :: "string list option" and d
    by (simp add: or_keep_def)
  show ?thesis
    using assms(1, 3) p v i
    by (auto simp: Carrier_Create_def wrapE_def insert_carrier_def db_insert_def create_input_def carrier_check_def
        row_of_def Let_def keep fits_int4_def)
qed

section \<open>Properties\<close>

text \<open>
  Creating a carrier answers the first field that is wrong and changes nothing; with a right
  request, on a database that answers, it stores one carrier with the fields of the request,
  or their defaults, announces its id, and answers it without the password, which is stored
  sealed so that the key opens it again. The one request that passes the checks and is still
  answered as an internal error is one with a number that is too wide for its column.
\<close>

theorem create_carrier:
  assumes "crypto_library C" and "length (CarrierSecretKey S) = 32" and "length nonce = 12"
    and "db_faults (api_db w) = []" and "db_rand (api_db w) (db_drawn (api_db w)) \<notin> c_ID ` set (carriers (tabs (api_db w)))"
    and "handleCreateCarrier C U (Some R) S (Some nonce) (Some req) w = (q, w')"
  shows "if create_problem req \<noteq> [] then q = Fail 400 (create_problem req) \<and> w' = w
    else if \<not> fits_int4 req then q = Fail 500 ''internal_error'' \<and> tabs (api_db w') = tabs (api_db w)
    else \<exists>c enc. q = Reply 201 (CarrierOut (toCarrierResponse c)) \<and> row_of req enc c \<and>
      tabs (api_db w') = (tabs (api_db w))\<lparr>carriers := carriers (tabs (api_db w)) @ [c]\<rparr> \<and>
      api_redis w' = snd (rPublish R carriersChangedChannel (ustr U (c_ID c)) (api_redis w)) \<and>
      (case ccr_Password req of
         None \<Rightarrow> enc = None
       | Some pw \<Rightarrow> if pw = [] then enc = None
           else \<exists>blob. enc = Some blob \<and> Decrypt C (CarrierSecretKey S) blob = Inr pw)"
proof (cases "create_problem req = []")
  case False
  then show ?thesis using assms(6) by (simp add: handleCreateCarrier_def)
next
  case True
  obtain enc where enc: "create_password C S req (Some nonce) = Inr enc"
    and dec: "case ccr_Password req of None \<Rightarrow> enc = None
       | Some pw \<Rightarrow> if pw = [] then enc = None
           else \<exists>blob. enc = Some blob \<and> Decrypt C (CarrierSecretKey S) blob = Inr pw"
    using assms(2, 3) crypto_library.gcm_open_seal [OF assms(1-3)]
    by (cases "ccr_Password req"; cases "ccr_Password req = Some []")
       (auto simp: create_password_def Encrypt_def Decrypt_def newGCM_def keySize_def nonceSize_def)
  have "callH (on_db (Carrier_Create (create_input req enc))) (\<lambda>_. internal_error) (\<lambda>created.
      ignoreH (publishCarriersChanged (Some R) (ustr U (c_ID created)))
        (replyH 201 (CarrierOut (toCarrierResponse created)))) w = (q, w')"
    using assms(6) True enc by (simp add: handleCreateCarrier_def)
  note run = this [unfolded callH_iff on_db_def]
  show ?thesis
  proof (cases "fits_int4 req")
    case False
    then obtain e s1 where "Carrier_Create (create_input req enc) (api_db w) = (Inl e, s1)" "tabs s1 = tabs (api_db w)"
      using Carrier_Create_run [OF assms(4) True assms(5), of enc] by auto
    with run True False show ?thesis by auto
  next
    case fits: True
    then obtain c where c: "Carrier_Create (create_input req enc) (api_db w) =
        (Inr c, (api_db w)\<lparr>tabs := (tabs (api_db w))\<lparr>carriers := carriers (tabs (api_db w)) @ [c]\<rparr>,
                          db_drawn := db_drawn (api_db w) + 1\<rparr>)" and row: "row_of req enc c"
      using Carrier_Create_run [OF assms(4) True assms(5), of enc] by auto
    have "q = Reply 201 (CarrierOut (toCarrierResponse c)) \<and>
        tabs (api_db w') = (tabs (api_db w))\<lparr>carriers := carriers (tabs (api_db w)) @ [c]\<rparr> \<and>
        api_redis w' = snd (rPublish R carriersChangedChannel (ustr U (c_ID c)) (api_redis w))"
      using run c by (auto simp: ignoreH_def publishCarriersChanged_def split: prod.split_asm)
    moreover have no: "\<not> create_problem req \<noteq> []" "\<not> \<not> fits_int4 req" using True fits by simp_all
    ultimately show ?thesis using row dec unfolding if_not_P [OF no(1)] if_not_P [OF no(2)] by blast
  qed
qed

definition sample_carrier_request :: createCarrierRequest where
  "sample_carrier_request = \<lparr>ccr_Name = '' a'', ccr_Host = ''h'', ccr_Port = None, ccr_Transport = [], ccr_Username = None,
     ccr_Password = Some ''pw'', ccr_Realm = None, ccr_Codecs = None, ccr_CallerIDs = None, ccr_MaxCPS = None,
     ccr_MaxChannels = Some 3, ccr_Enabled = None, ccr_Priority = None\<rparr>"

theorem create_carrier_witness:
  "\<exists>c enc. fst (handleCreateCarrier ref_crypto ref_uuid (Some mem_redis) demo_server (Some ''123456789012'')
        (Some sample_carrier_request) \<lparr>api_db = db_of empty_tables, api_redis = mr_init\<rparr>) =
       Reply 201 (CarrierOut (toCarrierResponse c)) \<and> row_of sample_carrier_request enc c"
proof -
  let ?w = "\<lparr>api_db = db_of empty_tables, api_redis = mr_init\<rparr>"
  let ?m = "handleCreateCarrier ref_crypto ref_uuid (Some mem_redis) demo_server (Some ''123456789012'')
        (Some sample_carrier_request) ?w"
  have "create_problem sample_carrier_request = []" "fits_int4 sample_carrier_request" by code_simp+
  moreover have "length (CarrierSecretKey demo_server) = 32" "length ''123456789012'' = 12" "db_faults (api_db ?w) = []"
    "db_rand (api_db ?w) (db_drawn (api_db ?w)) \<notin> c_ID ` set (carriers (tabs (api_db ?w)))"
    by (simp_all add: demo_server_def db_of_def empty_tables_def)
  ultimately show ?thesis
    using create_carrier [OF ref_crypto.crypto_library_axioms _ _ _ _ surjective_pairing [of ?m]] by fastforce
qed

end
