(* ===== verification/Go_Utf8.thy ===== *)
theory Go_Utf8
  imports Go_Strings
begin

text \<open>
  UTF-8, as \<open>unicode/utf8\<close> decodes it: what \<open>range\<close> over a Go string, the CSV reader and the XML
  encoder see of a byte string.
\<close>

section \<open>Runes\<close>

text \<open>The first rune of a string that is not empty, and its width; a byte that starts none is U+FFFD.\<close>

abbreviation ibyte :: "char \<Rightarrow> int" where
  "ibyte c \<equiv> of_char c"

definition cont_byte :: "char \<Rightarrow> bool" where
  "cont_byte c \<longleftrightarrow> 0x80 \<le> ibyte c \<and> ibyte c \<le> 0xBF"

definition second_byte_ok :: "int \<Rightarrow> int \<Rightarrow> bool" where
  "second_byte_ok b b' \<longleftrightarrow>
     (if b = 0xE0 then 0xA0 \<le> b' \<and> b' \<le> 0xBF
      else if b = 0xED then 0x80 \<le> b' \<and> b' \<le> 0x9F
      else if b = 0xF0 then 0x90 \<le> b' \<and> b' \<le> 0xBF
      else if b = 0xF4 then 0x80 \<le> b' \<and> b' \<le> 0x8F
      else 0x80 \<le> b' \<and> b' \<le> 0xBF)"

fun decode_rune :: "string \<Rightarrow> int \<times> nat" where
  "decode_rune [] = (0xFFFD, 0)"
| "decode_rune (a # s) =
     (let b = ibyte a in
      if b < 0x80 then (b, 1)
      else if 0xC2 \<le> b \<and> b \<le> 0xDF then
        (case s of x # _ \<Rightarrow> if cont_byte x then ((b - 0xC0) * 64 + (ibyte x - 0x80), 2) else (0xFFFD, 1)
         | _ \<Rightarrow> (0xFFFD, 1))
      else if 0xE0 \<le> b \<and> b \<le> 0xEF then
        (case s of
           x # y # _ \<Rightarrow>
             if second_byte_ok b (ibyte x) \<and> cont_byte y
             then ((b - 0xE0) * 4096 + (ibyte x - 0x80) * 64 + (ibyte y - 0x80), 3) else (0xFFFD, 1)
         | _ \<Rightarrow> (0xFFFD, 1))
      else if 0xF0 \<le> b \<and> b \<le> 0xF4 then
        (case s of
           x # y # z # _ \<Rightarrow>
             if second_byte_ok b (ibyte x) \<and> cont_byte y \<and> cont_byte z
             then ((b - 0xF0) * 262144 + (ibyte x - 0x80) * 4096 + (ibyte y - 0x80) * 64 + (ibyte z - 0x80), 4)
             else (0xFFFD, 1)
         | _ \<Rightarrow> (0xFFFD, 1))
      else (0xFFFD, 1))"

lemma decode_rune_width: "s \<noteq> [] \<Longrightarrow> 0 < snd (decode_rune s)"
  by (cases s) (auto simp: Let_def split: list.split)

text \<open>The runes of a string with the bytes that encode them.\<close>

function runes :: "string \<Rightarrow> (int \<times> string) list" where
  "runes s =
     (if s = [] then []
      else (fst (decode_rune s), take (snd (decode_rune s)) s) # runes (drop (snd (decode_rune s)) s))"
  by pat_completeness auto
termination
  by (relation "measure length") (use decode_rune_width in auto)

declare runes.simps [simp del]

end
