(* ===== verification/Csv_Import.thy ===== *)
theory Csv_Import
  imports Go_Utf8 Go_Conv
begin

text \<open>
  The import of leads from a CSV file, \<open>services/api/internal/csvimport/parse.go\<close>, with what it
  uses of the standard library: the reader of \<open>encoding/csv\<close> with \<open>TrimLeadingSpace\<close> (its
  quoting, its line ends and its fixed number of fields) and the decimal digits of Unicode.
\<close>

section \<open>Digits and lower case of runes\<close>

text \<open>\<open>unicode.IsDigit\<close>: the category Nd, ranges of ten from the zeros given, and the mathematical digits.\<close>

definition nd_zeros :: "int list" where
  "nd_zeros =
     [0x30, 0x660, 0x6F0, 0x7C0, 0x966, 0x9E6, 0xA66, 0xAE6, 0xB66, 0xBE6, 0xC66, 0xCE6, 0xD66, 0xDE6,
      0xE50, 0xED0, 0xF20, 0x1040, 0x1090, 0x17E0, 0x1810, 0x1946, 0x19D0, 0x1A80, 0x1A90, 0x1B50,
      0x1BB0, 0x1C40, 0x1C50, 0xA620, 0xA8D0, 0xA900, 0xA9D0, 0xA9F0, 0xAA50, 0xABF0, 0xFF10, 0x104A0,
      0x10D30, 0x11066, 0x110F0, 0x11136, 0x111D0, 0x112F0, 0x11450, 0x114D0, 0x11650, 0x116C0,
      0x11730, 0x118E0, 0x11950, 0x11C50, 0x11D50, 0x11DA0, 0x11F50, 0x16A60, 0x16AC0, 0x16B50,
      0x1E140, 0x1E2F0, 0x1E4F0, 0x1E950, 0x1FBF0]"

definition unicode_digit :: "int \<Rightarrow> bool" where
  "unicode_digit r \<longleftrightarrow> list_ex (\<lambda>z. z \<le> r \<and> r \<le> z + 9) nd_zeros \<or> 0x1D7CE \<le> r \<and> r \<le> 0x1D7FF"

text \<open>
  \<open>strings.ToLower\<close> on the runes whose lower case is in Latin-1: those of ASCII and Latin-1 and
  the signs that fold into them. No other rune lowers to a letter of a header that is looked for.
\<close>

definition lower_rune :: "int \<Rightarrow> int" where
  "lower_rune r =
     (if 65 \<le> r \<and> r \<le> 90 \<or> 0xC0 \<le> r \<and> r \<le> 0xDE \<and> r \<noteq> 0xD7 then r + 32
      else if r = 0x130 then 0x69 else if r = 0x178 then 0xFF else if r = 0x1E9E then 0xDF
      else if r = 0x212A then 0x6B else if r = 0x212B then 0xE5 else r)"

section \<open>The reader of \<open>encoding/csv\<close>\<close>

definition nl :: char where "nl = CHR 0x0A"
definition cr :: char where "cr = CHR 0x0D"
definition dquote :: char where "dquote = CHR 0x22"
definition comma :: char where "comma = CHR 0x2C"

lemma csv_chars [simp]: "nl \<noteq> cr" "nl \<noteq> dquote" "nl \<noteq> comma" "cr \<noteq> dquote" "cr \<noteq> comma" "dquote \<noteq> comma"
  "cr \<noteq> nl" "dquote \<noteq> nl" "comma \<noteq> nl" "dquote \<noteq> cr" "comma \<noteq> cr" "comma \<noteq> dquote"
  by (simp_all add: nl_def cr_def dquote_def comma_def)

datatype csv_error = CsvEOF | ErrBareQuote | ErrQuote | ErrFieldCount | MissingPhoneColumn

definition drop_cr :: "string \<Rightarrow> string" where
  "drop_cr l = (if l \<noteq> [] \<and> last l = cr then butlast l else l)"

text \<open>A line with its newline, a carriage return before it dropped, and the rest; \<open>None\<close> at the end.\<close>

definition readLine :: "string \<Rightarrow> (string \<times> string) option" where
  "readLine s =
     (if s = [] then None
      else case dropWhile (\<lambda>c. c \<noteq> nl) s of
             [] \<Rightarrow> Some (drop_cr (takeWhile (\<lambda>c. c \<noteq> nl) s), [])
           | _ # r \<Rightarrow> Some (drop_cr (takeWhile (\<lambda>c. c \<noteq> nl) s) @ [nl], r))"

definition lengthNL :: "string \<Rightarrow> nat" where
  "lengthNL line = (if line \<noteq> [] \<and> last line = nl then 1 else 0)"

lemma drop_cr_length: "length (drop_cr l) \<le> length l"
  by (simp add: drop_cr_def)

lemma readLine_length:
  assumes "readLine s = Some (l, r)"
  shows "length l + length r \<le> length s" and "length r < length s"
proof -
  have s: "length (takeWhile (\<lambda>c. c \<noteq> nl) s) + length (dropWhile (\<lambda>c. c \<noteq> nl) s) = length s"
    by (metis length_append takeWhile_dropWhile_id)
  show "length l + length r \<le> length s"
    using assms s drop_cr_length [of "takeWhile (\<lambda>c. c \<noteq> nl) s"]
    by (auto simp: readLine_def split: if_splits list.splits)
  show "length r < length s"
    using assms s by (auto simp: readLine_def split: if_splits list.splits)
qed

text \<open>Lines that are empty are skipped.\<close>

function nextLine :: "string \<Rightarrow> (string \<times> string) option" where
  "nextLine s =
     (case readLine s of
        None \<Rightarrow> None
      | Some (l, r) \<Rightarrow> if length l = lengthNL l then nextLine r else Some (l, r))"
  by pat_completeness auto
termination
  by (relation "measure length") (auto dest: readLine_length)

declare nextLine.simps [simp del]

lemma nextLine_length: "nextLine s = Some (l, r) \<Longrightarrow> length r < length s \<and> length l + length r \<le> length s"
proof (induction s rule: nextLine.induct)
  case (1 s)
  then show ?case
    by (subst (asm) nextLine.simps)
       (fastforce split: option.splits prod.splits if_splits dest: readLine_length)
qed

text \<open>One more field in front of a record.\<close>

definition cons_field :: "string \<Rightarrow> csv_error + string list \<times> string \<Rightarrow> csv_error + string list \<times> string" where
  "cons_field f r = (case r of Inl e \<Rightarrow> Inl e | Inr (fs, rest) \<Rightarrow> Inr (f # fs, rest))"

text \<open>
  The fields from a point of a line on, with the lines after it, for a quoted field may go on
  there. \<open>quoted_field\<close> has read the part \<open>buf\<close> of its field.
\<close>

function (sequential) read_fields :: "string \<Rightarrow> string \<Rightarrow> csv_error + string list \<times> string"
  and quoted_field :: "string \<Rightarrow> string \<Rightarrow> string \<Rightarrow> csv_error + string list \<times> string" where
  "read_fields line rest =
     (let l = trim_left line in
      if l = [] \<or> hd l \<noteq> dquote then
        (let f = takeWhile (\<lambda>c. c \<noteq> comma) l in
         case dropWhile (\<lambda>c. c \<noteq> comma) l of
           [] \<Rightarrow> (let g = (if lengthNL f = 1 then butlast f else f)
                 in if dquote \<in> set g then Inl ErrBareQuote else Inr ([g], rest))
         | _ # l' \<Rightarrow> if dquote \<in> set f then Inl ErrBareQuote else cons_field f (read_fields l' rest))
      else quoted_field [] (tl l) rest)"
| "quoted_field buf line rest =
     (let a = takeWhile (\<lambda>c. c \<noteq> dquote) line in
      case dropWhile (\<lambda>c. c \<noteq> dquote) line of
        _ # l' \<Rightarrow>
          (case l' of
             [] \<Rightarrow> Inr ([buf @ a], rest)
           | c # l'' \<Rightarrow>
               if c = dquote then quoted_field (buf @ a @ [dquote]) l'' rest
               else if c = comma then cons_field (buf @ a) (read_fields l'' rest)
               else if length l' = lengthNL l' then Inr ([buf @ a], rest)
               else Inl ErrQuote)
      | [] \<Rightarrow>
          if line = [] then Inl ErrQuote
          else (case readLine rest of
                  None \<Rightarrow> Inl ErrQuote
                | Some (l, r) \<Rightarrow> quoted_field (buf @ line) l r))"
  by pat_completeness auto
termination
proof (relation "measure (\<lambda>x. case x of Inl (line, rest) \<Rightarrow> length line + length rest
     | Inr (buf, line, rest) \<Rightarrow> length line + length rest)", goal_cases)
  case (2 line rest l f c l')
  have "length l \<le> length line"
    using trim_with_suffix [of go_spaces line] 2(1) by (simp add: trim_left_def suffix_length_le)
  moreover have "length l' < length l"
    using 2(4) length_dropWhile_le [of "\<lambda>c. c \<noteq> comma" l] by simp
  ultimately show ?case by simp
next
  case (3 line rest l)
  have "length l \<le> length line"
    using trim_with_suffix [of go_spaces line] 3(1) by (simp add: trim_left_def suffix_length_le)
  moreover have "length (tl l) < length l" using 3(2) by simp
  ultimately show ?case by simp
next
  case (4 buf line rest a x l r)
  then show ?case using readLine_length(1) [of rest l r] by (cases line) auto
next
  case (5 buf line rest a c l' c' l'')
  then show ?case using length_dropWhile_le [of "\<lambda>c. c \<noteq> dquote" line] by simp
next
  case (6 buf line rest a c l' c' l'')
  then show ?case using length_dropWhile_le [of "\<lambda>c. c \<noteq> dquote" line] by simp
qed auto

declare read_fields.simps [simp del] quoted_field.simps [simp del]

text \<open>One record; \<open>n\<close> is the number of fields of the first, 0 before it.\<close>

definition readRecord :: "nat \<Rightarrow> string \<Rightarrow> csv_error + string list \<times> string" where
  "readRecord n s =
     (case nextLine s of
        None \<Rightarrow> Inl CsvEOF
      | Some (l, r) \<Rightarrow>
          (case read_fields l r of
             Inl e \<Rightarrow> Inl e
           | Inr (fs, r') \<Rightarrow> if n > 0 \<and> length fs \<noteq> n then Inl ErrFieldCount else Inr (fs, r')))"

lemma cons_field_Inr: "cons_field f r = Inr (gs, t) \<longleftrightarrow> (\<exists>fs. r = Inr (fs, t) \<and> gs = f # fs)"
  by (cases r) (auto simp: cons_field_def)

lemma read_fields_rest:
  "read_fields line rest = Inr (fs, r) \<Longrightarrow> length r \<le> length rest \<and> fs \<noteq> []"
  "quoted_field buf line rest = Inr (fs, r) \<Longrightarrow> length r \<le> length rest \<and> fs \<noteq> []"
proof (induction line rest and buf line rest arbitrary: fs and fs rule: read_fields_quoted_field.induct)
  case (1 line rest)
  note run = 1(3) [unfolded read_fields.simps [of line rest] Let_def]
  show ?case
  proof (cases "trim_left line = [] \<or> hd (trim_left line) \<noteq> dquote")
    case False
    then show ?thesis using run 1(2) [OF refl False] by simp
  next
    case True
    then show ?thesis
      using run 1(1) [OF refl True refl] by (auto simp: cons_field_Inr split: list.split_asm if_split_asm)
  qed
next
  case (2 buf line rest)
  note run = 2(4) [unfolded quoted_field.simps [of buf line rest] Let_def]
  show ?case
  proof (cases "dropWhile (\<lambda>c. c \<noteq> dquote) line")
    case Nil
    then obtain l r' where l: "line \<noteq> []" "readLine rest = Some (l, r')" "quoted_field (buf @ line) l r' = Inr (fs, r)"
      using run [unfolded Nil list.case] by (auto split: if_split_asm option.split_asm)
    then show ?thesis using 2(1) [OF refl Nil l(1, 2) refl] readLine_length(2) [OF l(2)] by force
  next
    case (Cons x l')
    show ?thesis
    proof (cases l')
      case Nil
      then show ?thesis using run [unfolded Cons list.case] by auto
    next
      case c: (Cons c l'')
      show ?thesis
        using run [unfolded Cons c list.case] 2(2) [OF refl Cons c] 2(3) [OF refl Cons c]
        by (auto simp: cons_field_Inr split: if_split_asm)
    qed
  qed
qed

lemma readRecord_rest: "readRecord n s = Inr (fs, r) \<Longrightarrow> length r < length s \<and> fs \<noteq> []"
  unfolding readRecord_def
  by (auto split: option.split_asm sum.split_asm if_split_asm dest!: nextLine_length read_fields_rest(1))

section \<open>\<open>Parse\<close>\<close>

record LeadRow =
  lr_Line :: int
  lr_Phone :: string
  lr_Payload :: "(string \<times> string) list"

record RowError =
  re_Line :: int
  re_Reason :: string

text \<open>The names of the column, as runes: \<open>phone\<close>, \<open>telephone\<close> with and without accents, \<open>mobile\<close>.\<close>

definition phoneHeaderAliases :: "int list list" where
  "phoneHeaderAliases =
     [map of_char ''phone'', [0x74, 0xE9, 0x6C, 0xE9, 0x70, 0x68, 0x6F, 0x6E, 0x65], map of_char ''telephone'',
      map of_char ''mobile'']"

definition normalizeHeader :: "string \<Rightarrow> int list" where
  "normalizeHeader h = map (lower_rune \<circ> fst) (runes (trim_space h))"

definition digits_of :: "string \<Rightarrow> string" where
  "digits_of raw = concat (map snd (filter (\<lambda>r. unicode_digit (fst r)) (runes raw)))"

definition normalizePhone :: "string \<Rightarrow> string option" where
  "normalizePhone raw =
     (let s = trim_space raw in
      if s = [] then None
      else let d = digits_of s in
           if length d < 8 \<or> length d > 15 then None else Some (CHR ''+'' # d))"

definition allEmpty :: "string list \<Rightarrow> bool" where
  "allEmpty rec \<longleftrightarrow> list_all (\<lambda>v. trim_space v = []) rec"

definition phone_column :: "string list \<Rightarrow> nat option" where
  "phone_column headers =
     (case dropWhile (\<lambda>i. normalizeHeader (headers ! i) \<notin> set phoneHeaderAliases) [0..<length headers] of
        [] \<Rightarrow> None
      | i # _ \<Rightarrow> Some i)"

text \<open>A map is the list of its entries; a key that comes again takes the later value.\<close>

definition put :: "string \<Rightarrow> string \<Rightarrow> (string \<times> string) list \<Rightarrow> (string \<times> string) list" where
  "put k v m = filter (\<lambda>e. fst e \<noteq> k) m @ [(k, v)]"

fun payload_of :: "nat \<Rightarrow> nat \<Rightarrow> string list \<Rightarrow> string list \<Rightarrow> (string \<times> string) list \<Rightarrow> (string \<times> string) list" where
  "payload_of phoneIdx i [] rec m = m"
| "payload_of phoneIdx i (h # hs) rec m =
     (let key = trim_space h;
          val = (if i < length rec then trim_space (rec ! i) else [])
      in payload_of phoneIdx (i + 1) hs rec
           (if i = phoneIdx \<or> key = [] \<or> val = [] then m else put key val m))"

text \<open>What one record adds: nothing, an error or a lead.\<close>

datatype row_result = SkipRow | BadRow RowError | GoodRow LeadRow

definition parse_row :: "string list \<Rightarrow> nat \<Rightarrow> int \<Rightarrow> string list \<Rightarrow> row_result" where
  "parse_row headers phoneIdx line rec =
     (if rec = [] \<or> allEmpty rec then SkipRow
      else case normalizePhone (if phoneIdx < length rec then rec ! phoneIdx else []) of
        None \<Rightarrow> BadRow \<lparr>re_Line = line, re_Reason = ''invalid_phone''\<rparr>
      | Some phone \<Rightarrow> GoodRow \<lparr>lr_Line = line, lr_Phone = phone, lr_Payload = payload_of phoneIdx 0 headers rec []\<rparr>)"

definition add_row :: "row_result \<Rightarrow> LeadRow list \<times> RowError list \<Rightarrow> LeadRow list \<times> RowError list" where
  "add_row r acc =
     (case r of
        SkipRow \<Rightarrow> acc
      | BadRow e \<Rightarrow> (fst acc, snd acc @ [e])
      | GoodRow l \<Rightarrow> (fst acc @ [l], snd acc))"

text \<open>The loop over the records; the third part of the result is the error that stopped it.\<close>

function parse_rows :: "string list \<Rightarrow> nat \<Rightarrow> int \<Rightarrow> LeadRow list \<times> RowError list \<Rightarrow> string \<Rightarrow>
    LeadRow list \<times> RowError list \<times> csv_error option" where
  "parse_rows headers phoneIdx line acc s =
     (case readRecord (length headers) s of
        Inl e \<Rightarrow> (fst acc, snd acc, if e = CsvEOF then None else Some e)
      | Inr (rec, s') \<Rightarrow> parse_rows headers phoneIdx (line + 1) (add_row (parse_row headers phoneIdx line rec) acc) s')"
  by pat_completeness auto
termination
  by (relation "measure (\<lambda>(h, p, l, acc, s). length s)") (auto dest: readRecord_rest)

declare parse_rows.simps [simp del]

definition Parse :: "string \<Rightarrow> LeadRow list \<times> RowError list \<times> csv_error option" where
  "Parse text =
     (case readRecord 0 text of
        Inl e \<Rightarrow> ([], [], Some e)
      | Inr (headers, s) \<Rightarrow>
          (case phone_column headers of
             None \<Rightarrow> ([], [], Some MissingPhoneColumn)
           | Some phoneIdx \<Rightarrow> parse_rows headers phoneIdx 2 ([], []) s))"

section \<open>Reading back what is written with quotes\<close>

definition csv_escape :: "string \<Rightarrow> string" where
  "csv_escape f = concat (map (\<lambda>c. if c = dquote then [dquote, dquote] else [c]) f)"

fun csv_fields :: "string list \<Rightarrow> string" where
  "csv_fields [] = [nl]"
| "csv_fields [f] = dquote # csv_escape f @ [dquote, nl]"
| "csv_fields (f # fs) = dquote # csv_escape f @ [dquote, comma] @ csv_fields fs"

definition csv_text :: "string list list \<Rightarrow> string" where
  "csv_text rows = concat (map csv_fields rows)"

definition no_cr :: "string \<Rightarrow> bool" where
  "no_cr s \<longleftrightarrow> cr \<notin> set s"

lemma csv_escape_simps [simp]:
  "csv_escape [] = []" "csv_escape (c # f) = (if c = dquote then [dquote, dquote] else [c]) @ csv_escape f"
  by (simp_all add: csv_escape_def)

lemma no_cr_simps [simp]: "no_cr []" "no_cr (c # s) \<longleftrightarrow> c \<noteq> cr \<and> no_cr s" "no_cr (s @ t) \<longleftrightarrow> no_cr s \<and> no_cr t"
  by (auto simp: no_cr_def)

lemma no_cr_escape [simp]: "no_cr (csv_escape f) = no_cr f"
  by (induction f) auto

lemma no_cr_fields [simp]: "no_cr (csv_fields fs) = (\<forall>f \<in> set fs. no_cr f)"
  by (induction fs rule: csv_fields.induct) auto

text \<open>The first line of a text, with its newline, and the rest.\<close>

definition cut :: "string \<Rightarrow> string \<times> string" where
  "cut s = (case dropWhile (\<lambda>c. c \<noteq> nl) s of
     [] \<Rightarrow> (takeWhile (\<lambda>c. c \<noteq> nl) s, [])
   | _ # r \<Rightarrow> (takeWhile (\<lambda>c. c \<noteq> nl) s @ [nl], r))"

lemma cut_Cons: "c \<noteq> nl \<Longrightarrow> cut (c # s) = (case cut s of (l, r) \<Rightarrow> (c # l, r))"
  by (cases "dropWhile (\<lambda>c. c \<noteq> nl) s") (simp_all add: cut_def del: dropWhile_eq_Nil_conv)

lemma cut_nl [simp]: "cut (nl # s) = ([nl], s)"
  by (simp add: cut_def)

lemma drop_cr_no_cr: "no_cr l \<Longrightarrow> drop_cr l = l"
  by (metis drop_cr_def last_in_set no_cr_def)

lemma readLine_cut:
  assumes "s \<noteq> []" "no_cr s"
  shows "readLine s = Some (cut s)"
proof -
  have "no_cr (takeWhile (\<lambda>c. c \<noteq> nl) s)"
    using assms(2) by (auto simp: no_cr_def dest: set_takeWhileD)
  then show ?thesis
    using assms(1) by (cases "dropWhile (\<lambda>c. c \<noteq> nl) s")
      (simp_all add: readLine_def cut_def drop_cr_no_cr del: dropWhile_eq_Nil_conv)
qed

text \<open>A quoted field reads up to its closing quote, over the ends of lines in it.\<close>

lemma quoted_field_Cons:
  assumes "c \<noteq> dquote" "l \<noteq> []"
  shows "quoted_field buf (c # l) r = quoted_field (buf @ [c]) l r"
  unfolding quoted_field.simps [of buf "c # l" r] quoted_field.simps [of "buf @ [c]" l r] Let_def
  using assms by (cases "dropWhile (\<lambda>c. c \<noteq> dquote) l") (simp_all del: dropWhile_eq_Nil_conv split: list.split option.split)

lemma cut_nonempty: "s \<noteq> [] \<Longrightarrow> fst (cut s) \<noteq> []"
  by (cases s) (auto simp: cut_def split: list.split)

lemma quoted_field_escape:
  assumes "no_cr f" and "no_cr t"
  shows "(\<lambda>(l, r). quoted_field buf l r) (cut (csv_escape f @ dquote # t)) =
    (\<lambda>(l, r). quoted_field (buf @ f) l r) (cut (dquote # t))"
  using assms(1)
proof (induction f arbitrary: buf)
  case (Cons c f)
  let ?s = "csv_escape f @ dquote # t"
  obtain l r where lr: "cut ?s = (l, r)" by (cases "cut ?s")
  have l: "l \<noteq> []" using cut_nonempty [of ?s] lr by simp
  have IH: "quoted_field (buf @ [c]) l r = (\<lambda>(l, r). quoted_field (buf @ c # f) l r) (cut (dquote # t))"
    using Cons.IH [of "buf @ [c]"] Cons.prems lr by simp
  consider "c = dquote" | "c = nl" | "c \<noteq> dquote" "c \<noteq> nl" by blast
  then show ?case
  proof cases
    case 1
    have "quoted_field buf (dquote # dquote # l) r = quoted_field (buf @ [dquote]) l r"
      by (subst quoted_field.simps) simp
    then show ?thesis using 1 IH lr by (simp add: cut_Cons)
  next
    case 2
    have "readLine ?s = Some (l, r)"
      using lr Cons.prems assms(2) by (subst readLine_cut) auto
    then have "quoted_field buf [nl] ?s = quoted_field (buf @ [nl]) l r"
      by (subst quoted_field.simps) simp
    then show ?thesis using 2 IH by simp
  next
    case 3
    then show ?thesis using IH lr quoted_field_Cons [OF 3(1) l] by (simp add: cut_Cons)
  qed
qed simp

lemma trim_left_dquote [simp]: "trim_left (dquote # s) = dquote # s"
  unfolding trim_left_def
  by (rule trim_with_id) (auto simp: no_space_at_def go_spaces_def dquote_def)

lemma read_fields_dquote: "read_fields (dquote # l) r = quoted_field [] l r"
  by (subst read_fields.simps) simp

lemma read_fields_text:
  assumes "fs \<noteq> []" "\<forall>f \<in> set fs. no_cr f" "no_cr t"
  shows "(\<lambda>(l, r). read_fields l r) (cut (csv_fields fs @ t)) = Inr (fs, t)"
  using assms
proof (induction fs rule: csv_fields.induct)
  case (2 f)
  obtain l r where lr: "cut (csv_escape f @ dquote # nl # t) = (l, r)" by (metis surj_pair)
  have "quoted_field f [dquote, nl] t = Inr ([f], t)"
    by (subst quoted_field.simps) (simp add: lengthNL_def)
  then have "quoted_field [] l r = Inr ([f], t)"
    using quoted_field_escape [of f "nl # t" "[]"] 2 lr by (simp add: cut_Cons)
  then show ?case using lr by (simp add: cut_Cons read_fields_dquote)
next
  case (3 f g fs)
  let ?t = "csv_fields (g # fs) @ t"
  obtain l r where lr: "cut (csv_escape f @ dquote # comma # ?t) = (l, r)" by (metis surj_pair)
  obtain l' r' where lr': "cut ?t = (l', r')" by (metis surj_pair)
  have IH: "read_fields l' r' = Inr (g # fs, t)"
    using 3 lr' by simp
  have "quoted_field f (dquote # comma # l') r' = Inr (f # g # fs, t)"
    by (subst quoted_field.simps) (simp add: IH cons_field_def)
  then have "quoted_field [] l r = Inr (f # g # fs, t)"
    using quoted_field_escape [of f "comma # ?t" "[]"] 3 lr lr' by (simp add: cut_Cons)
  then show ?case using lr by (simp add: cut_Cons read_fields_dquote)
qed simp

lemma readRecord_text:
  assumes "fs \<noteq> []" "\<forall>f \<in> set fs. no_cr f" "no_cr t" "n = 0 \<or> length fs = n"
  shows "readRecord n (csv_fields fs @ t) = Inr (fs, t)"
proof -
  let ?s = "csv_fields fs @ t"
  obtain l r where lr: "cut ?s = (l, r)" by (metis surj_pair)
  obtain f fs' where fs: "fs = f # fs'" using assms(1) by (cases fs) auto
  have ne: "?s \<noteq> []" and hd: "\<exists>u. ?s = dquote # u" by (cases fs'; simp add: fs)+
  then obtain u where "?s = dquote # u" by blast
  then have l: "\<exists>l'. l = dquote # l'"
    using lr by (auto simp: cut_Cons split: prod.split_asm)
  have "no_cr ?s" using assms(2, 3) by simp
  then have "readLine ?s = Some (l, r)" using readLine_cut [OF ne] lr by simp
  moreover have "length l \<noteq> lengthNL l"
    using l by (auto simp: lengthNL_def)
  ultimately have "nextLine ?s = Some (l, r)"
    by (subst nextLine.simps) simp
  moreover have "read_fields l r = Inr (fs, t)"
    using read_fields_text [OF assms(1-3)] lr by simp
  ultimately show ?thesis using assms(4) by (auto simp: readRecord_def)
qed

text \<open>The rows of a table, each judged on its own, with the number of its line.\<close>

definition good_rows :: "row_result list \<Rightarrow> LeadRow list" where
  "good_rows rs = concat (map (\<lambda>r. case r of GoodRow l \<Rightarrow> [l] | _ \<Rightarrow> []) rs)"

definition bad_rows :: "row_result list \<Rightarrow> RowError list" where
  "bad_rows rs = concat (map (\<lambda>r. case r of BadRow e \<Rightarrow> [e] | _ \<Rightarrow> []) rs)"

fun judge_rows :: "string list \<Rightarrow> nat \<Rightarrow> int \<Rightarrow> string list list \<Rightarrow> row_result list" where
  "judge_rows headers p line [] = []"
| "judge_rows headers p line (r # rs) = parse_row headers p line r # judge_rows headers p (line + 1) rs"

lemma good_rows_Cons: "good_rows (r # rs) = fst (add_row r ([], [])) @ good_rows rs"
  and bad_rows_Cons: "bad_rows (r # rs) = snd (add_row r ([], [])) @ bad_rows rs"
  by (cases r; simp add: good_rows_def bad_rows_def add_row_def)+

lemma add_row_acc: "add_row r acc = (fst acc @ fst (add_row r ([], [])), snd acc @ snd (add_row r ([], [])))"
  by (cases r) (simp_all add: add_row_def)

lemma csv_text_simps: "csv_text [] = []" "csv_text (r # rows) = csv_fields r @ csv_text rows"
  by (simp_all add: csv_text_def)

lemma no_cr_text [simp]: "no_cr (csv_text rows) = (\<forall>r \<in> set rows. \<forall>f \<in> set r. no_cr f)"
  by (induction rows) (simp_all add: csv_text_def)

lemma readRecord_end: "readRecord n [] = Inl CsvEOF"
  by (simp add: readRecord_def nextLine.simps readLine_def)

lemma parse_rows_text:
  assumes "headers \<noteq> []" "\<forall>r \<in> set rows. length r = length headers \<and> (\<forall>f \<in> set r. no_cr f)"
  shows "parse_rows headers p line acc (csv_text rows) =
    (fst acc @ good_rows (judge_rows headers p line rows), snd acc @ bad_rows (judge_rows headers p line rows), None)"
  using assms(2)
proof (induction rows arbitrary: line acc)
  case Nil
  then show ?case
    by (subst parse_rows.simps) (simp add: csv_text_simps readRecord_end good_rows_def bad_rows_def)
next
  case (Cons r rows)
  have "r \<noteq> []" using Cons.prems assms(1) by auto
  then have "readRecord (length headers) (csv_text (r # rows)) = Inr (r, csv_text rows)"
    using readRecord_text [of r "csv_text rows" "length headers"] Cons.prems by (simp add: csv_text_simps)
  then show ?case
    using Cons.IH [of "line + 1" "add_row (parse_row headers p line r) acc"] Cons.prems
      add_row_acc [of "parse_row headers p line r" acc]
    by (subst parse_rows.simps) (simp add: good_rows_Cons bad_rows_Cons)
qed

lemma judge_rows_length: "length (judge_rows headers p line rows) = length rows"
  by (induction rows arbitrary: line) auto

lemma rows_counted:
  "length (good_rows rs) + length (bad_rows rs) + length (filter (\<lambda>r. r = SkipRow) rs) = length rs"
  by (induction rs) (auto simp: good_rows_Cons bad_rows_Cons add_row_def good_rows_def bad_rows_def split: row_result.split)

section \<open>Properties\<close>



end
