(* ===== verification/Go_Time.thy ===== *)
theory Go_Time
  imports Cps_Limiter
begin

text \<open>
  What the API uses of Go's package \<open>time\<close>: the format RFC 3339 of an instant in UTC and
  \<open>time.Parse\<close> for it, with the leniency of Go (an hour of one digit, any number of digits of a
  second after a period or a comma, offsets of up to 24 hours and 60 minutes). An instant is the
  number of nanoseconds since 1970, as everywhere in the development.
\<close>

section \<open>The calendar\<close>

definition days_from_civil :: "int \<Rightarrow> int \<Rightarrow> int \<Rightarrow> int" where
  "days_from_civil y m d =
     (let y' = (if m \<le> 2 then y - 1 else y);
          doy = (153 * (if m > 2 then m - 3 else m + 9) + 2) div 5 + d - 1;
          yoe = y' mod 400
      in y' div 400 * 146097 + (yoe * 365 + yoe div 4 - yoe div 100 + doy) - 719468)"

definition civil_from_days :: "int \<Rightarrow> int \<times> int \<times> int" where
  "civil_from_days z0 =
     (let z = z0 + 719468;
          doe = z mod 146097;
          yoe = (doe - doe div 1460 + doe div 36524 - doe div 146096) div 365;
          doy = doe - (365 * yoe + yoe div 4 - yoe div 100);
          mp = (5 * doy + 2) div 153;
          d = doy - (153 * mp + 2) div 5 + 1;
          m = (if mp < 10 then mp + 3 else mp - 9)
      in (yoe + z div 146097 * 400 + (if m \<le> 2 then 1 else 0), m, d))"

definition leap_year :: "int \<Rightarrow> bool" where
  "leap_year y \<longleftrightarrow> y mod 4 = 0 \<and> (y mod 100 \<noteq> 0 \<or> y mod 400 = 0)"

definition days_in :: "int \<Rightarrow> int \<Rightarrow> int" where
  "days_in m y = (if m = 2 then (if leap_year y then 29 else 28) else if m \<in> {4, 6, 9, 11} then 30 else 31)"

section \<open>Format\<close>

definition pad_int :: "nat \<Rightarrow> int \<Rightarrow> string" where
  "pad_int w i =
     (let s = nat_str (nat \<bar>i\<bar>)
      in (if i < 0 then ''-'' else []) @ replicate (w - length s) (CHR ''0'') @ s)"

definition format_rfc3339 :: "time \<Rightarrow> string" where
  "format_rfc3339 t =
     (let sec = t div second;
          (y, m, d) = civil_from_days (sec div 86400);
          s = sec mod 86400
      in pad_int 4 y @ ''-'' @ pad_int 2 m @ ''-'' @ pad_int 2 d @ ''T'' @ pad_int 2 (s div 3600) @ '':'' @
         pad_int 2 (s div 60 mod 60) @ '':'' @ pad_int 2 (s mod 60) @ ''Z'')"

section \<open>Parse\<close>

text \<open>\<open>getnum\<close>: two digits, or one where the format allows it.\<close>

definition getnum :: "bool \<Rightarrow> string \<Rightarrow> (int \<times> string) option" where
  "getnum fixed s =
     (case s of
        a # b # r \<Rightarrow>
          if \<not> is_digit a then None
          else if is_digit b then Some (int (digit_val a) * 10 + int (digit_val b), r)
          else if fixed then None else Some (int (digit_val a), b # r)
      | [a] \<Rightarrow> if is_digit a \<and> \<not> fixed then Some (int (digit_val a), []) else None
      | [] \<Rightarrow> None)"

definition getyear :: "string \<Rightarrow> (int \<times> string) option" where
  "getyear s =
     (if length s < 4 \<or> \<not> list_all is_digit (take 4 s) then None
      else Some (int (digits_val (take 4 s)), drop 4 s))"

definition skip_char :: "char \<Rightarrow> string \<Rightarrow> string option" where
  "skip_char c s = (case s of d # r \<Rightarrow> if d = c then Some r else None | [] \<Rightarrow> None)"

text \<open>A part of a second, read where there is one: at most nine digits count.\<close>

definition getfraction :: "string \<Rightarrow> int \<times> string" where
  "getfraction s =
     (case s of
        p # d # r \<Rightarrow>
          if (p = CHR ''.'' \<or> p = CHR '','') \<and> is_digit d
          then (let ds = take 9 (takeWhile is_digit (d # r))
                in (int (digits_val ds) * 10 ^ (9 - length ds), dropWhile is_digit (d # r)))
          else (0, s)
      | _ \<Rightarrow> (0, s))"

definition getzone :: "string \<Rightarrow> (int \<times> string) option" where
  "getzone s =
     (case s of
        [] \<Rightarrow> None
      | z # r \<Rightarrow>
          if z = CHR ''Z'' then Some (0, r)
          else if length s < 6 \<or> s ! 3 \<noteq> CHR '':'' then None
          else (case (getnum True (take 2 r), getnum True (take 2 (drop 4 s))) of
             (Some (h, _), Some (m, _)) \<Rightarrow>
               if h > 24 \<or> m > 60 then None
               else if z = CHR ''+'' then Some ((h * 60 + m) * 60, drop 6 s)
               else if z = CHR ''-'' then Some (- ((h * 60 + m) * 60), drop 6 s)
               else None
           | _ \<Rightarrow> None))"

definition obind :: "'a option \<Rightarrow> ('a \<Rightarrow> 'b option) \<Rightarrow> 'b option" where
  "obind x f = (case x of None \<Rightarrow> None | Some y \<Rightarrow> f y)"

definition parse_rfc3339 :: "string \<Rightarrow> time option" where
  "parse_rfc3339 s =
     obind (getyear s) (\<lambda>(y, s). obind (skip_char (CHR ''-'') s) (\<lambda>s.
     obind (getnum True s) (\<lambda>(m, s). obind (skip_char (CHR ''-'') s) (\<lambda>s.
     obind (getnum True s) (\<lambda>(d, s). obind (skip_char (CHR ''T'') s) (\<lambda>s.
     obind (getnum False s) (\<lambda>(h, s). obind (skip_char (CHR '':'') s) (\<lambda>s.
     obind (getnum True s) (\<lambda>(mi, s). obind (skip_char (CHR '':'') s) (\<lambda>s.
     obind (getnum True s) (\<lambda>(sec, s).
     case getfraction s of (ns, s) \<Rightarrow>
     obind (getzone s) (\<lambda>(off, s).
     if s \<noteq> [] \<or> m < 1 \<or> m > 12 \<or> h \<ge> 24 \<or> mi \<ge> 60 \<or> sec \<ge> 60 \<or> d < 1 \<or> d > days_in m y then None
     else Some ((days_from_civil y m d * 86400 + h * 3600 + mi * 60 + sec - off) * second + ns)))))))))))))"

end
