(* ===== verification/Api_Campaigns.thy ===== *)
theory Api_Campaigns
  imports Api_Carriers Store_Campaigns Store_Leads Csv_Import Go_Time
begin

text \<open>
  Campaigns, their agents, dispositions and lead lists in the API,
  \<open>services/api/internal/httpapi/campaigns.go\<close>, and the routes of the agents,
  \<open>services/api/internal/httpapi/agent_ops.go\<close>.
\<close>

section \<open>Requests and replies\<close>

record createCampaignRequest =
  ccq_Name :: string
  ccq_CarrierID :: string

record patchCampaignRequest =
  pcq_Name :: "string option"
  pcq_CarrierID :: "string option"
  pcq_Status :: "string option"

record campaignResponse =
  cpr_ID :: uuid
  cpr_Name :: string
  cpr_CarrierID :: uuid
  cpr_Status :: CampaignStatus
  cpr_DialMode :: string
  cpr_CreatedAt :: string
  cpr_UpdatedAt :: string

definition toCampaignResponse :: "Campaign \<Rightarrow> campaignResponse" where
  "toCampaignResponse c =
     \<lparr>cpr_ID = cp_ID c, cpr_Name = cp_Name c, cpr_CarrierID = cp_CarrierID c, cpr_Status = cp_Status c,
      cpr_DialMode = cp_DialMode c, cpr_CreatedAt = format_rfc3339 (cp_CreatedAt c),
      cpr_UpdatedAt = format_rfc3339 (cp_UpdatedAt c)\<rparr>"

record createDispositionRequest =
  cdq_Code :: string
  cdq_Label :: string
  cdq_IsContact :: bool
  cdq_IsSuccess :: bool

record importRowError =
  ie_Line :: int
  ie_Reason :: string

record importLeadListResponse =
  il_ListID :: uuid
  il_Imported :: int
  il_Rejected :: int
  il_Errors :: "importRowError list"

record dispositionResponse =
  dr_ID :: uuid
  dr_Code :: string
  dr_Label :: string
  dr_CampaignID :: "uuid option"
  dr_IsContact :: bool
  dr_IsSuccess :: bool

definition toDispositionResponse :: "Disposition \<Rightarrow> dispositionResponse" where
  "toDispositionResponse d =
     \<lparr>dr_ID = dp_ID d, dr_Code = dp_Code d, dr_Label = dp_Label d, dr_CampaignID = dp_CampaignID d,
      dr_IsContact = dp_IsContact d, dr_IsSuccess = dp_IsSuccess d\<rparr>"

record leadResponse =
  le_ID :: uuid
  le_ListID :: uuid
  le_Phone :: string
  le_Payload :: "(string \<times> string) list"
  le_Status :: LeadStatus
  le_DispositionID :: "uuid option"
  le_AssignedAgentID :: "uuid option"

definition toLeadResponse :: "Lead \<Rightarrow> leadResponse" where
  "toLeadResponse l =
     \<lparr>le_ID = l_ID l, le_ListID = l_ListID l, le_Phone = l_Phone l, le_Payload = l_Payload l,
      le_Status = l_Status l, le_DispositionID = l_DispositionID l, le_AssignedAgentID = l_AssignedAgentID l\<rparr>"

record callLogResponse =
  clr_ID :: uuid
  clr_CampaignID :: uuid
  clr_LeadID :: "uuid option"
  clr_AgentID :: uuid
  clr_Direction :: string
  clr_StartedAt :: string
  clr_EndedAt :: "string option"
  clr_DurationSec :: "int option"
  clr_DispositionID :: "uuid option"
  clr_ToNumber :: string

definition toCallLogResponse :: "CallLog \<Rightarrow> callLogResponse" where
  "toCallLogResponse cl =
     \<lparr>clr_ID = cl_ID cl, clr_CampaignID = cl_CampaignID cl, clr_LeadID = cl_LeadID cl, clr_AgentID = cl_AgentID cl,
      clr_Direction = cl_Direction cl, clr_StartedAt = format_rfc3339 (cl_StartedAt cl),
      clr_EndedAt = map_option format_rfc3339 (cl_EndedAt cl), clr_DurationSec = cl_DurationSec cl,
      clr_DispositionID = cl_DispositionID cl, clr_ToNumber = cl_ToNumber cl\<rparr>"

datatype campaign_body =
    CampaignList "campaignResponse list"
  | CampaignOut campaignResponse
  | CampaignOk
  | DispositionList "dispositionResponse list"
  | DispositionOut dispositionResponse
  | ImportOut importLeadListResponse
  | LeadOut leadResponse
  | CallOut callLogResponse

type_synonym campaign_handler = "(dbst, campaign_body) handler"

section \<open>Campaigns\<close>

definition handleListCampaigns :: campaign_handler where
  "handleListCampaigns = callH Campaign_List (\<lambda>_. internal_error)
     (\<lambda>cs. replyH 200 (CampaignList (map toCampaignResponse cs)))"

text \<open>The carrier a request names, which has to be stored.\<close>

definition with_carrier :: "uuid_lib \<Rightarrow> string \<Rightarrow> (uuid \<Rightarrow> campaign_handler) \<Rightarrow> campaign_handler" where
  "with_carrier U raw k =
     (case uparse U (trim_space raw) of
        None \<Rightarrow> failH 400 ''invalid_carrier_id''
      | Some carrierID \<Rightarrow>
          callH (Carrier_Get carrierID)
            (\<lambda>e. if errors_is e ErrNotFound then failH 400 ''carrier_not_found'' else internal_error)
            (\<lambda>_. k carrierID))"

definition handleCreateCampaign :: "uuid_lib \<Rightarrow> createCampaignRequest option \<Rightarrow> campaign_handler" where
  "handleCreateCampaign U body =
     (case body of
        None \<Rightarrow> failH 400 ''invalid_json''
      | Some req \<Rightarrow>
          (let name = trim_space (ccq_Name req) in
           if name = [] then failH 400 ''name_required''
           else with_carrier U (ccq_CarrierID req) (\<lambda>carrierID.
             callH (Campaign_Create \<lparr>ccp_Name = name, ccp_CarrierID = carrierID\<rparr>) (\<lambda>_. internal_error)
               (\<lambda>created. replyH 201 (CampaignOut (toCampaignResponse created))))))"

definition parseCampaignStatus :: "string \<Rightarrow> string + CampaignStatus" where
  "parseCampaignStatus raw =
     (let r = to_lower (trim_space raw) in
      if r = ''draft'' then Inr CampaignStatusDraft
      else if r = ''running'' then Inr CampaignStatusRunning
      else if r = ''paused'' then Inr CampaignStatusPaused
      else if r = ''stopped'' then Inr CampaignStatusStopped
      else Inl ''invalid_status'')"

definition handlePatchCampaign :: "uuid_lib \<Rightarrow> string \<Rightarrow> patchCampaignRequest option \<Rightarrow> campaign_handler" where
  "handlePatchCampaign U idp body =
     (case uparse U idp of
        None \<Rightarrow> failH 400 ''invalid_id''
      | Some i \<Rightarrow>
          (case body of
             None \<Rightarrow> failH 400 ''invalid_json''
           | Some req \<Rightarrow>
               (let name = map_option trim_space (pcq_Name req);
                    write = (\<lambda>status carrierID.
                      callH (Campaign_Update i \<lparr>ucp_Name = name, ucp_CarrierID = carrierID, ucp_Status = status\<rparr>)
                        (\<lambda>e. if errors_is e ErrNotFound then failH 404 ''not_found''
                             else if errors_is e ErrInvalidStatusTransition then failH 400 ''invalid_status_transition''
                             else internal_error)
                        (\<lambda>updated. replyH 200 (CampaignOut (toCampaignResponse updated))));
                    status_step = (\<lambda>carrierID.
                      case pcq_Status req of
                        None \<Rightarrow> write None carrierID
                      | Some raw \<Rightarrow> (case parseCampaignStatus raw of
                            Inl errMsg \<Rightarrow> failH 400 errMsg
                          | Inr status \<Rightarrow> write (Some status) carrierID))
                in if name = Some [] then failH 400 ''name_required''
                   else case pcq_CarrierID req of
                     None \<Rightarrow> status_step None
                   | Some raw \<Rightarrow> with_carrier U raw (\<lambda>carrierID. status_step (Some carrierID)))))"

text \<open>The ids of a list, \<open>None\<close> when one of them is not an id.\<close>

fun parse_ids :: "uuid_lib \<Rightarrow> string list \<Rightarrow> uuid list option" where
  "parse_ids U [] = Some []"
| "parse_ids U (raw # rs) =
     (case uparse U (trim_space raw) of
        None \<Rightarrow> None
      | Some i \<Rightarrow> map_option ((#) i) (parse_ids U rs))"

definition handleAssignCampaignAgents :: "uuid_lib \<Rightarrow> string \<Rightarrow> string list option \<Rightarrow> campaign_handler" where
  "handleAssignCampaignAgents U idp body =
     (case uparse U idp of
        None \<Rightarrow> failH 400 ''invalid_id''
      | Some i \<Rightarrow>
          (case body of
             None \<Rightarrow> failH 400 ''invalid_json''
           | Some rawIDs \<Rightarrow>
               (case parse_ids U rawIDs of
                  None \<Rightarrow> failH 400 ''invalid_user_id''
                | Some userIDs \<Rightarrow>
                    callH (SetAgents i userIDs)
                      (\<lambda>e. if errors_is e ErrNotFound then failH 404 ''not_found''
                           else if errors_is e ErrInvalidAgent then failH 400 ''invalid_agent''
                           else internal_error)
                      (\<lambda>_. replyH 200 CampaignOk))))"

section \<open>Lead lists\<close>

text \<open>The multipart form of an upload; the file is \<open>None\<close> when the form has none.\<close>

record upload =
  up_valid :: bool
  up_file :: "string option"
  up_name :: string

definition lead_rows :: "LeadRow list \<Rightarrow> ImportLeadRow list" where
  "lead_rows rows = map (\<lambda>r. \<lparr>ir_Phone = lr_Phone r, ir_Payload = lr_Payload r\<rparr>) rows"

definition handleImportLeadList :: "uuid_lib \<Rightarrow> string \<Rightarrow> upload \<Rightarrow> campaign_handler" where
  "handleImportLeadList U idp form =
     (case uparse U idp of
        None \<Rightarrow> failH 400 ''invalid_id''
      | Some campaignID \<Rightarrow>
          if \<not> up_valid form then failH 400 ''invalid_multipart''
          else case up_file form of
            None \<Rightarrow> failH 400 ''file_required''
          | Some file \<Rightarrow>
              (let name = (if trim_space (up_name form) = [] then ''Import'' else trim_space (up_name form)) in
               case Parse file of
                 (_, _, Some _) \<Rightarrow> failH 400 ''invalid_csv''
               | (rows, rowErrs, None) \<Rightarrow>
                   callH (Import \<lparr>il_CampaignID = campaignID, il_Name = name, il_Rows = lead_rows rows\<rparr>)
                     not_found_or_internal
                     (\<lambda>result. replyH 201 (ImportOut
                        \<lparr>il_ListID = res_ListID result, il_Imported = res_Imported result,
                         il_Rejected = int (length rowErrs),
                         il_Errors = map (\<lambda>e. \<lparr>ie_Line = re_Line e, ie_Reason = re_Reason e\<rparr>) (take 100 rowErrs)\<rparr>))))"

section \<open>Dispositions\<close>

definition handleListDispositions :: "uuid_lib \<Rightarrow> string \<Rightarrow> campaign_handler" where
  "handleListDispositions U idp =
     (case uparse U idp of
        None \<Rightarrow> failH 400 ''invalid_id''
      | Some campaignID \<Rightarrow>
          callH (Campaign_Get campaignID) not_found_or_internal (\<lambda>_.
          callH (ListByCampaign campaignID) (\<lambda>_. internal_error) (\<lambda>ds.
            replyH 200 (DispositionList (map toDispositionResponse ds)))))"

definition handleCreateDisposition :: "uuid_lib \<Rightarrow> string \<Rightarrow> createDispositionRequest option \<Rightarrow> campaign_handler" where
  "handleCreateDisposition U idp body =
     (case uparse U idp of
        None \<Rightarrow> failH 400 ''invalid_id''
      | Some campaignID \<Rightarrow>
          (case body of
             None \<Rightarrow> failH 400 ''invalid_json''
           | Some req \<Rightarrow>
               (let code = trim_space (cdq_Code req); label = trim_space (cdq_Label req) in
                if code = [] then failH 400 ''code_required''
                else if label = [] then failH 400 ''label_required''
                else callH (Campaign_Get campaignID) not_found_or_internal (\<lambda>_.
                  callH (Disposition_Create campaignID
                      \<lparr>cdp_Code = code, cdp_Label = label, cdp_IsContact = cdq_IsContact req, cdp_IsSuccess = cdq_IsSuccess req\<rparr>)
                    (\<lambda>e. if errors_is e ErrDuplicateDisposition then failH 400 ''duplicate_code'' else internal_error)
                    (\<lambda>created. replyH 201 (DispositionOut (toDispositionResponse created)))))))"

section \<open>The routes of an agent: \<open>agent\_ops.go\<close>\<close>

definition RequireAgent :: "(User \<Rightarrow> (dbst, 'b) handler) \<Rightarrow> User \<Rightarrow> (dbst, 'b) handler" where
  "RequireAgent = require_role {UserRoleAgent}"

definition handleAgentListCampaigns :: "User \<Rightarrow> campaign_handler" where
  "handleAgentListCampaigns user = callH (ListRunningForAgent (u_ID user)) (\<lambda>_. internal_error)
     (\<lambda>cs. replyH 200 (CampaignList (map toCampaignResponse cs)))"

definition join_error :: "goerr \<Rightarrow> campaign_handler" where
  "join_error e =
     (if errors_is e ErrNotFound then failH 404 ''not_found''
      else if errors_is e ErrForbidden then failH 403 ''forbidden''
      else if errors_is e ErrInvalidCampaignState then failH 400 ''campaign_not_running''
      else internal_error)"

definition handleAgentJoinCampaign :: "uuid_lib \<Rightarrow> User \<Rightarrow> string \<Rightarrow> campaign_handler" where
  "handleAgentJoinCampaign U user idp =
     (case uparse U idp of
        None \<Rightarrow> failH 400 ''invalid_id''
      | Some campaignID \<Rightarrow> callH (ValidateAgentJoin campaignID (u_ID user)) join_error (\<lambda>_ s. (NoBody 204, s)))"

definition handleAgentListDispositions :: "uuid_lib \<Rightarrow> User \<Rightarrow> string \<Rightarrow> campaign_handler" where
  "handleAgentListDispositions U user idp =
     (case uparse U idp of
        None \<Rightarrow> failH 400 ''invalid_id''
      | Some campaignID \<Rightarrow>
          callH (ValidateAgentJoin campaignID (u_ID user)) join_error (\<lambda>_.
          callH (ListByCampaign campaignID) (\<lambda>_. internal_error) (\<lambda>ds.
            replyH 200 (DispositionList (map toDispositionResponse ds)))))"

definition handleAgentNextLead :: "uuid_lib \<Rightarrow> User \<Rightarrow> string \<Rightarrow> campaign_handler" where
  "handleAgentNextLead U user campaign_id =
     (let raw = trim_space campaign_id in
      if raw = [] then failH 400 ''campaign_id_required''
      else case uparse U raw of
        None \<Rightarrow> failH 400 ''invalid_campaign_id''
      | Some campaignID \<Rightarrow>
          callH (ClaimNext campaignID (u_ID user))
            (\<lambda>e. if errors_is e ErrNoLeadsAvailable then (\<lambda>s. (NoBody 204, s)) else join_error e)
            (\<lambda>lead. replyH 200 (LeadOut (toLeadResponse lead))))"

record dispositionRequest =
  dq_CampaignID :: string
  dq_LeadID :: string
  dq_DispositionID :: string
  dq_ToNumber :: string
  dq_StartedAt :: "string option"
  dq_EndedAt :: "string option"
  dq_DurationSec :: "int option"

text \<open>A time that may be left out: \<open>Some None\<close> then, \<open>None\<close> for one that does not parse.\<close>

definition optional_time :: "string option \<Rightarrow> time option option" where
  "optional_time raw =
     (case raw of
        None \<Rightarrow> Some None
      | Some r \<Rightarrow> if trim_space r = [] then Some None
                  else map_option Some (parse_rfc3339 (trim_space r)))"

definition handleAgentDisposition :: "uuid_lib \<Rightarrow> User \<Rightarrow> dispositionRequest option \<Rightarrow> time \<Rightarrow> campaign_handler" where
  "handleAgentDisposition U user body now =
     (case body of
        None \<Rightarrow> failH 400 ''invalid_json''
      | Some req \<Rightarrow>
          (case uparse U (trim_space (dq_CampaignID req)) of
             None \<Rightarrow> failH 400 ''invalid_campaign_id''
           | Some campaignID \<Rightarrow>
          (case uparse U (trim_space (dq_LeadID req)) of
             None \<Rightarrow> failH 400 ''invalid_lead_id''
           | Some leadID \<Rightarrow>
          (case uparse U (trim_space (dq_DispositionID req)) of
             None \<Rightarrow> failH 400 ''invalid_disposition_id''
           | Some dispositionID \<Rightarrow>
          (let toNumber = trim_space (dq_ToNumber req) in
           if toNumber = [] then failH 400 ''to_number_required''
           else case optional_time (dq_StartedAt req) of
             None \<Rightarrow> failH 400 ''invalid_started_at''
           | Some started \<Rightarrow>
          (case optional_time (dq_EndedAt req) of
             None \<Rightarrow> failH 400 ''invalid_ended_at''
           | Some endedAt \<Rightarrow>
               callH (ValidateAgentJoin campaignID (u_ID user)) join_error (\<lambda>_.
               callH (RecordDisposition
                   \<lparr>rd_CampaignID = campaignID, rd_LeadID = leadID, rd_AgentID = u_ID user,
                    rd_DispositionID = dispositionID, rd_ToNumber = toNumber,
                    rd_StartedAt = (case started of None \<Rightarrow> now | Some t \<Rightarrow> t), rd_EndedAt = endedAt,
                    rd_DurationSec = dq_DurationSec req\<rparr>)
                 not_found_or_internal
                 (\<lambda>cl. replyH 201 (CallOut (toCallLogResponse cl))))))))))"

section \<open>Lemmas\<close>

lemma Import_stored:
  assumes "Import inp s = (Inr x, s')"
  shows "\<exists>new. leads (tabs s') = leads (tabs s) @ new \<and> imported_leads (res_ListID x) (il_Rows inp) (leads (tabs s)) new \<and>
    res_Imported x = int (length (il_Rows inp))"
  using Import_cases [OF assms]
proof (elim disjE exE conjE)
  fix y s0 s1
  assume "Inr x = Inr y" "tabs s0 = tabs s" "Import_body inp s0 = (Inr y, s1)" "tabs s' = tabs s1"
  then show ?thesis using Import_body_ok [of inp s0 y s1] by auto
qed auto

lemma Import_failed: "Import inp s = (Inl e, s') \<Longrightarrow> tabs s' = tabs s"
  using Import_cases [of inp s "Inl e" s'] by auto

lemma lead_rows_content:
  "map (\<lambda>r. (ir_Phone r, ir_Payload r)) (lead_rows rows) = map (\<lambda>r. (lr_Phone r, lr_Payload r)) rows"
  by (simp add: lead_rows_def)

section \<open>Properties\<close>

text \<open>
  An upload of leads stores either nothing at all, and answers an error, or exactly the
  rows of the file that hold a phone number, in their order, as new leads of one list, and
  answers how many were stored and how many refused, with the first hundred of those. One line
  the reader cannot read keeps the whole file out.
\<close>

theorem import_route:
  assumes "handleImportLeadList U idp form s = (q, s')"
  shows "((\<exists>c e. q = Fail c e) \<and> tabs s' = tabs s) \<or>
    (\<exists>file rows errs lid new. up_file form = Some file \<and> Parse file = (rows, errs, None) \<and>
       q = Reply 201 (ImportOut \<lparr>il_ListID = lid, il_Imported = int (length rows), il_Rejected = int (length errs),
         il_Errors = map (\<lambda>e. \<lparr>ie_Line = re_Line e, ie_Reason = re_Reason e\<rparr>) (take 100 errs)\<rparr>) \<and>
       leads (tabs s') = leads (tabs s) @ new \<and>
       map (\<lambda>l. (l_Phone l, l_Payload l)) new = map (\<lambda>r. (lr_Phone r, lr_Payload r)) rows \<and>
       (\<forall>l \<in> set new. l_ListID l = lid \<and> l_Status l = LeadStatusNew \<and> l_AssignedAgentID l = None))"
proof (cases "uparse U idp")
  case None
  then show ?thesis using assms by (auto simp: handleImportLeadList_def)
next
  case 1: (Some cid)
  show ?thesis
  proof (cases "up_valid form \<and> (\<exists>csv rows errs. up_file form = Some csv \<and> Parse csv = (rows, errs, None))")
    case False
    then show ?thesis
      using assms 1 by (auto simp: handleImportLeadList_def Let_def split: if_split_asm option.split_asm prod.split_asm)
  next
    case True
    then obtain csv rows errs where f: "up_file form = Some csv" "Parse csv = (rows, errs, None)" by blast
    let ?inp = "\<lparr>il_CampaignID = cid, il_Name = if trim_space (up_name form) = [] then ''Import'' else trim_space (up_name form),
                 il_Rows = lead_rows rows\<rparr>"
    have run: "callH (Import ?inp) not_found_or_internal
        (\<lambda>result. replyH 201 (ImportOut
           \<lparr>il_ListID = res_ListID result, il_Imported = res_Imported result, il_Rejected = int (length errs),
            il_Errors = map (\<lambda>e. \<lparr>ie_Line = re_Line e, ie_Reason = re_Reason e\<rparr>) (take 100 errs)\<rparr>)) s = (q, s')"
      using assms 1 True f by (simp add: handleImportLeadList_def Let_def)
    show ?thesis
    proof (cases "fst (Import ?inp s)")
      case (Inl e)
      then have "Import ?inp s = (Inl e, snd (Import ?inp s))" by (metis surjective_pairing)
      then show ?thesis
        using run Import_failed [of ?inp s e] by (auto simp: callH_iff not_found_or_internal_def split: if_split_asm)
    next
      case (Inr x)
      then have i: "Import ?inp s = (Inr x, snd (Import ?inp s))" by (metis surjective_pairing)
      from Import_stored [OF i] obtain new where new: "leads (tabs (snd (Import ?inp s))) = leads (tabs s) @ new"
        "imported_leads (res_ListID x) (lead_rows rows) (leads (tabs s)) new" "res_Imported x = int (length rows)"
        by (auto simp: lead_rows_def)
      have "map (\<lambda>l. (l_Phone l, l_Payload l)) new = map (\<lambda>r. (lr_Phone r, lr_Payload r)) rows"
        using new(2) unfolding imported_leads_def lead_rows_content by blast
      moreover have "\<forall>l \<in> set new. l_ListID l = res_ListID x \<and> l_Status l = LeadStatusNew \<and> l_AssignedAgentID l = None"
        using new(2) unfolding imported_leads_def by blast
      ultimately show ?thesis
        using run i new(1, 3) f by (intro disjI2) (auto simp: callH_iff)
    qed
  qed
qed

definition sample_upload :: upload where
  "sample_upload = \<lparr>up_valid = True, up_file = Some (''phone'' @ [nl] @ ''061234567'' @ [nl] @ ''12''), up_name = ''x''\<rparr>"

theorem import_route_witness:
  "map l_Phone (leads (tabs (snd (handleImportLeadList ref_uuid (ustr ref_uuid 7) sample_upload lead_db)))) = [''+061234567'']"
proof -
  let ?m = "handleImportLeadList ref_uuid (ustr ref_uuid 7) sample_upload lead_db"
  let ?rows = "[\<lparr>lr_Line = 2, lr_Phone = ''+061234567'', lr_Payload = []\<rparr>]"
  have p: "Parse (''phone'' @ [nl] @ ''061234567'' @ [nl] @ ''12'') =
      (?rows, [\<lparr>re_Line = 3, re_Reason = ''invalid_phone''\<rparr>], None)" by code_simp
  have i: "\<not> isl (fst (Import \<lparr>il_CampaignID = 7, il_Name = ''x'', il_Rows = lead_rows ?rows\<rparr> lead_db))"
    and n: "trim_space ''x'' = ''x''" and e: "leads (tabs lead_db) = []" by code_simp+
  then obtain x s1 where "Import \<lparr>il_CampaignID = 7, il_Name = ''x'', il_Rows = lead_rows ?rows\<rparr> lead_db = (Inr x, s1)"
    by (metis isl_def surjective_pairing sum.collapse(2))
  then have "\<not> (\<exists>c e. fst ?m = Fail c e)"
    using p n by (simp add: handleImportLeadList_def sample_upload_def callH_def)
  with import_route [OF surjective_pairing [of ?m]] obtain new rows errs where
    "leads (tabs (snd ?m)) = leads (tabs lead_db) @ new"
    "map (\<lambda>l. (l_Phone l, l_Payload l)) new = map (\<lambda>r. (lr_Phone r, lr_Payload r)) rows"
    "Parse (''phone'' @ [nl] @ ''061234567'' @ [nl] @ ''12'') = (rows, errs, None)"
    by (auto simp: sample_upload_def)
  then show ?thesis using p e by (auto simp: map_eq_Cons_conv)
qed

end
