(* ===== verification/Api_Reports.thy ===== *)
theory Api_Reports
  imports Http Store_Reports Csv_Import Go_Time
begin

text \<open>
  The reports of the API, \<open>services/api/internal/httpapi/reports.go\<close>, with the writer of
  \<open>encoding/csv\<close> that the export uses.
\<close>

definition maxReportExportRows :: int where
  "maxReportExportRows = 50000"

section \<open>Filters\<close>

text \<open>One parameter of the query; \<open>Some None\<close> when it is left out, \<open>None\<close> when it does not parse.\<close>

definition query_param :: "(string \<Rightarrow> 'a option) \<Rightarrow> string \<Rightarrow> 'a option option" where
  "query_param parse raw0 =
     (let raw = trim_space raw0 in if raw = [] then Some None else map_option Some (parse raw))"

definition parseReportFilters :: "uuid_lib \<Rightarrow> (string \<Rightarrow> string) \<Rightarrow> string + ReportFilters" where
  "parseReportFilters U q =
     (case query_param parse_rfc3339 (q ''from'') of
        None \<Rightarrow> Inl ''invalid_from''
      | Some f \<Rightarrow>
     (case query_param parse_rfc3339 (q ''to'') of
        None \<Rightarrow> Inl ''invalid_to''
      | Some t \<Rightarrow>
     (case query_param (uparse U) (q ''campaign_id'') of
        None \<Rightarrow> Inl ''invalid_campaign_id''
      | Some c \<Rightarrow>
     (case query_param (uparse U) (q ''agent_id'') of
        None \<Rightarrow> Inl ''invalid_agent_id''
      | Some a \<Rightarrow> Inr \<lparr>rf_From = f, rf_To = t, rf_CampaignID = c, rf_AgentID = a\<rparr>))))"

section \<open>The writer of \<open>encoding/csv\<close>\<close>

definition fieldNeedsQuotes :: "string \<Rightarrow> bool" where
  "fieldNeedsQuotes field \<longleftrightarrow>
     (if field = [] then False
      else if field = [CHR 0x5C, CHR ''.''] then True
      else list_ex (\<lambda>c. c = nl \<or> c = cr \<or> c = dquote \<or> c = comma) field \<or>
           list_ex (\<lambda>p. prefix p field) go_spaces)"

definition write_field :: "string \<Rightarrow> string" where
  "write_field f = (if fieldNeedsQuotes f then dquote # csv_escape f @ [dquote] else f)"

definition write_record :: "string list \<Rightarrow> string" where
  "write_record rec = str_join [comma] (map write_field rec) @ [nl]"

section \<open>Handlers\<close>

datatype report_body = SummaryOut ReportSummary | CsvOut string

definition handleReportsSummary :: "uuid_lib \<Rightarrow> (string \<Rightarrow> string) \<Rightarrow> (dbst, report_body) handler" where
  "handleReportsSummary U q =
     (case parseReportFilters U q of
        Inl errMsg \<Rightarrow> failH 400 errMsg
      | Inr filters \<Rightarrow>
          callH (Summary filters) (\<lambda>_. internal_error) (\<lambda>summary. replyH 200 (SummaryOut summary)))"

definition export_header :: "string list" where
  "export_header =
     [''started_at'', ''ended_at'', ''duration_sec'', ''campaign_id'', ''agent_id'', ''to_number'',
      ''disposition_code'', ''lead_id'']"

definition export_record :: "uuid_lib \<Rightarrow> ReportExportRow \<Rightarrow> string list" where
  "export_record U row =
     [format_rfc3339 (re_StartedAt row),
      (case re_EndedAt row of None \<Rightarrow> [] | Some t \<Rightarrow> format_rfc3339 t),
      (case re_DurationSec row of None \<Rightarrow> [] | Some d \<Rightarrow> int_str d),
      ustr U (re_CampaignID row), ustr U (re_AgentID row), re_ToNumber row,
      (case re_DispositionCode row of None \<Rightarrow> [] | Some c \<Rightarrow> c),
      (case re_LeadID row of None \<Rightarrow> [] | Some i \<Rightarrow> ustr U i)]"

definition handleReportsExportCSV :: "uuid_lib \<Rightarrow> (string \<Rightarrow> string) \<Rightarrow> (dbst, report_body) handler" where
  "handleReportsExportCSV U q =
     (case parseReportFilters U q of
        Inl errMsg \<Rightarrow> failH 400 errMsg
      | Inr filters \<Rightarrow>
          callH (ExportCount filters) (\<lambda>_. internal_error) (\<lambda>count.
            if count > maxReportExportRows then failH 413 ''export_too_large''
            else callH (ExportRows filters)
              (\<lambda>e. if errors_is e ErrExportTooLarge then failH 413 ''export_too_large'' else internal_error)
              (\<lambda>rows. replyH 200 (CsvOut
                 (concat (map write_record (export_header # map (export_record U) rows)))))))"

end
