(* ===== verification/Live_Hub.thy ===== *)
theory Live_Hub
  imports CV_Prelude "HOL-Library.AList"
begin

text \<open>
  The hub that pushes live events to the browsers, \<open>services/edge/internal/live/hub.go\<close>. A
  channel is a number; the hub keeps for each user the channels that are subscribed, and the
  state of the channels (their buffered events, whether they are closed) stands beside it. The
  mutex makes every operation one step. A send on a closed channel and a second \<open>close\<close> panic in
  Go: the operations that could do it return \<open>None\<close> there.
\<close>

section \<open>State and operations\<close>

definition TypeAgentState :: string where
  "TypeAgentState = ''agent.state''"

definition TypeCallState :: string where
  "TypeCallState = ''call.state''"

text \<open>The payloads broadcast by the code are maps of strings.\<close>

record Event =
  ev_Type :: string
  ev_Payload :: "string \<rightharpoonup> string"

type_synonym chan = nat

record Hub =
  h_subs :: "(string \<times> chan list) list"
  h_bufSize :: nat
  h_bufs :: "chan \<Rightarrow> Event list"
  h_closed :: "chan \<Rightarrow> bool"
  h_made :: nat   \<comment> \<open>channels made so far\<close>

definition NewHub :: Hub where
  "NewHub = \<lparr>h_subs = [], h_bufSize = 16, h_bufs = (\<lambda>_. []), h_closed = (\<lambda>_. False), h_made = 0\<rparr>"

definition subs_of :: "Hub \<Rightarrow> string \<Rightarrow> chan list" where
  "subs_of h u = (case map_of (h_subs h) u of None \<Rightarrow> [] | Some cs \<Rightarrow> cs)"

definition Subscribe :: "string \<Rightarrow> Hub \<Rightarrow> chan \<times> Hub" where
  "Subscribe u h =
     (let ch = h_made h
      in (ch, h\<lparr>h_subs := AList.update u (ch # subs_of h u) (h_subs h), h_made := Suc ch\<rparr>))"

definition Unsubscribe :: "string \<Rightarrow> chan \<Rightarrow> Hub \<Rightarrow> Hub option" where
  "Unsubscribe u ch h =
     (case map_of (h_subs h) u of
        None \<Rightarrow> Some h
      | Some cs \<Rightarrow>
          let left = removeAll ch cs;
              subs = (if left = [] then AList.delete u (h_subs h) else AList.update u left (h_subs h))
          in if ch \<in> set cs then
               if h_closed h ch then None
               else Some (h\<lparr>h_subs := subs, h_closed := (h_closed h)(ch := True)\<rparr>)
             else Some (h\<lparr>h_subs := subs\<rparr>))"

text \<open>A send that does not wait: a full buffer drops the event.\<close>

fun send_all :: "nat \<Rightarrow> chan list \<Rightarrow> Event \<Rightarrow> (chan \<Rightarrow> Event list) \<Rightarrow> (chan \<Rightarrow> Event list)" where
  "send_all cap [] ev b = b"
| "send_all cap (ch # chs) ev b =
     send_all cap chs ev (if length (b ch) < cap then b(ch := b ch @ [ev]) else b)"

definition Broadcast :: "string \<Rightarrow> Event \<Rightarrow> Hub \<Rightarrow> Hub option" where
  "Broadcast u ev h =
     (if list_ex (h_closed h) (subs_of h u) then None
      else Some (h\<lparr>h_bufs := send_all (h_bufSize h) (subs_of h u) ev (h_bufs h)\<rparr>))"

definition Len :: "Hub \<Rightarrow> nat" where
  "Len h = sum_list (map (length \<circ> snd) (h_subs h))"

text \<open>The consumer of a channel takes its oldest event.\<close>

definition receive :: "chan \<Rightarrow> Hub \<Rightarrow> Hub" where
  "receive ch h = h\<lparr>h_bufs := (h_bufs h)(ch := tl (h_bufs h ch))\<rparr>"

section \<open>Runs\<close>

datatype hub_op = Sub string | Unsub string chan | Cast string Event | Recv chan

fun hub_step :: "hub_op \<Rightarrow> Hub \<Rightarrow> Hub option" where
  "hub_step (Sub u) h = Some (snd (Subscribe u h))"
| "hub_step (Unsub u ch) h = Unsubscribe u ch h"
| "hub_step (Cast u ev) h = Broadcast u ev h"
| "hub_step (Recv ch) h = Some (receive ch h)"

fun hub_run :: "hub_op list \<Rightarrow> Hub \<Rightarrow> Hub option" where
  "hub_run [] h = Some h"
| "hub_run (x # xs) h = Option.bind (hub_step x h) (hub_run xs)"

text \<open>What the hub is for: the pairs of a user and a channel that are subscribed.\<close>

definition subscribed :: "Hub \<Rightarrow> (string \<times> chan) set" where
  "subscribed h = {(u, ch). ch \<in> set (subs_of h u)}"

fun spec_step :: "hub_op \<Rightarrow> nat \<times> (string \<times> chan) set \<Rightarrow> nat \<times> (string \<times> chan) set" where
  "spec_step (Sub u) (n, S) = (Suc n, insert (u, n) S)"
| "spec_step (Unsub u ch) (n, S) = (n, S - {(u, ch)})"
| "spec_step _ (n, S) = (n, S)"

definition hub_inv :: "Hub \<Rightarrow> bool" where
  "hub_inv h \<longleftrightarrow>
     distinct (map fst (h_subs h)) \<and>
     (\<forall>(u, cs) \<in> set (h_subs h). cs \<noteq> [] \<and> distinct cs) \<and>
     (\<forall>u v ch. ch \<in> set (subs_of h u) \<and> ch \<in> set (subs_of h v) \<longrightarrow> u = v) \<and>
     (\<forall>u. \<forall>ch \<in> set (subs_of h u). \<not> h_closed h ch \<and> ch < h_made h) \<and>
     (\<forall>ch. length (h_bufs h ch) \<le> h_bufSize h \<and> (h_made h \<le> ch \<longrightarrow> \<not> h_closed h ch))"

section \<open>Lemmas\<close>

lemma subs_of_update [simp]:
  "subs_of (h\<lparr>h_subs := AList.update u cs (h_subs h)\<rparr>) v = (if v = u then cs else subs_of h v)"
  by (simp add: subs_of_def update_conv')

lemma subs_of_delete [simp]:
  "subs_of (h\<lparr>h_subs := AList.delete u (h_subs h)\<rparr>) v = (if v = u then [] else subs_of h v)"
  by (simp add: subs_of_def delete_conv')

lemma subs_of_frame [simp]:
  "subs_of (h\<lparr>h_bufs := b\<rparr>) v = subs_of h v" "subs_of (h\<lparr>h_closed := c\<rparr>) v = subs_of h v"
  "subs_of (h\<lparr>h_made := n\<rparr>) v = subs_of h v"
  by (simp_all add: subs_of_def)

lemma send_all_bound: "(\<And>c. length (b c) \<le> cap) \<Longrightarrow> length (send_all cap chs ev b ch) \<le> cap"
  by (induction cap chs ev b rule: send_all.induct) auto

lemma send_all_other: "ch \<notin> set chs \<Longrightarrow> send_all cap chs ev b ch = b ch"
  by (induction cap chs ev b rule: send_all.induct) auto

lemma send_all_once:
  "distinct chs \<Longrightarrow> ch \<in> set chs \<Longrightarrow>
   send_all cap chs ev b ch = (if length (b ch) < cap then b ch @ [ev] else b ch)"
  by (induction cap chs ev b rule: send_all.induct) (auto simp: send_all_other)


lemma subs_of_upd [simp]:
  "subs_of (h\<lparr>h_subs := AList.update u cs (h_subs h), h_made := n\<rparr>) v = (if v = u then cs else subs_of h v)"
  "subs_of (h\<lparr>h_subs := AList.update u cs (h_subs h), h_closed := c\<rparr>) v = (if v = u then cs else subs_of h v)"
  "subs_of (h\<lparr>h_subs := AList.delete u (h_subs h), h_closed := c\<rparr>) v = (if v = u then [] else subs_of h v)"
  by (simp_all add: subs_of_def update_conv' delete_conv')

lemma subs_of_mem: "hub_inv h \<Longrightarrow> (u, cs) \<in> set (h_subs h) \<Longrightarrow> subs_of h u = cs"
  by (simp add: hub_inv_def subs_of_def)

lemma update_entries:
  assumes "distinct (map fst al)" and "\<forall>(u, cs) \<in> set al. P cs" and "P cs0"
  shows "distinct (map fst (AList.update u0 cs0 al)) \<and> (\<forall>(u, cs) \<in> set (AList.update u0 cs0 al). P cs)"
  using assms by (induction al) (auto simp: dom_update dest: in_set_conv_decomp [THEN iffD1])

lemma delete_entries:
  assumes "distinct (map fst al)" and "\<forall>(u, cs) \<in> set al. P cs"
  shows "distinct (map fst (AList.delete u0 al)) \<and> (\<forall>(u, cs) \<in> set (AList.delete u0 al). P cs)"
  using distinct_delete [OF assms(1)] assms(2) by (auto simp: AList.delete_eq)

lemma hub_inv_new: "hub_inv NewHub"
  by (simp add: hub_inv_def NewHub_def subs_of_def)

lemma hub_inv_subs: "hub_inv h \<Longrightarrow> distinct (subs_of h u)"
  by (auto simp: hub_inv_def subs_of_def split: option.splits dest!: map_of_SomeD)

lemma hub_invD:
  assumes "hub_inv h"
  shows "distinct (map fst (h_subs h))" and "\<forall>(u, cs) \<in> set (h_subs h). cs \<noteq> [] \<and> distinct cs"
    and "ch \<in> set (subs_of h u) \<Longrightarrow> ch \<in> set (subs_of h v) \<Longrightarrow> u = v"
    and "ch \<in> set (subs_of h u) \<Longrightarrow> \<not> h_closed h ch"
    and "ch \<in> set (subs_of h u) \<Longrightarrow> ch < h_made h"
    and "length (h_bufs h ch) \<le> h_bufSize h"
    and "h_made h \<le> ch \<Longrightarrow> \<not> h_closed h ch"
  using assms unfolding hub_inv_def by blast+

lemma hub_inv_Subscribe:
  assumes "hub_inv h"
  shows "hub_inv (snd (Subscribe u h))"
proof -
  let ?cs = "h_made h # subs_of h u"
  have new: "h_made h \<notin> set (subs_of h v)" for v
    using hub_invD(5) [OF assms] by blast
  then have "distinct ?cs" using hub_inv_subs [OF assms, of u] by simp
  then show ?thesis
    using update_entries [OF hub_invD(1, 2) [OF assms], of ?cs u] new hub_invD(3-7) [OF assms]
    unfolding hub_inv_def Subscribe_def Let_def
    by (auto intro: less_SucI split: if_splits)
qed

text \<open>An operation that only takes subscriptions away, and closes only what it took away.\<close>

lemma hub_inv_shrink:
  assumes "hub_inv h" and "distinct (map fst (h_subs h'))"
    and "\<forall>(u, cs) \<in> set (h_subs h'). cs \<noteq> [] \<and> distinct cs"
    and sub: "\<And>v. set (subs_of h' v) \<subseteq> set (subs_of h v)"
    and "\<And>ch. h_closed h' ch \<Longrightarrow> h_closed h ch \<or> (\<forall>v. ch \<notin> set (subs_of h' v)) \<and> ch < h_made h"
    and same: "h_bufs h' = h_bufs h" "h_bufSize h' = h_bufSize h" "h_made h' = h_made h"
  shows "hub_inv h'"
  unfolding hub_inv_def same
proof (intro conjI allI impI ballI)
  fix u v ch
  assume "ch \<in> set (subs_of h' u) \<and> ch \<in> set (subs_of h' v)"
  then show "u = v" using sub hub_invD(3) [OF assms(1)] by blast
next
  fix u ch
  assume "ch \<in> set (subs_of h' u)"
  then show "\<not> h_closed h' ch" "ch < h_made h"
    using assms(5) sub hub_invD(4, 5) [OF assms(1)] by blast+
next
  fix ch
  show "length (h_bufs h ch) \<le> h_bufSize h" by (rule hub_invD(6) [OF assms(1)])
  assume "h_made h \<le> ch"
  then show "\<not> h_closed h' ch"
    using assms(5) [of ch] hub_invD(7) [OF assms(1)] by auto
qed (use assms(2, 3) in auto)

lemma hub_inv_Unsubscribe:
  assumes "hub_inv h"
  shows "\<exists>h'. Unsubscribe u ch h = Some h' \<and> hub_inv h' \<and> h_made h' = h_made h \<and> h_bufSize h' = h_bufSize h \<and>
    (\<forall>v. subs_of h' v = (if v = u then removeAll ch (subs_of h u) else subs_of h v))"
proof (cases "map_of (h_subs h) u")
  case None
  with assms show ?thesis by (auto simp: Unsubscribe_def subs_of_def)
next
  case (Some cs)
  then have cs: "subs_of h u = cs" by (simp add: subs_of_def)
  let ?left = "removeAll ch cs"
  let ?subs = "if ?left = [] then AList.delete u (h_subs h) else AList.update u ?left (h_subs h)"
  let ?closed = "if ch \<in> set cs then (h_closed h)(ch := True) else h_closed h"
  let ?h = "h\<lparr>h_subs := ?subs, h_closed := ?closed\<rparr>"
  have d: "distinct (map fst ?subs) \<and> (\<forall>(v, cs) \<in> set ?subs. cs \<noteq> [] \<and> distinct cs)"
    using update_entries [OF hub_invD(1, 2) [OF assms], of ?left u]
      delete_entries [OF hub_invD(1, 2) [OF assms], of u] hub_inv_subs [OF assms, of u] cs
    by (simp add: distinct_removeAll)
  have s: "subs_of ?h v = (if v = u then ?left else subs_of h v)" for v
    by simp
  have only: "\<not> h_closed h ch \<and> ch < h_made h \<and> (\<forall>v. ch \<in> set (subs_of h v) \<longrightarrow> v = u)" if "ch \<in> set cs"
    using that hub_invD(3-5) [OF assms] cs by blast
  have "hub_inv ?h"
    by (rule hub_inv_shrink [OF assms]) (use d s cs only in \<open>auto split: if_splits\<close>)
  moreover have "h\<lparr>h_subs := ?subs\<rparr> = ?h" if "ch \<notin> set cs"
    using that by (cases h) simp
  ultimately show ?thesis
    using Some s cs only by (cases "ch \<in> set cs") (auto simp: Unsubscribe_def Let_def)
qed

lemma hub_inv_Broadcast:
  assumes "hub_inv h"
  shows "Broadcast u ev h = Some (h\<lparr>h_bufs := send_all (h_bufSize h) (subs_of h u) ev (h_bufs h)\<rparr>)"
    and "hub_inv (h\<lparr>h_bufs := send_all (h_bufSize h) (subs_of h u) ev (h_bufs h)\<rparr>)"
  using assms by (auto simp: Broadcast_def list_ex_iff hub_inv_def intro: send_all_bound)

lemma hub_step_spec:
  assumes "hub_inv h"
  shows "\<exists>h'. hub_step x h = Some h' \<and> hub_inv h' \<and> h_bufSize h' = h_bufSize h \<and>
    (h_made h', subscribed h') = spec_step x (h_made h, subscribed h)"
proof (cases x)
  case (Sub u)
  then show ?thesis
    using hub_inv_Subscribe [OF assms, of u]
    by (auto simp: Subscribe_def Let_def subscribed_def split: if_splits)
next
  case (Unsub u ch)
  obtain h' where h': "Unsubscribe u ch h = Some h'" "hub_inv h'" "h_made h' = h_made h" "h_bufSize h' = h_bufSize h"
    and s: "subs_of h' v = (if v = u then removeAll ch (subs_of h u) else subs_of h v)" for v
    using hub_inv_Unsubscribe [OF assms, of u ch] by blast
  have "subscribed h' = subscribed h - {(u, ch)}"
    by (auto simp: subscribed_def s split: if_splits)
  then show ?thesis using h' Unsub by simp
next
  case (Cast u ev)
  then show ?thesis
    using hub_inv_Broadcast [OF assms, of u ev] by (auto simp: subscribed_def)
next
  case (Recv ch)
  then show ?thesis
    using assms by (auto simp: hub_inv_def receive_def subscribed_def intro: order_trans [OF diff_le_self])
qed

lemma hub_run_spec:
  assumes "hub_inv h"
  shows "\<exists>h'. hub_run xs h = Some h' \<and> hub_inv h' \<and> h_bufSize h' = h_bufSize h \<and>
    (h_made h', subscribed h') = fold spec_step xs (h_made h, subscribed h)"
  using assms
proof (induction xs arbitrary: h)
  case (Cons x xs)
  obtain h1 where h1: "hub_step x h = Some h1" "hub_inv h1" "h_bufSize h1 = h_bufSize h"
    "(h_made h1, subscribed h1) = spec_step x (h_made h, subscribed h)"
    using hub_step_spec [OF Cons.prems] by blast
  then show ?case using Cons.IH [OF h1(2)] by simp
qed simp

text \<open>The subscriptions of the association list, counted.\<close>

lemma subscribed_entries: "hub_inv h \<Longrightarrow> subscribed h = {(u, ch). \<exists>cs. (u, cs) \<in> set (h_subs h) \<and> ch \<in> set cs}"
  using hub_invD(1) [of h] by (auto simp: subscribed_def subs_of_def split: option.splits dest: map_of_SomeD)

lemma pairs_card:
  assumes "distinct (map fst al)" and "\<forall>(u, cs) \<in> set al. distinct cs"
  shows "finite {(u, ch). \<exists>cs. (u, cs) \<in> set al \<and> ch \<in> set cs} \<and>
    card {(u, ch). \<exists>cs. (u, cs) \<in> set al \<and> ch \<in> set cs} = sum_list (map (length \<circ> snd) al)"
  using assms
proof (induction al)
  case (Cons p al)
  obtain u cs where p: "p = (u, cs)" by (cases p)
  let ?S = "\<lambda>al. {(u, ch). \<exists>cs. (u, cs) \<in> set al \<and> ch \<in> set cs}"
  have eq: "?S (p # al) = Pair u ` set cs \<union> ?S al" unfolding p by auto
  have dis: "Pair u ` set cs \<inter> ?S al = {}"
    using Cons.prems(1) p by force
  have c: "card (Pair u ` set cs) = length cs"
    using Cons.prems(2) p by (simp add: card_image inj_on_def distinct_card)
  have ih: "finite (?S al)" "card (?S al) = sum_list (map (length \<circ> snd) al)"
    using Cons.IH Cons.prems by (simp_all add: comp_def)
  show ?case
    using card_Un_disjoint [OF _ ih(1) dis] c ih unfolding eq by (simp add: p comp_def)
qed simp

lemma Len_card:
  assumes "hub_inv h"
  shows "Len h = card (subscribed h)"
proof -
  have "\<forall>(u, cs) \<in> set (h_subs h). distinct cs" using hub_invD(2) [OF assms] by auto
  then show ?thesis
    using pairs_card [OF hub_invD(1) [OF assms]] subscribed_entries [OF assms] by (simp add: Len_def)
qed

lemma Broadcast_bufs:
  assumes "hub_inv h" and "Broadcast u ev h = Some h'"
  shows "h_bufs h' ch = (if (u, ch) \<in> subscribed h \<and> length (h_bufs h ch) < h_bufSize h
    then h_bufs h ch @ [ev] else h_bufs h ch)"
  using assms(2) hub_inv_Broadcast(1) [OF assms(1), of u ev] hub_inv_subs [OF assms(1), of u]
  by (cases "ch \<in> set (subs_of h u)") (auto simp: subscribed_def send_all_once send_all_other)

section \<open>Properties\<close>

text \<open>
  C14. Whatever operations run on a new hub, none panics (no send on a closed channel, no second
  close), the subscriptions are those of the set they maintain in the specification, every
  subscribed channel is open with at most 16 events waiting, and \<open>Len\<close> counts them. A broadcast
  then adds the event to exactly the subscribed channels of that user that have room, and drops
  it for the others.
\<close>

theorem hub_refines:
  "\<exists>h. hub_run ops NewHub = Some h \<and>
     (h_made h, subscribed h) = fold spec_step ops (0, {}) \<and>
     subscribed h \<subseteq> {(u, ch). \<not> h_closed h ch \<and> length (h_bufs h ch) \<le> 16} \<and>
     Len h = card (subscribed h) \<and>
     (\<forall>u ev. \<exists>h'. Broadcast u ev h = Some h' \<and>
        (\<forall>ch. h_bufs h' ch =
           (if (u, ch) \<in> subscribed h \<and> length (h_bufs h ch) < 16 then h_bufs h ch @ [ev] else h_bufs h ch)))"
proof -
  have new: "(h_made NewHub, subscribed NewHub) = (0, {})" "h_bufSize NewHub = 16"
    by (auto simp: NewHub_def subscribed_def subs_of_def)
  obtain h where h: "hub_run ops NewHub = Some h" "hub_inv h" "h_bufSize h = 16"
    "(h_made h, subscribed h) = fold spec_step ops (0, {})"
    using hub_run_spec [OF hub_inv_new, of ops] new by auto
  have "length (h_bufs h ch) \<le> 16" for ch
    using hub_invD(6) [OF h(2), of ch] h(3) by simp
  moreover have "\<exists>h'. Broadcast u ev h = Some h' \<and>
        (\<forall>ch. h_bufs h' ch =
           (if (u, ch) \<in> subscribed h \<and> length (h_bufs h ch) < 16 then h_bufs h ch @ [ev] else h_bufs h ch))" for u ev
    using hub_inv_Broadcast(1) [OF h(2), of u ev] Broadcast_bufs [OF h(2), of u ev] h(3) by metis
  ultimately show ?thesis
    using h Len_card [OF h(2)] hub_invD(4) [OF h(2)] by (auto simp: subscribed_def)
qed

end
