(* ===== verification/Edge_World.thy ===== *)
theory Edge_World
  imports Presence Database Live_Hub "HOL-Library.List_Lexorder" "HOL-Library.Char_ord"
begin

text \<open>
  The world of the edge service: the Redis server, the database, the FreeSWITCH switch behind its
  event socket, the files FreeSWITCH reads, the clock, the fresh UUIDs, the live hub and the
  channels the inbound router has seen. The service's functions are computations on it.

  The switch is a parameter: its reply to a command, a body or the text of an error, may depend on
  all commands before it. The
  commands are recorded in the order they are sent, so that a theorem can speak of what the switch
  was asked to do.
\<close>

type_synonym esl = "string list \<Rightarrow> string \<Rightarrow> string + string"

text \<open>
  \<open>eg_disk\<close> scripts the failures of the file system as \<open>db_faults\<close> does those of the database.
  The clock is read by \<open>eg_clock\<close> at the number \<open>eg_ticks\<close> of earlier readings.
\<close>

record 'r edge =
  eg_redis :: 'r
  eg_db :: dbst
  eg_cmds :: "string list"
  eg_rand :: "nat \<Rightarrow> uuid"
  eg_drawn :: nat
  eg_clock :: "nat \<Rightarrow> time"
  eg_ticks :: nat
  eg_files :: "(string \<times> string) list"
  eg_disk :: "goerr option list"
  eg_seen :: "string list"
  eg_hub :: Hub

definition on_redis :: "('r, 'a) run \<Rightarrow> ('r edge, 'a) run" where
  "on_redis m = (\<lambda>w. case m (eg_redis w) of (r, s) \<Rightarrow> (r, w\<lparr>eg_redis := s\<rparr>))"

definition edge_db :: "'a sql \<Rightarrow> ('r edge, 'a) run" where
  "edge_db m = (\<lambda>w. case m (eg_db w) of (r, s) \<Rightarrow> (r, w\<lparr>eg_db := s\<rparr>))"

text \<open>\<open>ESL.API(cmd)\<close>\<close>

definition esl_api :: "esl \<Rightarrow> string \<Rightarrow> ('r edge, string) run" where
  "esl_api E cmd = (\<lambda>w. (map_sum ErrMsg id (E (eg_cmds w) cmd), w\<lparr>eg_cmds := eg_cmds w @ [cmd]\<rparr>))"

text \<open>\<open>uuid.New()\<close> and \<open>Now()\<close>\<close>

definition new_uuid :: "('r edge, uuid) run" where
  "new_uuid = (\<lambda>w. (Inr (eg_rand w (eg_drawn w)), w\<lparr>eg_drawn := Suc (eg_drawn w)\<rparr>))"

definition clock_now :: "('r edge, time) run" where
  "clock_now = (\<lambda>w. (Inr (eg_clock w (eg_ticks w)), w\<lparr>eg_ticks := Suc (eg_ticks w)\<rparr>))"

text \<open>\<open>_ = m()\<close> in the middle of a function\<close>

definition ignoreE :: "('s, 'a) run \<Rightarrow> ('s, unit) run" where
  "ignoreE m = tryE m (\<lambda>_. retE ())"

section \<open>Files\<close>

text \<open>
  The files of the two FreeSWITCH directories, by path. A directory is there as soon as a file is;
  one that does not exist lists nothing, which is also what the code makes of it. An operation
  that fails leaves the files as they were.
\<close>

definition disk_op :: "('r edge \<Rightarrow> (goerr + 'a) \<times> 'r edge) \<Rightarrow> ('r edge, 'a) run" where
  "disk_op f = (\<lambda>w.
     case eg_disk w of
       [] \<Rightarrow> f w
     | None # fs \<Rightarrow> f (w\<lparr>eg_disk := fs\<rparr>)
     | Some e # fs \<Rightarrow> (Inl e, w\<lparr>eg_disk := fs\<rparr>))"

definition MkdirAll :: "string \<Rightarrow> ('r edge, unit) run" where
  "MkdirAll dir = disk_op (\<lambda>w. (Inr (), w))"

definition WriteFile :: "string \<Rightarrow> string \<Rightarrow> ('r edge, unit) run" where
  "WriteFile path body = disk_op (\<lambda>w. (Inr (), w\<lparr>eg_files := AList.update path body (eg_files w)\<rparr>))"

definition RemoveFile :: "string \<Rightarrow> ('r edge, unit) run" where
  "RemoveFile path = disk_op (\<lambda>w. (Inr (), w\<lparr>eg_files := AList.delete path (eg_files w)\<rparr>))"

text \<open>\<open>filepath.Join\<close> of a clean directory and a name without separators.\<close>

definition path_join :: "string \<Rightarrow> string \<Rightarrow> string" where
  "path_join dir name = dir @ ''/'' @ name"

text \<open>\<open>os.ReadDir\<close> sorts by name.\<close>

definition names_in :: "string \<Rightarrow> (string \<times> string) list \<Rightarrow> string list" where
  "names_in dir fs =
     sort (filter (\<lambda>n. n \<noteq> [] \<and> CHR ''/'' \<notin> set n)
       (map (\<lambda>p. trim_prefix p (dir @ ''/'')) (filter (\<lambda>p. has_prefix p (dir @ ''/'')) (map fst fs))))"

definition ReadDir :: "string \<Rightarrow> ('r edge, string list) run" where
  "ReadDir dir = disk_op (\<lambda>w. (Inr (names_in dir (eg_files w)), w))"

text \<open>A world that has just started.\<close>

definition edge_init :: "'r \<Rightarrow> dbst \<Rightarrow> 'r edge" where
  "edge_init r db =
     \<lparr>eg_redis = r, eg_db = db, eg_cmds = [], eg_rand = of_nat, eg_drawn = 100, eg_clock = (\<lambda>_. 0), eg_ticks = 0,
      eg_files = [], eg_disk = [], eg_seen = [], eg_hub = NewHub\<rparr>"

lemma edge_init_sel [simp]:
  "eg_redis (edge_init r db) = r" "eg_db (edge_init r db) = db" "eg_cmds (edge_init r db) = []"
  "eg_disk (edge_init r db) = []" "eg_files (edge_init r db) = []" "eg_hub (edge_init r db) = NewHub"
  by (simp_all add: edge_init_def)

section \<open>Lemmas\<close>

lemma on_redis_iff:
  "on_redis m w = (r, w') \<longleftrightarrow> (\<exists>s. m (eg_redis w) = (r, s) \<and> w' = w\<lparr>eg_redis := s\<rparr>)"
  by (auto simp: on_redis_def split: prod.splits)

lemma edge_db_iff:
  "edge_db m w = (r, w') \<longleftrightarrow> (\<exists>s. m (eg_db w) = (r, s) \<and> w' = w\<lparr>eg_db := s\<rparr>)"
  by (auto simp: edge_db_def split: prod.splits)

lemma esl_api_iff:
  "esl_api E cmd w = (r, w') \<longleftrightarrow> r = map_sum ErrMsg id (E (eg_cmds w) cmd) \<and> w' = w\<lparr>eg_cmds := eg_cmds w @ [cmd]\<rparr>"
  by (auto simp: esl_api_def)

lemma new_uuid_iff:
  "new_uuid w = (r, w') \<longleftrightarrow> r = Inr (eg_rand w (eg_drawn w)) \<and> w' = w\<lparr>eg_drawn := Suc (eg_drawn w)\<rparr>"
  by (auto simp: new_uuid_def)

lemma clock_now_iff:
  "clock_now w = (r, w') \<longleftrightarrow> r = Inr (eg_clock w (eg_ticks w)) \<and> w' = w\<lparr>eg_ticks := Suc (eg_ticks w)\<rparr>"
  by (auto simp: clock_now_def)

lemma ignoreE_iff: "ignoreE m w = (r, w') \<longleftrightarrow> r = Inr () \<and> (\<exists>q. m w = (q, w'))"
  by (cases "m w") (auto simp: ignoreE_def tryE_def)

lemmas edge_iffs = on_redis_iff edge_db_iff esl_api_iff new_uuid_iff clock_now_iff ignoreE_iff

text \<open>What a file operation leaves alone.\<close>

lemma disk_op_cases:
  assumes "disk_op f w = (r, w')"
  obtains (fault) e fs where "r = Inl e" "w' = w\<lparr>eg_disk := fs\<rparr>"
  | (run) fs where "f (w\<lparr>eg_disk := fs\<rparr>) = (r, w')"
proof (cases "eg_disk w")
  case Nil
  then have eq: "w\<lparr>eg_disk := []\<rparr> = w" by (cases w) simp
  have "f w = (r, w')" using assms Nil by (simp add: disk_op_def)
  then show ?thesis using run [of "[]"] unfolding eq by blast
next
  case (Cons a fs)
  with assms show ?thesis
    by (cases a) (auto simp: disk_op_def intro: fault run)
qed

end
