(* ===== verification/Fs_Gateway.thy ===== *)
theory Fs_Gateway
  imports Edge_World Authkit Go_Utf8
begin

text \<open>
  The SIP gateways of the carriers, \<open>services/edge/internal/fs/gateway.go\<close>: one XML file per
  enabled carrier in a directory FreeSWITCH reads, and the commands that make it look again.
\<close>

section \<open>XML\<close>

text \<open>\<open>xml.EscapeText\<close>, which the encoder applies to attribute values.\<close>

definition xml_char :: "int \<Rightarrow> bool" where
  "xml_char r \<longleftrightarrow> r = 0x09 \<or> r = 0x0A \<or> r = 0x0D \<or> 0x20 \<le> r \<and> r \<le> 0xD7FF \<or>
     0xE000 \<le> r \<and> r \<le> 0xFFFD \<or> 0x10000 \<le> r \<and> r \<le> 0x10FFFF"

definition replacement :: string where
  "replacement = [CHR 0xEF, CHR 0xBF, CHR 0xBD]"

definition xml_rune :: "int \<times> string \<Rightarrow> string" where
  "xml_rune p = (case p of (r, b) \<Rightarrow>
     if r = 0x22 then ''&#34;'' else if r = 0x27 then ''&#39;'' else if r = 0x26 then ''&amp;''
     else if r = 0x3C then ''&lt;'' else if r = 0x3E then ''&gt;'' else if r = 0x09 then ''&#x9;''
     else if r = 0x0A then ''&#xA;'' else if r = 0x0D then ''&#xD;''
     else if \<not> xml_char r \<or> r = 0xFFFD \<and> length b = 1 then replacement else b)"

definition xml_escape :: "string \<Rightarrow> string" where
  "xml_escape s = concat (map xml_rune (runes s))"

definition quoted_attr :: "string \<Rightarrow> string" where
  "quoted_attr s = CHR 0x22 # xml_escape s @ [CHR 0x22]"

definition line :: "string \<Rightarrow> string" where
  "line s = s @ [CHR 0x0A]"

definition xml_Header :: string where
  "xml_Header = line (''<?xml version='' @ quoted_attr ''1.0'' @ '' encoding='' @ quoted_attr ''UTF-8'' @ ''?>'')"

section \<open>Gateway files\<close>

definition externalProfile :: string where
  "externalProfile = ''external''"

definition GatewayName :: "uuid_lib \<Rightarrow> uuid \<Rightarrow> string" where
  "GatewayName U i = ustr U i"

definition given :: "string option \<Rightarrow> bool" where
  "given x \<longleftrightarrow> x \<noteq> None \<and> x \<noteq> Some []"

definition gateway_params :: "Carrier \<Rightarrow> string \<Rightarrow> (string \<times> string) list" where
  "gateway_params c password =
     [(''proxy'', c_Host c @ '':'' @ int_str (c_Port c)),
      (''register'', if given (c_Username c) then ''true'' else ''false''),
      (''register-transport'', if to_lower (c_Transport c) = [] then ''udp'' else to_lower (c_Transport c)),
      (''caller-id-in-from'', ''true'')] @
     (if given (c_Username c) then [(''username'', the (c_Username c))] else []) @
     (if password \<noteq> [] then [(''password'', password)] else []) @
     [(''realm'', if given (c_Realm c) then the (c_Realm c) else c_Host c)]"

definition param_xml :: "string \<times> string \<Rightarrow> string" where
  "param_xml p = ''    <param name='' @ quoted_attr (fst p) @ '' value='' @ quoted_attr (snd p) @ ''></param>''"

definition renderGatewayXML :: "uuid_lib \<Rightarrow> Carrier \<Rightarrow> string \<Rightarrow> string" where
  "renderGatewayXML U c password =
     xml_Header @ line ''<include>'' @ line (''  <gateway name='' @ quoted_attr (GatewayName U (c_ID c)) @ ''>'') @
     concat (map (\<lambda>p. line (param_xml p)) (gateway_params c password)) @
     line ''  </gateway>'' @ ''</include>''"

definition gateway_path :: "uuid_lib \<Rightarrow> string \<Rightarrow> uuid \<Rightarrow> string" where
  "gateway_path U dir i = path_join dir (ustr U i @ ''.xml'')"

definition killgw_cmd :: "string \<Rightarrow> string" where
  "killgw_cmd name = ''sofia profile '' @ externalProfile @ '' killgw '' @ name"

definition rescan_cmd :: string where
  "rescan_cmd = ''sofia profile '' @ externalProfile @ '' rescan''"

definition ApplyCarrierGateway :: "uuid_lib \<Rightarrow> esl \<Rightarrow> string \<Rightarrow> Carrier \<Rightarrow> string \<Rightarrow> ('r edge, unit) run" where
  "ApplyCarrierGateway U E dir c password =
     bindE (wrapE ''gateway dir'' (MkdirAll dir)) (\<lambda>_.
     bindE (wrapE ''write gateway xml'' (WriteFile (gateway_path U dir (c_ID c)) (renderGatewayXML U c password))) (\<lambda>_.
     bindE (ignoreE (esl_api E (killgw_cmd (GatewayName U (c_ID c))))) (\<lambda>_.
     bindE (wrapE ''sofia rescan'' (esl_api E rescan_cmd)) (\<lambda>_. retE ()))))"

text \<open>An error of the switch that says the gateway is not there.\<close>

definition missing_gateway :: "goerr \<Rightarrow> bool" where
  "missing_gateway e = (case e of
       ErrMsg m \<Rightarrow> str_contains (to_lower m) ''invalid'' \<or> str_contains (to_lower m) ''not find''
     | _ \<Rightarrow> False)"

definition RemoveCarrierGateway :: "uuid_lib \<Rightarrow> esl \<Rightarrow> string \<Rightarrow> uuid \<Rightarrow> ('r edge, unit) run" where
  "RemoveCarrierGateway U E dir i =
     bindE (ignoreE (RemoveFile (gateway_path U dir i))) (\<lambda>_.
     tryE (esl_api E (killgw_cmd (GatewayName U i))) (\<lambda>r.
       case r of
         Inl e \<Rightarrow> if missing_gateway e then retE () else failE (ErrWrap ''sofia killgw'' e)
       | Inr _ \<Rightarrow> retE ()))"

section \<open>Reloading\<close>

definition ListOrdered :: "('r edge, Carrier list) run" where
  "ListOrdered = edge_db (db_select (\<lambda>t _. sort_key c_Priority (sort_key c_CreatedAt (carriers t))))"

record Reloader =
  rl_ESL :: esl
  rl_GatewayDir :: string
  rl_SecretKey :: string

text \<open>\<open>if err != nil && firstErr == nil { firstErr = ... }\<close>\<close>

definition note_err :: "(goerr \<Rightarrow> goerr) \<Rightarrow> ('s, unit) run \<Rightarrow> goerr option \<Rightarrow> ('s, goerr option) run" where
  "note_err wrap m first =
     tryE m (\<lambda>r. retE (case r of
       Inl e \<Rightarrow> (case first of None \<Rightarrow> Some (wrap e) | Some _ \<Rightarrow> first)
     | Inr _ \<Rightarrow> first))"

definition carrier_password :: "crypto \<Rightarrow> string \<Rightarrow> Carrier \<Rightarrow> goerr + string" where
  "carrier_password C key c =
     (if given (c_PasswordEncrypted c) then Decrypt C key (the (c_PasswordEncrypted c)) else Inr [])"

fun reload_each ::
  "uuid_lib \<Rightarrow> crypto \<Rightarrow> Reloader \<Rightarrow> Carrier list \<Rightarrow> uuid list \<Rightarrow> goerr option \<Rightarrow>
   ('r edge, uuid list \<times> goerr option) run" where
  "reload_each U C rl [] enabled first = retE (enabled, first)"
| "reload_each U C rl (c # cs) enabled first =
     (if \<not> c_Enabled c then
        bindE (note_err id (RemoveCarrierGateway U (rl_ESL rl) (rl_GatewayDir rl) (c_ID c)) first) (\<lambda>first'.
          reload_each U C rl cs enabled first')
      else (case carrier_password C (rl_SecretKey rl) c of
          Inl e \<Rightarrow> reload_each U C rl cs (c_ID c # enabled)
                    (case first of None \<Rightarrow> Some (ErrWrap (''decrypt carrier '' @ ustr U (c_ID c)) e) | Some _ \<Rightarrow> first)
        | Inr password \<Rightarrow>
            bindE (note_err (ErrWrap (''apply carrier '' @ ustr U (c_ID c)))
                     (ApplyCarrierGateway U (rl_ESL rl) (rl_GatewayDir rl) c password) first) (\<lambda>first'.
              reload_each U C rl cs (c_ID c # enabled) first')))"

fun reconcile_each ::
  "uuid_lib \<Rightarrow> esl \<Rightarrow> string \<Rightarrow> uuid list \<Rightarrow> string list \<Rightarrow> goerr option \<Rightarrow> ('r edge, goerr option) run" where
  "reconcile_each U E dir enabled [] first = retE first"
| "reconcile_each U E dir enabled (n # ns) first =
     (if \<not> has_suffix n ''.xml'' then reconcile_each U E dir enabled ns first
      else (case uparse U (trim_suffix n ''.xml'') of
          None \<Rightarrow> reconcile_each U E dir enabled ns first
        | Some i \<Rightarrow>
            if i \<in> set enabled then reconcile_each U E dir enabled ns first
            else bindE (note_err id (RemoveCarrierGateway U E dir i) first) (\<lambda>first'.
                   reconcile_each U E dir enabled ns first')))"

text \<open>The error a function returns at its end, \<open>return firstErr\<close>.\<close>

definition return_err :: "goerr option \<Rightarrow> ('s, unit) run" where
  "return_err e = (case e of None \<Rightarrow> retE () | Some x \<Rightarrow> failE x)"

definition ReconcileGatewayDirectory :: "uuid_lib \<Rightarrow> esl \<Rightarrow> string \<Rightarrow> uuid list \<Rightarrow> ('r edge, unit) run" where
  "ReconcileGatewayDirectory U E dir enabled =
     bindE (wrapE ''read gateway dir'' (ReadDir dir)) (\<lambda>entries.
     bindE (reconcile_each U E dir enabled entries None) return_err)"

definition ReloadAll :: "uuid_lib \<Rightarrow> crypto \<Rightarrow> Reloader \<Rightarrow> ('r edge, unit) run" where
  "ReloadAll U C rl =
     bindE (wrapE ''list carriers'' ListOrdered) (\<lambda>carriers.
     bindE (reload_each U C rl carriers [] None) (\<lambda>(enabled, first).
     bindE (note_err id (ReconcileGatewayDirectory U (rl_ESL rl) (rl_GatewayDir rl) enabled) first) return_err))"

section \<open>What the operations do to the files\<close>

text \<open>The gateway files, by carrier.\<close>

definition gateway_file :: "uuid_lib \<Rightarrow> string \<Rightarrow> 'r edge \<Rightarrow> uuid \<Rightarrow> string option" where
  "gateway_file U dir w i = map_of (eg_files w) (gateway_path U dir i)"

text \<open>Nothing but gateway files has changed, and the disk still does not fail.\<close>

definition gw_frame :: "uuid_lib \<Rightarrow> string \<Rightarrow> 'r edge \<Rightarrow> 'r edge \<Rightarrow> bool" where
  "gw_frame U dir w w' \<longleftrightarrow>
     (eg_disk w = [] \<longrightarrow> eg_disk w' = []) \<and> eg_db w' = eg_db w \<and>
     (\<forall>p. p \<notin> range (gateway_path U dir) \<longrightarrow> map_of (eg_files w') p = map_of (eg_files w) p)"

lemma gw_frame_refl [simp]: "gw_frame U dir w w"
  by (simp add: gw_frame_def)

lemma gw_frame_trans: "gw_frame U dir w w1 \<Longrightarrow> gw_frame U dir w1 w2 \<Longrightarrow> gw_frame U dir w w2"
  by (simp add: gw_frame_def)

lemma disk_ok [simp]:
  "eg_disk w = [] \<Longrightarrow> MkdirAll dir w = (Inr (), w)"
  "eg_disk w = [] \<Longrightarrow> WriteFile p b w = (Inr (), w\<lparr>eg_files := AList.update p b (eg_files w)\<rparr>)"
  "eg_disk w = [] \<Longrightarrow> RemoveFile p w = (Inr (), w\<lparr>eg_files := AList.delete p (eg_files w)\<rparr>)"
  "eg_disk w = [] \<Longrightarrow> ReadDir dir w = (Inr (names_in dir (eg_files w)), w)"
  by (simp_all add: MkdirAll_def WriteFile_def RemoveFile_def ReadDir_def disk_op_def)

lemma note_err_iff:
  "note_err wrap m first w = (r, w') \<longleftrightarrow>
     (\<exists>q. m w = (q, w') \<and> r = Inr (case q of Inl e \<Rightarrow> (case first of None \<Rightarrow> Some (wrap e) | Some _ \<Rightarrow> first) | Inr _ \<Rightarrow> first))"
  unfolding note_err_def by (cases "m w") (auto simp: tryE_def)

context uuid_library begin

lemma gateway_path_inject [simp]: "gateway_path U dir i = gateway_path U dir j \<longleftrightarrow> i = j"
  by (simp add: gateway_path_def path_join_def)

lemma RemoveCarrierGateway_files:
  assumes "RemoveCarrierGateway U E dir i w = (r, w')" and "eg_disk w = []"
  shows "gw_frame U dir w w' \<and> gateway_file U dir w' = (gateway_file U dir w)(i := None)"
  using assms unfolding RemoveCarrierGateway_def
  by (auto simp: bindE_iff tryE_iff edge_iffs gw_frame_def gateway_file_def fun_eq_iff delete_conv' split: if_splits)

lemma ApplyCarrierGateway_files:
  assumes "ApplyCarrierGateway U E dir c pw w = (r, w')" and "eg_disk w = []"
  shows "gw_frame U dir w w' \<and>
    gateway_file U dir w' = (gateway_file U dir w)(c_ID c \<mapsto> renderGatewayXML U c pw)"
  using assms unfolding ApplyCarrierGateway_def
  by (auto simp: bindE_iff wrapE_iff edge_iffs gw_frame_def gateway_file_def fun_eq_iff update_conv' split: if_splits)

text \<open>The files after the carriers have been gone through, one after the other.\<close>

definition gw_step :: "crypto \<Rightarrow> string \<Rightarrow> Carrier \<Rightarrow> (uuid \<rightharpoonup> string) \<Rightarrow> (uuid \<rightharpoonup> string)" where
  "gw_step C key c g =
     (if c_Enabled c then g(c_ID c \<mapsto> renderGatewayXML U c (projr (carrier_password C key c)))
      else g(c_ID c := None))"

lemma gw_steps_other:
  "i \<notin> c_ID ` set cs \<Longrightarrow> fold (gw_step C key) cs g i = g i"
  by (induction cs arbitrary: g) (auto simp: gw_step_def)

lemma gw_steps_mem:
  "distinct (map c_ID cs) \<Longrightarrow> c \<in> set cs \<Longrightarrow>
   fold (gw_step C key) cs g (c_ID c) =
     (if c_Enabled c then Some (renderGatewayXML U c (projr (carrier_password C key c))) else None)"
  by (induction cs arbitrary: g) (auto simp: gw_steps_other, auto simp: gw_step_def)

lemma reload_each_files:
  assumes "reload_each U C rl cs en first w = (Inr (en', None), w')" and "eg_disk w = []"
  shows "first = None \<and> gw_frame U (rl_GatewayDir rl) w w' \<and>
    set en' = set en \<union> c_ID ` {c \<in> set cs. c_Enabled c} \<and>
    (\<forall>c \<in> set cs. c_Enabled c \<longrightarrow> \<not> isl (carrier_password C (rl_SecretKey rl) c)) \<and>
    gateway_file U (rl_GatewayDir rl) w' = fold (gw_step C (rl_SecretKey rl)) cs (gateway_file U (rl_GatewayDir rl) w)"
  using assms
proof (induction cs arbitrary: en first w)
  case (Cons c cs)
  let ?dir = "rl_GatewayDir rl" and ?key = "rl_SecretKey rl"
  show ?case
  proof (cases "c_Enabled c")
    case False
    obtain q w1 where q: "RemoveCarrierGateway U (rl_ESL rl) ?dir (c_ID c) w = (q, w1)" by fastforce
    from RemoveCarrierGateway_files [OF q Cons.prems(2)]
    have f: "gw_frame U ?dir w w1" "gateway_file U ?dir w1 = gw_step C ?key c (gateway_file U ?dir w)"
      using False by (simp_all add: gw_step_def)
    then have "eg_disk w1 = []" using Cons.prems(2) by (simp add: gw_frame_def)
    then show ?thesis
      using Cons.prems(1) False q Cons.IH [of en _ w1] f
      by (auto simp: bindE_iff note_err_iff gw_frame_trans [OF f(1)] split: sum.splits option.splits dest!: Cons.IH)
  next
    case en: True
    show ?thesis
    proof (cases "carrier_password C ?key c")
      case (Inl e)
      then show ?thesis
        using Cons.prems en by (auto split: option.splits dest!: Cons.IH)
    next
      case (Inr pw)
      obtain q w1 where q: "ApplyCarrierGateway U (rl_ESL rl) ?dir c pw w = (q, w1)" by fastforce
      from ApplyCarrierGateway_files [OF q Cons.prems(2)]
      have f: "gw_frame U ?dir w w1" "gateway_file U ?dir w1 = gw_step C ?key c (gateway_file U ?dir w)"
        using en Inr by (simp_all add: gw_step_def)
      then have "eg_disk w1 = []" using Cons.prems(2) by (simp add: gw_frame_def)
      then show ?thesis
        using Cons.prems(1) en Inr q f
        by (auto simp: bindE_iff note_err_iff gw_frame_trans [OF f(1)] split: sum.splits option.splits dest!: Cons.IH)
    qed
  qed
qed simp

text \<open>A gateway file is an entry of the directory.\<close>

lemma gateway_listed:
  assumes "gateway_file U dir w i \<noteq> None"
  shows "ustr U i @ ''.xml'' \<in> set (names_in dir (eg_files w))"
proof -
  have "(dir @ ''/'') @ (ustr U i @ ''.xml'') \<in> set (map fst (eg_files w))"
    using assms by (force simp: gateway_file_def gateway_path_def path_join_def dest: map_of_SomeD)
  moreover have "CHR ''/'' \<notin> set (ustr U i @ ''.xml'')"
    using ustr_no_char [of "CHR ''/''"] by (simp add: uuid_char_def is_digit_def)
  ultimately show ?thesis
    unfolding names_in_def by (force simp: image_iff trim_prefix_def)
qed

lemma reconcile_each_files:
  assumes "reconcile_each U E dir en ns first w = (r, w')" and "eg_disk w = []"
  shows "gw_frame U dir w w' \<and>
    (\<forall>i. gateway_file U dir w' i =
      (if i \<notin> set en \<and> (\<exists>n \<in> set ns. has_suffix n ''.xml'' \<and> uparse U (trim_suffix n ''.xml'') = Some i)
       then None else gateway_file U dir w i))"
  using assms
proof (induction ns arbitrary: first w)
  case (Cons n ns)
  show ?case
  proof (cases "\<exists>i. has_suffix n ''.xml'' \<and> uparse U (trim_suffix n ''.xml'') = Some i \<and> i \<notin> set en")
    case True
    then obtain i where i: "has_suffix n ''.xml''" "uparse U (trim_suffix n ''.xml'') = Some i" "i \<notin> set en" by blast
    obtain q w1 where q: "RemoveCarrierGateway U E dir i w = (q, w1)" by fastforce
    note f = RemoveCarrierGateway_files [OF q Cons.prems(2)]
    then have d: "eg_disk w1 = []" using Cons.prems(2) by (simp add: gw_frame_def)
    obtain first' where "reconcile_each U E dir en ns first' w1 = (r, w')"
      using Cons.prems(1) i q by (auto simp: bindE_iff note_err_iff)
    from Cons.IH [OF this d] show ?thesis
      using f i by (auto intro: gw_frame_trans)
  next
    case False
    then have "reconcile_each U E dir en ns first w = (r, w')"
      using Cons.prems(1) by (auto split: if_splits option.splits)
    from Cons.IH [OF this Cons.prems(2)] show ?thesis using False by auto
  qed
qed simp

end

section \<open>A switch and a disk that do what they are asked\<close>

definition esl_up :: "esl \<Rightarrow> bool" where
  "esl_up E \<longleftrightarrow> (\<forall>h cmd. \<exists>b. E h cmd = Inr b)"

lemma esl_up_api: "esl_up E \<Longrightarrow> \<exists>b. esl_api E cmd w = (Inr b, w\<lparr>eg_cmds := eg_cmds w @ [cmd]\<rparr>)"
  unfolding esl_up_def esl_api_def by (metis id_apply map_sum.simps(2))

lemma RemoveCarrierGateway_Inr:
  assumes "esl_up E" and "eg_disk w = []"
  shows "\<exists>w'. RemoveCarrierGateway U E dir i w = (Inr (), w') \<and> eg_disk w' = []"
proof -
  let ?w = "w\<lparr>eg_files := AList.delete (gateway_path U dir i) (eg_files w)\<rparr>"
  obtain b where "esl_api E (killgw_cmd (GatewayName U i)) ?w = (Inr b, ?w\<lparr>eg_cmds := eg_cmds ?w @ [killgw_cmd (GatewayName U i)]\<rparr>)"
    using esl_up_api [OF assms(1)] by blast
  then show ?thesis
    using assms(2) by (simp add: RemoveCarrierGateway_def bindE_def ignoreE_def tryE_def)
qed

lemma ApplyCarrierGateway_Inr:
  assumes "esl_up E" and "eg_disk w = []"
  shows "\<exists>w'. ApplyCarrierGateway U E dir c pw w = (Inr (), w') \<and> eg_disk w' = []"
proof -
  obtain b where "E (eg_cmds w @ [killgw_cmd (GatewayName U (c_ID c))]) rescan_cmd = Inr b"
    using assms(1) by (auto simp: esl_up_def)
  then show ?thesis
    using assms(2) by (simp add: ApplyCarrierGateway_def bindE_def wrapE_def ignoreE_def tryE_def esl_api_def)
qed

lemma note_err_ok: "m w = (Inr (), w') \<Longrightarrow> note_err wrap m first w = (Inr first, w')"
  by (simp add: note_err_def tryE_def)

lemma reload_each_Inr:
  assumes "esl_up (rl_ESL rl)" and "eg_disk w = []"
    and "\<forall>c \<in> set cs. c_Enabled c \<longrightarrow> \<not> isl (carrier_password C (rl_SecretKey rl) c)"
  shows "\<exists>en' w'. reload_each U C rl cs en None w = (Inr (en', None), w') \<and> eg_disk w' = []"
  using assms(2, 3)
proof (induction cs arbitrary: en w)
  case (Cons c cs)
  show ?case
  proof (cases "c_Enabled c")
    case False
    obtain w1 where w1: "RemoveCarrierGateway U (rl_ESL rl) (rl_GatewayDir rl) (c_ID c) w = (Inr (), w1)" "eg_disk w1 = []"
      using RemoveCarrierGateway_Inr [OF assms(1) Cons.prems(1)] by blast
    then show ?thesis
      using Cons.IH [OF w1(2), of en] Cons.prems(2) False note_err_ok [of "RemoveCarrierGateway U (rl_ESL rl) (rl_GatewayDir rl) (c_ID c)", OF w1(1), of id None]
      by (simp add: bindE_def)
  next
    case True
    obtain pw where pw: "carrier_password C (rl_SecretKey rl) c = Inr pw"
      using Cons.prems(2) True by (cases "carrier_password C (rl_SecretKey rl) c") auto
    obtain w1 where w1: "ApplyCarrierGateway U (rl_ESL rl) (rl_GatewayDir rl) c pw w = (Inr (), w1)" "eg_disk w1 = []"
      using ApplyCarrierGateway_Inr [OF assms(1) Cons.prems(1)] by blast
    then show ?thesis
      using Cons.IH [OF w1(2), of "c_ID c # en"] Cons.prems(2) True pw
        note_err_ok [of "ApplyCarrierGateway U (rl_ESL rl) (rl_GatewayDir rl) c pw", OF w1(1), of "ErrWrap (''apply carrier '' @ ustr U (c_ID c))" None] by (simp add: bindE_def)
  qed
qed simp

lemma reconcile_each_Inr:
  assumes "esl_up E" and "eg_disk w = []"
  shows "\<exists>w'. reconcile_each U E dir en ns None w = (Inr None, w')"
  using assms(2)
proof (induction ns arbitrary: w)
  case (Cons n ns)
  show ?case
  proof (cases "has_suffix n ''.xml'' \<and> (\<exists>i. uparse U (trim_suffix n ''.xml'') = Some i \<and> i \<notin> set en)")
    case True
    then obtain i where i: "uparse U (trim_suffix n ''.xml'') = Some i" "i \<notin> set en" "has_suffix n ''.xml''" by blast
    obtain w1 where w1: "RemoveCarrierGateway U E dir i w = (Inr (), w1)" "eg_disk w1 = []"
      using RemoveCarrierGateway_Inr [OF assms(1) Cons.prems] by blast
    then show ?thesis
      using Cons.IH [OF w1(2)] i note_err_ok [of "RemoveCarrierGateway U E dir i", OF w1(1), of id None]
      by (simp add: bindE_def)
  next
    case False
    then show ?thesis using Cons.IH [OF Cons.prems] by (auto split: option.split)
  qed
qed simp

lemma ReloadAll_Inr:
  assumes "esl_up (rl_ESL rl)" and "eg_disk w = []" and "db_faults (eg_db w) = []"
    and "\<forall>c \<in> set (carriers (tabs (eg_db w))). c_Enabled c \<longrightarrow> \<not> isl (carrier_password C (rl_SecretKey rl) c)"
  shows "\<exists>w'. ReloadAll U C rl w = (Inr (), w')"
proof -
  let ?cs = "sort_key c_Priority (sort_key c_CreatedAt (carriers (tabs (eg_db w))))"
  have l: "ListOrdered w = (Inr ?cs, w)" using assms(3) by (simp add: ListOrdered_def edge_db_def)
  obtain en w1 where r: "reload_each U C rl ?cs [] None w = (Inr (en, None), w1)" "eg_disk w1 = []"
    using reload_each_Inr [OF assms(1, 2), of ?cs C U "[]"] assms(4) by auto
  obtain w2 where "reconcile_each U (rl_ESL rl) (rl_GatewayDir rl) en (names_in (rl_GatewayDir rl) (eg_files w1)) None w1 = (Inr None, w2)"
    using reconcile_each_Inr [OF assms(1) r(2)] by blast
  then show ?thesis
    using l r by (simp add: ReloadAll_def ReconcileGatewayDirectory_def bindE_def wrapE_def note_err_def tryE_def return_err_def)
qed

lemma note_err_None: "note_err wrap m first w = (Inr None, w') \<longleftrightarrow> first = None \<and> m w = (Inr (), w')"
  by (cases "m w"; cases "fst (m w)"; cases first) (auto simp: note_err_def tryE_def)

text \<open>A reload that reports no error, in its parts.\<close>

lemma map_sum_Inr: "Inr x = map_sum f id r \<longleftrightarrow> r = Inr x"
  by (cases r) auto


lemma ReloadAll_runs:
  assumes "ReloadAll U C rl w = (Inr (), w')" and "eg_disk w = []"
  shows "\<exists>w0 en w1 r. eg_disk w0 = [] \<and> eg_files w0 = eg_files w \<and>
    reload_each U C rl (sort_key c_Priority (sort_key c_CreatedAt (carriers (tabs (eg_db w))))) [] None w0 = (Inr (en, None), w1) \<and>
    (eg_disk w1 = [] \<longrightarrow> reconcile_each U (rl_ESL rl) (rl_GatewayDir rl) en (names_in (rl_GatewayDir rl) (eg_files w1)) None w1 = (r, w'))"
proof -
  obtain cs w0 en w1 where l: "ListOrdered w = (Inr cs, w0)"
    and r: "reload_each U C rl cs [] None w0 = (Inr (en, None), w1)"
    and c: "fst (ReconcileGatewayDirectory U (rl_ESL rl) (rl_GatewayDir rl) en w1) = Inr ()"
      "snd (ReconcileGatewayDirectory U (rl_ESL rl) (rl_GatewayDir rl) en w1) = w'"
    using assms(1) unfolding ReloadAll_def
    by (auto simp: bindE_iff wrapE_iff note_err_None return_err_def map_sum_Inr split: option.splits)
  have "cs = sort_key c_Priority (sort_key c_CreatedAt (carriers (tabs (eg_db w))))"
    "eg_disk w0 = []" "eg_files w0 = eg_files w"
    using l assms(2) by (auto simp: ListOrdered_def edge_db_iff dest!: db_select_ok)
  moreover have "\<exists>r. reconcile_each U (rl_ESL rl) (rl_GatewayDir rl) en
      (names_in (rl_GatewayDir rl) (eg_files w1)) None w1 = (r, w')" if "eg_disk w1 = []"
    using c that unfolding ReconcileGatewayDirectory_def
    by (auto simp: bindE_def wrapE_def return_err_def split: prod.splits sum.splits option.splits)
  ultimately show ?thesis using r by blast
qed

text \<open>What a reload without errors leaves in the gateway directory.\<close>

lemma ReloadAll_files:
  assumes "uuid_library U" and "ReloadAll U C rl w = (Inr (), w')" and "eg_disk w = []"
    and "distinct (map c_ID (carriers (tabs (eg_db w))))"
  shows "(\<forall>c \<in> set (carriers (tabs (eg_db w))). c_Enabled c \<longrightarrow>
      (\<exists>pw. carrier_password C (rl_SecretKey rl) c = Inr pw \<and>
        map_of (eg_files w') (gateway_path U (rl_GatewayDir rl) (c_ID c)) = Some (renderGatewayXML U c pw))) \<and>
    (\<forall>i. i \<notin> c_ID ` {c \<in> set (carriers (tabs (eg_db w))). c_Enabled c} \<longrightarrow>
      map_of (eg_files w') (gateway_path U (rl_GatewayDir rl) i) = None) \<and>
    (\<forall>p. p \<notin> range (gateway_path U (rl_GatewayDir rl)) \<longrightarrow> map_of (eg_files w') p = map_of (eg_files w) p)"
proof -
  let ?dir = "rl_GatewayDir rl" and ?cs = "sort_key c_Priority (sort_key c_CreatedAt (carriers (tabs (eg_db w))))"
  obtain w0 en w1 r where w0: "eg_disk w0 = []" "eg_files w0 = eg_files w"
    and rel: "reload_each U C rl ?cs [] None w0 = (Inr (en, None), w1)"
    and rec: "eg_disk w1 = [] \<longrightarrow> reconcile_each U (rl_ESL rl) ?dir en (names_in ?dir (eg_files w1)) None w1 = (r, w')"
    using ReloadAll_runs [OF assms(2, 3)] by blast
  note a = uuid_library.reload_each_files [OF assms(1) rel w0(1)]
  then have d1: "eg_disk w1 = []" using w0(1) by (simp add: gw_frame_def)
  note b = uuid_library.reconcile_each_files [OF assms(1) rec [rule_format, OF d1] d1]
  have dist: "distinct (map c_ID ?cs)"
    using assms(4) by (simp add: distinct_map)
  have en: "set en = c_ID ` {c \<in> set (carriers (tabs (eg_db w))). c_Enabled c}" using a by simp
  have f: "map_of (eg_files w') (gateway_path U ?dir i) = gateway_file U ?dir w' i" for i
    by (simp add: gateway_file_def)
  have "\<exists>pw. carrier_password C (rl_SecretKey rl) c = Inr pw \<and> gateway_file U ?dir w' (c_ID c) = Some (renderGatewayXML U c pw)"
    if c: "c \<in> set ?cs" "c_Enabled c" for c
  proof -
    obtain pw where pw: "carrier_password C (rl_SecretKey rl) c = Inr pw"
      using a c by (cases "carrier_password C (rl_SecretKey rl) c") auto
    have "gateway_file U ?dir w1 (c_ID c) = Some (renderGatewayXML U c pw)"
      using a uuid_library.gw_steps_mem [OF assms(1) dist c(1), of C "rl_SecretKey rl"] c(2) pw by simp
    moreover have "c_ID c \<in> set en" using en c by auto
    ultimately show ?thesis using b pw by simp
  qed
  moreover have "gateway_file U ?dir w' i = None" if "i \<notin> set en" for i
  proof (cases "gateway_file U ?dir w1 i")
    case (Some x)
    then have "ustr U i @ ''.xml'' \<in> set (names_in ?dir (eg_files w1))"
      by (simp add: uuid_library.gateway_listed [OF assms(1)])
    moreover have "uparse U (trim_suffix (ustr U i @ ''.xml'') ''.xml'') = Some i"
      by (simp only: trim_suffix_append uuid_library.uparse_ustr [OF assms(1)])
    moreover have "has_suffix (ustr U i @ ''.xml'') ''.xml''" by (simp only: suffix_def) blast
    ultimately have "\<exists>n \<in> set (names_in ?dir (eg_files w1)). has_suffix n ''.xml'' \<and> uparse U (trim_suffix n ''.xml'') = Some i"
      by blast
    then show ?thesis using b that by simp
  qed (use b in simp)
  moreover have "gw_frame U ?dir w0 w'" using a b gw_frame_trans by blast
  ultimately show ?thesis
    using w0 unfolding f en by (simp add: gw_frame_def)
qed

section \<open>Properties\<close>


definition sample_carrier :: "uuid \<Rightarrow> bool \<Rightarrow> Carrier" where
  "sample_carrier i on =
     \<lparr>c_ID = i, c_Name = ''trunk'', c_Host = ''sip.example.org'', c_Port = 5060, c_Transport = ''udp'', c_Username = None,
      c_PasswordEncrypted = None, c_Realm = None, c_Codecs = [], c_CallerIDs = [], c_MaxCPS = 5, c_MaxChannels = 2,
      c_Enabled = on, c_Priority = 1, c_CreatedAt = 0\<rparr>"

definition sample_reloader :: Reloader where
  "sample_reloader = \<lparr>rl_ESL = (\<lambda>_ _. Inr ''+OK''), rl_GatewayDir = ''/gw'', rl_SecretKey = []\<rparr>"


end
