(* ===== verification/Dialer.thy ===== *)
theory Dialer
  imports Fs_Gateway Go_Time
begin

text \<open>
  Manual outbound calls, \<open>services/edge/internal/dialer/manual.go\<close>: the choice of a carrier by
  its call rate and its channels, the originate command, and the Redis records of the calls that
  are up: a channel counter per carrier, the call's meta data and the agent's current call.
\<close>

section \<open>Keys, numbers and commands\<close>

definition callEventsChannel :: string where
  "callEventsChannel = ''call.events''"

definition ChannelKey :: "uuid_lib \<Rightarrow> uuid \<Rightarrow> string" where
  "ChannelKey U carrierID = ''channels:carrier:'' @ ustr U carrierID"

definition agentCallKey :: "uuid_lib \<Rightarrow> uuid \<Rightarrow> string" where
  "agentCallKey U agentID = ''call:agent:'' @ ustr U agentID"

definition callMetaKey :: "string \<Rightarrow> string" where
  "callMetaKey callUUID = ''call:meta:'' @ callUUID"

text \<open>The match of \<open>^[+][1-9][0-9]{1,14}$\<close>.\<close>

definition IsE164 :: "string \<Rightarrow> bool" where
  "IsE164 s \<longleftrightarrow>
     (case s of
        p # d # ds \<Rightarrow> p = CHR ''+'' \<and> is_digit d \<and> d \<noteq> CHR ''0'' \<and> list_all is_digit ds \<and>
                      1 \<le> length ds \<and> length ds \<le> 14
      | _ \<Rightarrow> False)"

definition EscapeDialString :: "string \<Rightarrow> string" where
  "EscapeDialString s =
     replace_bytes [(CHR 0x5C, [CHR 0x5C, CHR 0x5C]), (CHR '','', [CHR 0x5C, CHR '','']),
       (CHR 0x27, [CHR 0x5C, CHR 0x27]), (CHR ''{'', [CHR 0x5C, CHR ''{'']),
       (CHR ''}'', [CHR 0x5C, CHR ''}''])] s"

definition BuildOriginate :: "string \<Rightarrow> string \<Rightarrow> string \<Rightarrow> string \<Rightarrow> string \<Rightarrow> goerr + string" where
  "BuildOriginate agentUser gatewayName to callerID callUUID =
     (if \<not> IsE164 to then Inl ErrInvalidE164
      else if callerID \<noteq> [] \<and> \<not> IsE164 callerID then Inl ErrInvalidE164
      else if agentUser = [] \<or> gatewayName = [] \<or> callUUID = [] then Inl (ErrMsg ''missing originate fields'')
      else
        let vars = ''origination_uuid='' @ EscapeDialString callUUID @
              (if callerID \<noteq> [] then '',origination_caller_id_number='' @ EscapeDialString callerID else [])
        in Inr (''originate {'' @ vars @ ''}user/'' @ EscapeDialString agentUser @
                '' &bridge(sofia/gateway/'' @ EscapeDialString gatewayName @ ''/'' @ EscapeDialString to @ '')''))"

definition isESLOK :: "string \<Rightarrow> bool" where
  "isESLOK body \<longleftrightarrow> has_prefix (trim_space body) ''+OK''"

section \<open>The dialer and its requests\<close>

record OutboundRequest =
  or_AgentID :: uuid
  or_To :: string
  or_CallerID :: string
  or_CampaignID :: "uuid option"
  or_LeadID :: "uuid option"

record OutboundResult =
  ores_CallUUID :: string
  ores_CarrierID :: uuid
  ores_To :: string

text \<open>\<open>m_Pres\<close> is the presence with its time to live, if there is one.\<close>

record 'r Manual =
  m_ESL :: esl
  m_RDB :: "'r redis"
  m_Carriers :: "('r edge, Carrier list) run"
  m_Pres :: "int option"
  m_GlobalMaxCPS :: int
  m_uuid :: uuid_lib

record callMeta =
  cm_AgentID :: string
  cm_CarrierID :: string
  cm_To :: string
  cm_CampaignID :: string
  cm_LeadID :: string
  cm_StartedAt :: string

definition meta_fields :: "string list" where
  "meta_fields = [''agent_id'', ''carrier_id'', ''to'', ''campaign_id'', ''lead_id'', ''started_at'']"

text \<open>\<open>json.Marshal\<close> of the meta data: \<open>omitempty\<close> leaves out the last three when empty.\<close>

definition omitempty :: "string \<Rightarrow> string \<Rightarrow> (string \<times> string) list" where
  "omitempty k v = (if v = [] then [] else [(k, v)])"

definition marshal_meta :: "callMeta \<Rightarrow> string" where
  "marshal_meta m = json_object
     ([(''agent_id'', cm_AgentID m), (''carrier_id'', cm_CarrierID m), (''to'', cm_To m)] @
      omitempty ''campaign_id'' (cm_CampaignID m) @ omitempty ''lead_id'' (cm_LeadID m) @
      omitempty ''started_at'' (cm_StartedAt m))"

definition unmarshal_meta :: "string \<Rightarrow> callMeta option" where
  "unmarshal_meta raw = map_option (\<lambda>v. \<lparr>cm_AgentID = v ''agent_id'', cm_CarrierID = v ''carrier_id'',
     cm_To = v ''to'', cm_CampaignID = v ''campaign_id'', cm_LeadID = v ''lead_id'',
     cm_StartedAt = v ''started_at''\<rparr>) (unmarshal meta_fields raw)"

section \<open>Redis records of a call\<close>

definition channelCount :: "'r redis \<Rightarrow> uuid_lib \<Rightarrow> uuid \<Rightarrow> ('r, int) run" where
  "channelCount R U carrierID =
     bindE (rGet R (ChannelKey U carrierID)) (\<lambda>val.
       case val of
         None \<Rightarrow> retE 0
       | Some v \<Rightarrow> (case parse_int v of None \<Rightarrow> failE (ErrMsg ''strconv.ParseInt'') | Some n \<Rightarrow> retE n))"

definition channelAvailable :: "'r redis \<Rightarrow> uuid_lib \<Rightarrow> Carrier \<Rightarrow> ('r, bool) run" where
  "channelAvailable R U c =
     (if c_MaxChannels c \<le> 0 then retE False
      else bindE (channelCount R U (c_ID c)) (\<lambda>n. retE (n < c_MaxChannels c)))"

definition id_or_empty :: "uuid_lib \<Rightarrow> uuid option \<Rightarrow> string" where
  "id_or_empty U x = (case x of None \<Rightarrow> [] | Some i \<Rightarrow> if i = uuid_Nil then [] else ustr U i)"

definition call_meta :: "uuid_lib \<Rightarrow> OutboundRequest \<Rightarrow> uuid \<Rightarrow> time \<Rightarrow> callMeta" where
  "call_meta U req carrierID now =
     \<lparr>cm_AgentID = ustr U (or_AgentID req), cm_CarrierID = ustr U carrierID, cm_To = or_To req,
      cm_CampaignID = id_or_empty U (or_CampaignID req), cm_LeadID = id_or_empty U (or_LeadID req),
      cm_StartedAt = format_rfc3339 now\<rparr>"

definition day_seconds :: int where
  "day_seconds = 24 * 3600"

definition trackCall :: "'r Manual \<Rightarrow> OutboundRequest \<Rightarrow> uuid \<Rightarrow> string \<Rightarrow> ('r edge, unit) run" where
  "trackCall m req carrierID callUUID =
     (let R = m_RDB m; U = m_uuid m in
      bindE (on_redis (rIncr R (ChannelKey U carrierID))) (\<lambda>_.
      bindE clock_now (\<lambda>now.
      on_redis (rMultiSet R
        [(callMetaKey callUUID, marshal_meta (call_meta U req carrierID now), day_seconds),
         (agentCallKey U (or_AgentID req), callUUID, day_seconds)]))))"

definition loadMeta :: "'r redis \<Rightarrow> string \<Rightarrow> ('r, callMeta) run" where
  "loadMeta R callUUID =
     bindE (rGet R (callMetaKey callUUID)) (\<lambda>val.
       case val of
         None \<Rightarrow> failE RedisNil
       | Some raw \<Rightarrow> (case unmarshal_meta raw of
           None \<Rightarrow> failE (ErrMsg ''json'') | Some meta \<Rightarrow> retE meta))"

definition release_channel :: "'r redis \<Rightarrow> uuid_lib \<Rightarrow> callMeta option \<Rightarrow> ('r, unit) run" where
  "release_channel R U meta =
     (case Option.bind meta (\<lambda>mt. uparse U (cm_CarrierID mt)) of
        None \<Rightarrow> retE ()
      | Some cid \<Rightarrow>
          bindE (rDecr R (ChannelKey U cid)) (\<lambda>n.
          if n < 0 then ignoreE (rSet R (ChannelKey U cid) ''0'' 0) else retE ()))"

definition forget_call :: "'r redis \<Rightarrow> uuid_lib \<Rightarrow> uuid \<Rightarrow> string \<Rightarrow> ('r, unit) run" where
  "forget_call R U agentID callUUID =
     bindE (ignoreE (rDel R (callMetaKey callUUID))) (\<lambda>_.
     tryE (rGet R (agentCallKey U agentID)) (\<lambda>r.
       if r = Inr (Some callUUID) then ignoreE (rDel R (agentCallKey U agentID)) else retE ()))"

definition cleanupCall :: "'r redis \<Rightarrow> uuid_lib \<Rightarrow> uuid \<Rightarrow> string \<Rightarrow> callMeta option \<Rightarrow> ('r, unit) run" where
  "cleanupCall R U agentID callUUID meta =
     bindE (release_channel R U meta) (\<lambda>_. forget_call R U agentID callUUID)"

text \<open>The keys of a JSON object made from a Go map are sorted.\<close>

definition publishEvent :: "'r redis \<Rightarrow> (string \<times> string) list \<Rightarrow> ('r, unit) run" where
  "publishEvent R payload = rPublish R callEventsChannel (json_object payload)"

section \<open>Originate\<close>

definition answered_event :: "uuid_lib \<Rightarrow> OutboundRequest \<Rightarrow> uuid \<Rightarrow> string \<Rightarrow> (string \<times> string) list" where
  "answered_event U req carrierID callUUID =
     [(''agent_id'', ustr U (or_AgentID req)), (''call_uuid'', callUUID), (''carrier_id'', ustr U carrierID),
      (''to'', or_To req), (''type'', ''answered'')]"

text \<open>The call is up on the switch: record it, or take it down again.\<close>

definition connected :: "'r Manual \<Rightarrow> OutboundRequest \<Rightarrow> uuid \<Rightarrow> string \<Rightarrow> ('r edge, OutboundResult) run" where
  "connected m req carrierID callUUID =
     tryE (trackCall m req carrierID callUUID) (\<lambda>r.
       case r of
         Inl e \<Rightarrow> bindE (ignoreE (esl_api (m_ESL m) (''uuid_kill '' @ callUUID))) (\<lambda>_. failE e)
       | Inr _ \<Rightarrow>
           bindE (ignoreE (on_redis (publishEvent (m_RDB m) (answered_event (m_uuid m) req carrierID callUUID)))) (\<lambda>_.
           retE \<lparr>ores_CallUUID = callUUID, ores_CarrierID = carrierID, ores_To = or_To req\<rparr>))"

text \<open>The loop over the carriers, with the last error of the switch and the number of carriers tried.\<close>

fun try_carriers ::
  "'r Manual \<Rightarrow> OutboundRequest \<Rightarrow> time \<Rightarrow> string \<Rightarrow> goerr option \<Rightarrow> nat \<Rightarrow> Carrier list \<Rightarrow>
   ('r edge, OutboundResult) run" where
  "try_carriers m req now agentUser lastESL tried [] =
     (if tried = 0 then failE ErrCarrierCapacity
      else case lastESL of
             Some e \<Rightarrow> failE (ErrWrap ''originate failed'' e)
           | None \<Rightarrow> failE ErrCarrierCapacity)"
| "try_carriers m req now agentUser lastESL tried (c # cs) =
     (let U = m_uuid m in
      if \<not> c_Enabled c then try_carriers m req now agentUser lastESL tried cs
      else
        bindE (on_redis (channelAvailable (m_RDB m) U c)) (\<lambda>okChan.
        if \<not> okChan then try_carriers m req now agentUser lastESL (Suc tried) cs
        else
          bindE (on_redis (AllowCarrier (m_RDB m) (ustr U (c_ID c)) (c_MaxCPS c) now)) (\<lambda>okCPS.
          if \<not> okCPS then try_carriers m req now agentUser lastESL (Suc tried) cs
          else
            bindE new_uuid (\<lambda>u.
            let callUUID = ustr U u in
            case BuildOriginate agentUser (GatewayName U (c_ID c)) (or_To req) (or_CallerID req) callUUID of
              Inl e \<Rightarrow> failE e
            | Inr cmd \<Rightarrow>
                tryE (esl_api (m_ESL m) cmd) (\<lambda>r.
                  case r of
                    Inl e \<Rightarrow> try_carriers m req now agentUser (Some e) (Suc tried) cs
                  | Inr body \<Rightarrow>
                      if \<not> isESLOK body
                      then try_carriers m req now agentUser
                             (Some (ErrMsg (''esl originate: '' @ trim_space body))) (Suc tried) cs
                      else connected m req (c_ID c) callUUID)))))"

definition Originate :: "'r Manual \<Rightarrow> OutboundRequest \<Rightarrow> ('r edge, OutboundResult) run" where
  "Originate m req =
     (if \<not> IsE164 (or_To req) then failE ErrInvalidE164
      else if or_CallerID req \<noteq> [] \<and> \<not> IsE164 (or_CallerID req) then failE ErrInvalidE164
      else if or_AgentID req = uuid_Nil then failE (ErrMsg ''agent id required'')
      else
        bindE clock_now (\<lambda>now.
        bindE (if m_GlobalMaxCPS m > 0 then on_redis (AllowGlobal (m_RDB m) (m_GlobalMaxCPS m) now) else retE True) (\<lambda>ok.
        if \<not> ok then failE ErrCarrierCapacity
        else
          bindE (m_Carriers m) (\<lambda>carriers.
          try_carriers m req now (''agent-'' @ ustr (m_uuid m) (or_AgentID req)) None 0 carriers))))"

section \<open>Hangup\<close>

definition metaCarrier :: "callMeta option \<Rightarrow> string" where
  "metaCarrier meta = (case meta of None \<Rightarrow> [] | Some mt \<Rightarrow> cm_CarrierID mt)"

definition hangup_event :: "uuid_lib \<Rightarrow> uuid \<Rightarrow> string \<Rightarrow> callMeta option \<Rightarrow> (string \<times> string) list" where
  "hangup_event U agentID callUUID meta =
     [(''agent_id'', ustr U agentID), (''call_uuid'', callUUID), (''carrier_id'', metaCarrier meta), (''type'', ''hangup'')]"

text \<open>The call to hang up: the agent's own by its key, or the one asked for when it is the agent's.\<close>

definition find_call :: "'r redis \<Rightarrow> uuid_lib \<Rightarrow> uuid \<Rightarrow> string \<Rightarrow> ('r, string \<times> callMeta option) run" where
  "find_call R U agentID callUUID =
     (if callUUID = [] then
        bindE (rGet R (agentCallKey U agentID)) (\<lambda>val.
          case val of
            None \<Rightarrow> failE ErrNoActiveCall
          | Some stored \<Rightarrow>
              tryE (loadMeta R stored) (\<lambda>r. retE (stored, case r of Inl _ \<Rightarrow> None | Inr mt \<Rightarrow> Some mt)))
      else
        tryE (loadMeta R callUUID) (\<lambda>r.
          case r of
            Inl e \<Rightarrow> if e = RedisNil then failE ErrCallNotFound else failE e
          | Inr mt \<Rightarrow> if cm_AgentID mt \<noteq> ustr U agentID then failE ErrCallForbidden
                      else retE (callUUID, Some mt)))"

definition Hangup :: "'r Manual \<Rightarrow> uuid \<Rightarrow> string \<Rightarrow> ('r edge, unit) run" where
  "Hangup m agentID callUUID =
     (let R = m_RDB m; U = m_uuid m in
      bindE (on_redis (find_call R U agentID callUUID)) (\<lambda>(call, meta).
      bindE (esl_api (m_ESL m) (''uuid_kill '' @ call)) (\<lambda>body.
      if \<not> isESLOK body \<and> \<not> str_contains (to_lower body) ''no such''
      then failE (ErrMsg (''uuid_kill: '' @ trim_space body))
      else
        bindE (on_redis (cleanupCall R U agentID call meta)) (\<lambda>_.
        bindE (case m_Pres m of
                 None \<Rightarrow> retE ()
               | Some ttl \<Rightarrow> ignoreE (on_redis (ReleaseOnCall R U ttl agentID))) (\<lambda>_.
        bindE (ignoreE (on_redis (publishEvent R (hangup_event U agentID call meta)))) (\<lambda>_. retE ()))))))"

section \<open>Lemmas\<close>

lemma IsE164_chars: "IsE164 s \<Longrightarrow> c \<in> set s \<Longrightarrow> c = CHR ''+'' \<or> is_digit c"
  by (auto simp: IsE164_def list_all_iff split: list.splits)

lemma escape_id:
  assumes "\<And>c. c \<in> set s \<Longrightarrow> c \<notin> {CHR 0x5C, CHR '','', CHR 0x27, CHR ''{'', CHR ''}''}"
  shows "EscapeDialString s = s"
  unfolding EscapeDialString_def by (rule replace_bytes_id) (use assms in fastforce)

lemma escape_E164: "IsE164 s \<Longrightarrow> EscapeDialString s = s"
  by (rule escape_id) (auto dest!: IsE164_chars simp: is_digit_def)

context uuid_library begin

lemma escape_uuid: "EscapeDialString (ustr U u) = ustr U u" "EscapeDialString (''agent-'' @ ustr U u) = ''agent-'' @ ustr U u"
  by (rule escape_id; auto dest!: ustr_chars simp: uuid_char_def is_digit_def)+

end

text \<open>The keys of the call-rate windows are not those of the calls.\<close>

definition same_but_cps :: "keyspace \<Rightarrow> keyspace \<Rightarrow> bool" where
  "same_but_cps v v' \<longleftrightarrow> (\<forall>j. \<not> prefix ''cps:'' j \<longrightarrow> v' j = v j)"

lemma same_but_cps_refl [simp]: "same_but_cps v v"
  by (simp add: same_but_cps_def)

lemma same_but_cps_trans: "same_but_cps v v1 \<Longrightarrow> same_but_cps v1 v2 \<Longrightarrow> same_but_cps v v2"
  by (simp add: same_but_cps_def)

lemma call_keys [simp]:
  "\<not> prefix ''cps:'' (ChannelKey U c)" "\<not> prefix ''cps:'' (agentCallKey U a)" "\<not> prefix ''cps:'' (callMetaKey k)"
  "ChannelKey U c \<noteq> agentCallKey U a" "ChannelKey U c \<noteq> callMetaKey k" "agentCallKey U a \<noteq> callMetaKey k"
  "agentCallKey U a \<noteq> ChannelKey U c" "callMetaKey k \<noteq> ChannelKey U c" "callMetaKey k \<noteq> agentCallKey U a"
  "Key U a \<noteq> ChannelKey U c" "Key U a \<noteq> callMetaKey k" "Key U a \<noteq> agentCallKey U b"
  "ChannelKey U c \<noteq> Key U a" "callMetaKey k \<noteq> Key U a" "agentCallKey U b \<noteq> Key U a"
  by (simp_all add: ChannelKey_def agentCallKey_def callMetaKey_def Key_def)

text \<open>What a call that is up has left in Redis.\<close>

definition with_call :: "uuid_lib \<Rightarrow> OutboundRequest \<Rightarrow> uuid \<Rightarrow> string \<Rightarrow> int \<Rightarrow> time \<Rightarrow> keyspace \<Rightarrow> keyspace" where
  "with_call U req cid callUUID n now v =
     v(ChannelKey U cid \<mapsto> int_str n, callMetaKey callUUID \<mapsto> marshal_meta (call_meta U req cid now),
       agentCallKey U (or_AgentID req) \<mapsto> callUUID)"

text \<open>What one call of \<open>Originate\<close> makes of the keys that are not call rates.\<close>

definition placed ::
  "uuid_lib \<Rightarrow> OutboundRequest \<Rightarrow> Carrier list \<Rightarrow> goerr + OutboundResult \<Rightarrow> keyspace \<Rightarrow> keyspace \<Rightarrow> bool" where
  "placed U req cs r v v' \<longleftrightarrow>
     isl r \<and> same_but_cps v v' \<or>
     (\<exists>c \<in> set cs. \<exists>n. c_Enabled c \<and> counter_of (v (ChannelKey U (c_ID c))) = Some n \<and> n < c_MaxChannels c \<and> in_int64 (n + 1) \<and>
       (case r of
          Inl e \<Rightarrow> same_but_cps (v(ChannelKey U (c_ID c) \<mapsto> int_str (n + 1))) v'
        | Inr res \<Rightarrow> ores_CarrierID res = c_ID c \<and> ores_To res = or_To req \<and>
            (\<exists>now. same_but_cps (with_call U req (c_ID c) (ores_CallUUID res) (n + 1) now v) v')))"

lemma placed_Cons: "placed U req cs r v v' \<Longrightarrow> placed U req (c # cs) r v v'"
  by (auto simp: placed_def)

lemma placed_cps:
  assumes "same_but_cps v v1" and "placed U req cs r v1 v'"
  shows "placed U req cs r v v'"
proof -
  have k: "v1 (ChannelKey U i) = v (ChannelKey U i)" for i
    using assms(1) by (simp add: same_but_cps_def)
  have u: "same_but_cps (v1(a \<mapsto> x)) v' \<Longrightarrow> same_but_cps (v(a \<mapsto> x)) v'"
    and t: "same_but_cps (with_call U req i j n now v1) v' \<Longrightarrow> same_but_cps (with_call U req i j n now v) v'" for a x i j n now
    using assms(1) by (auto simp: same_but_cps_def with_call_def)
  show ?thesis
    using assms same_but_cps_trans [of v v1 v'] u t unfolding placed_def k
    by (cases r) (auto, blast+)
qed

lemma placed_refl: "isl r \<Longrightarrow> placed U req cs r v v"
  by (simp add: placed_def)

lemma map_sum_id_Inr [simp]: "map_sum f id r = Inr x \<longleftrightarrow> r = Inr x"
  by (cases r) auto

text \<open>One turn of the loop over the carriers.\<close>

lemma try_carriers_turn:
  assumes "try_carriers m req now au le tr (c # cs) w = (r, w')" and en: "c_Enabled c"
  obtains (no_slots) e where "on_redis (channelAvailable (m_RDB m) (m_uuid m) c) w = (Inl e, w')" "r = Inl e"
  | (full) w1 where "on_redis (channelAvailable (m_RDB m) (m_uuid m) c) w = (Inr False, w1)"
      "try_carriers m req now au le (Suc tr) cs w1 = (r, w')"
  | (no_rate) e w1 where "on_redis (channelAvailable (m_RDB m) (m_uuid m) c) w = (Inr True, w1)"
      "on_redis (AllowCarrier (m_RDB m) (ustr (m_uuid m) (c_ID c)) (c_MaxCPS c) now) w1 = (Inl e, w')" "r = Inl e"
  | (slow) w1 w2 where "on_redis (channelAvailable (m_RDB m) (m_uuid m) c) w = (Inr True, w1)"
      "on_redis (AllowCarrier (m_RDB m) (ustr (m_uuid m) (c_ID c)) (c_MaxCPS c) now) w1 = (Inr False, w2)"
      "try_carriers m req now au le (Suc tr) cs w2 = (r, w')"
  | (dial) w1 w2 k where "on_redis (channelAvailable (m_RDB m) (m_uuid m) c) w = (Inr True, w1)"
      "on_redis (AllowCarrier (m_RDB m) (ustr (m_uuid m) (c_ID c)) (c_MaxCPS c) now) w1 = (Inr True, w2)"
      "k = ustr (m_uuid m) (eg_rand w2 (eg_drawn w2))"
      "(case BuildOriginate au (GatewayName (m_uuid m) (c_ID c)) (or_To req) (or_CallerID req) k of
          Inl e \<Rightarrow> r = Inl e \<and> w' = w2\<lparr>eg_drawn := Suc (eg_drawn w2)\<rparr>
        | Inr cmd \<Rightarrow>
            let w3 = w2\<lparr>eg_drawn := Suc (eg_drawn w2), eg_cmds := eg_cmds w2 @ [cmd]\<rparr>
            in (\<exists>b. m_ESL m (eg_cmds w2) cmd = Inr b \<and> isESLOK b \<and> connected m req (c_ID c) k w3 = (r, w')) \<or>
               (\<exists>le'. try_carriers m req now au le' (Suc tr) cs w3 = (r, w')))"
proof -
  obtain q1 w1 where q1: "on_redis (channelAvailable (m_RDB m) (m_uuid m) c) w = (q1, w1)" by fastforce
  obtain q2 w2 where q2: "on_redis (AllowCarrier (m_RDB m) (ustr (m_uuid m) (c_ID c)) (c_MaxCPS c) now) w1 = (q2, w2)" by fastforce
  note run = assms(1) [unfolded try_carriers.simps(2)]
  consider e where "q1 = Inl e" | "q1 = Inr False" | "q1 = Inr True" by (cases q1) auto
  then show thesis
  proof cases
    case 1
    then show ?thesis using run en q1 no_slots by (simp add: bindE_def Let_def)
  next
    case 2
    then show ?thesis using run en q1 full by (simp add: bindE_def Let_def)
  next
    case True: 3
    consider e where "q2 = Inl e" | "q2 = Inr False" | "q2 = Inr True" by (cases q2) auto
    then show ?thesis
    proof cases
      case 1
      then show ?thesis using run en q1 q2 True no_rate by (simp add: bindE_def Let_def)
    next
      case 2
      then show ?thesis using run en q1 q2 True slow by (simp add: bindE_def Let_def)
    next
      case 3
      show ?thesis
        by (rule dial [OF q1 [unfolded True] q2 [unfolded 3] refl])
           (use run en q1 q2 True 3 in \<open>auto simp: bindE_def tryE_def new_uuid_def esl_api_def Let_def
              split: sum.splits if_splits\<close>)
    qed
  qed
qed

text \<open>The channel counters of the carriers in \<open>S\<close> are at most their limits.\<close>

definition channels_within :: "uuid_lib \<Rightarrow> Carrier set \<Rightarrow> keyspace \<Rightarrow> bool" where
  "channels_within U S v \<longleftrightarrow>
     (\<forall>c \<in> S. \<exists>n. counter_of (v (ChannelKey U (c_ID c))) = Some n \<and> n \<le> max 0 (c_MaxChannels c))"

lemma counter_of_int_str [simp]: "in_int64 n \<Longrightarrow> counter_of (Some (int_str n)) = Some n"
  by (simp add: counter_of_def parse_int_int_str)

lemma counter_of_0 [simp]: "counter_of (Some ''0'') = Some 0"
  by (simp add: counter_of_def parse_int_def parse_nat_def is_digit_def digits_val_def digit_val_def in_int64_def)

lemma placed_slot:
  assumes "placed U req cs r v v'" and "\<not> (isl r \<and> same_but_cps v v')"
  shows "\<exists>c \<in> set cs. \<exists>n. n < c_MaxChannels c \<and> in_int64 (n + 1) \<and>
    (\<forall>i. v' (ChannelKey U i) = (v(ChannelKey U (c_ID c) \<mapsto> int_str (n + 1))) (ChannelKey U i))"
proof -
  obtain c n where c: "c \<in> set cs" "n < c_MaxChannels c" "in_int64 (n + 1)"
    and v': "case r of
          Inl e \<Rightarrow> same_but_cps (v(ChannelKey U (c_ID c) \<mapsto> int_str (n + 1))) v'
        | Inr res \<Rightarrow> ores_CarrierID res = c_ID c \<and> ores_To res = or_To req \<and>
            (\<exists>now. same_but_cps (with_call U req (c_ID c) (ores_CallUUID res) (n + 1) now v) v')"
    using assms unfolding placed_def by blast
  then have "\<forall>i. v' (ChannelKey U i) = (v(ChannelKey U (c_ID c) \<mapsto> int_str (n + 1))) (ChannelKey U i)"
    by (cases r) (auto simp: same_but_cps_def with_call_def)
  then show ?thesis using c by blast
qed

lemma channels_within_placed:
  assumes "uuid_library U" and "inj_on c_ID S" and "channels_within U S v" and "placed U req cs r v v'" and "set cs = S"
  shows "channels_within U S v'"
proof -
  have inj: "ChannelKey U i = ChannelKey U j \<longleftrightarrow> i = j" for i j
    using uuid_library.ustr_inject [OF assms(1)] by (simp add: ChannelKey_def)
  show ?thesis
  proof (cases "isl r \<and> same_but_cps v v'")
    case True
    then show ?thesis using assms(3) by (simp add: channels_within_def same_but_cps_def)
  next
    case False
    then obtain c n where c: "c \<in> S" "n < c_MaxChannels c" "in_int64 (n + 1)"
      and v': "v' (ChannelKey U i) = (v(ChannelKey U (c_ID c) \<mapsto> int_str (n + 1))) (ChannelKey U i)" for i
      using placed_slot [OF assms(4) False] assms(5) by blast
    show ?thesis
      unfolding channels_within_def
    proof
      fix d
      assume d: "d \<in> S"
      show "\<exists>n. counter_of (v' (ChannelKey U (c_ID d))) = Some n \<and> n \<le> max 0 (c_MaxChannels d)"
      proof (cases "d = c")
        case True
        then show ?thesis using c v' by simp
      next
        case False
        then have "c_ID d \<noteq> c_ID c" using assms(2) c d by (auto dest: inj_onD)
        then show ?thesis using assms(3) d v' by (simp add: channels_within_def inj)
      qed
    qed
  qed
qed

context redis_service begin

lemma channelCount_run:
  assumes "channelCount R U i s = (r, s')"
  shows "view s' = view s \<and> (\<forall>n. r = Inr n \<longrightarrow> counter_of (view s (ChannelKey U i)) = Some n)"
  using assms unfolding channelCount_def
  by (auto simp: bindE_def counter_of_def split: prod.splits sum.splits option.splits dest!: redis_laws)

lemma channelAvailable_run:
  assumes "channelAvailable R U c s = (r, s')"
  shows "view s' = view s \<and>
    (r = Inr True \<longrightarrow> (\<exists>n. counter_of (view s (ChannelKey U (c_ID c))) = Some n \<and> n < c_MaxChannels c))"
  using assms unfolding channelAvailable_def
  by (auto simp: bindE_iff split: if_splits dest!: channelCount_run)

lemma Allow_cps:
  assumes "Allow R key cap now s = (r, s')" and "prefix ''cps:'' key"
  shows "same_but_cps (view s) (view s')"
proof -
  have p: "prefix ''cps:'' (windowKey key now)"
    using assms(2) unfolding windowKey_def by (rule prefix_prefix)
  show ?thesis
    unfolding same_but_cps_def
  proof (intro allI impI)
    fix j :: string
    assume "\<not> prefix ''cps:'' j"
    then have "j \<noteq> windowKey key now" using p by metis
    then show "view s' j = view s j" by (rule Allow_frame [OF assms(1)])
  qed
qed

lemma AllowCarrier_cps: "AllowCarrier R i cap now s = (r, s') \<Longrightarrow> same_but_cps (view s) (view s')"
  by (auto simp: AllowCarrier_def CarrierKey_def intro: Allow_cps)

lemma AllowGlobal_cps: "AllowGlobal R cap now s = (r, s') \<Longrightarrow> same_but_cps (view s) (view s')"
  by (auto simp: AllowGlobal_def globalKey_def intro: Allow_cps)

lemma trackCall_ok:
  assumes "trackCall m req cid k w = (Inr u, w')" and "m_RDB m = R"
  shows "\<exists>n. counter_of (view (eg_redis w) (ChannelKey (m_uuid m) cid)) = Some n \<and> in_int64 (n + 1) \<and>
    view (eg_redis w') = with_call (m_uuid m) req cid k (n + 1) (eg_clock w (eg_ticks w)) (view (eg_redis w)) \<and>
    eg_cmds w' = eg_cmds w \<and> eg_db w' = eg_db w"
proof -
  obtain n s1 where n: "rIncr R (ChannelKey (m_uuid m) cid) (eg_redis w) = (Inr n, s1)"
    and s1: "rMultiSet R [(callMetaKey k, marshal_meta (call_meta (m_uuid m) req cid (eg_clock w (eg_ticks w))), day_seconds),
      (agentCallKey (m_uuid m) (or_AgentID req), k, day_seconds)] s1 = (Inr u, eg_redis w')"
    and w': "eg_cmds w' = eg_cmds w" "eg_db w' = eg_db w"
    using assms unfolding trackCall_def by (auto simp: bindE_iff edge_iffs Let_def)
  show ?thesis
    using incr_ok [OF n] multi_ok [OF s1] w' by (intro exI [of _ "n - 1"]) (simp add: with_call_def)
qed

lemma trackCall_err:
  assumes "trackCall m req cid k w = (Inl e, w')" and "m_RDB m = R"
  shows "(view (eg_redis w') = view (eg_redis w) \<or>
    (\<exists>n. counter_of (view (eg_redis w) (ChannelKey (m_uuid m) cid)) = Some n \<and> in_int64 (n + 1) \<and>
       view (eg_redis w') = (view (eg_redis w))(ChannelKey (m_uuid m) cid \<mapsto> int_str (n + 1)))) \<and>
    eg_db w' = eg_db w"
proof -
  let ?k = "ChannelKey (m_uuid m) cid"
  consider s1 where "rIncr R ?k (eg_redis w) = (Inl e, s1)" "eg_redis w' = s1" "eg_db w' = eg_db w"
    | n s1 xs where "rIncr R ?k (eg_redis w) = (Inr n, s1)" "rMultiSet R xs s1 = (Inl e, eg_redis w')" "eg_db w' = eg_db w"
    using assms unfolding trackCall_def by (auto simp: bindE_iff edge_iffs Let_def)
  then show ?thesis
  proof cases
    case 1
    then show ?thesis using incr_err by simp
  next
    case (2 n)
    then show ?thesis
      using incr_ok [OF 2(1)] multi_err [OF 2(2)] by (intro conjI disjI2 exI [of _ "n - 1"]) simp_all
  qed
qed

lemma connected_ok:
  assumes "connected m req cid k w = (Inr res, w')" and "m_RDB m = R"
  shows "res = \<lparr>ores_CallUUID = k, ores_CarrierID = cid, ores_To = or_To req\<rparr> \<and> eg_cmds w' = eg_cmds w \<and> eg_db w' = eg_db w \<and>
    (\<exists>n now. counter_of (view (eg_redis w) (ChannelKey (m_uuid m) cid)) = Some n \<and> in_int64 (n + 1) \<and>
       view (eg_redis w') = with_call (m_uuid m) req cid k (n + 1) now (view (eg_redis w)))"
proof -
  obtain w1 q s where t: "trackCall m req cid k w = (Inr (), w1)"
    and p: "rPublish R callEventsChannel (json_object (answered_event (m_uuid m) req cid k)) (eg_redis w1) = (q, s)"
    and w': "w' = w1\<lparr>eg_redis := s\<rparr>" "res = \<lparr>ores_CallUUID = k, ores_CarrierID = cid, ores_To = or_To req\<rparr>"
    using assms unfolding connected_def
    by (auto simp: tryE_iff bindE_iff edge_iffs publishEvent_def)
  show ?thesis using trackCall_ok [OF t assms(2)] publish_view [OF p] w' by auto
qed

lemma connected_err:
  assumes "connected m req cid k w = (Inl e, w')" and "m_RDB m = R"
  shows "(view (eg_redis w') = view (eg_redis w) \<or>
    (\<exists>n. counter_of (view (eg_redis w) (ChannelKey (m_uuid m) cid)) = Some n \<and> in_int64 (n + 1) \<and>
       view (eg_redis w') = (view (eg_redis w))(ChannelKey (m_uuid m) cid \<mapsto> int_str (n + 1)))) \<and>
    eg_db w' = eg_db w"
proof -
  obtain w1 where t: "trackCall m req cid k w = (Inl e, w1)"
    and w': "eg_redis w' = eg_redis w1" "eg_db w' = eg_db w1"
    using assms unfolding connected_def by (auto simp: tryE_iff bindE_iff edge_iffs)
  show ?thesis using trackCall_err [OF t assms(2)] unfolding w' .
qed

lemma connected_placed:
  assumes "connected m req (c_ID c) k w = (r, w')" and "m_RDB m = R" and "c_Enabled c"
    and "counter_of (view (eg_redis w) (ChannelKey (m_uuid m) (c_ID c))) = Some n" and "n < c_MaxChannels c"
  shows "placed (m_uuid m) req (c # cs) r (view (eg_redis w)) (view (eg_redis w')) \<and> eg_db w' = eg_db w"
proof (cases r)
  case (Inl e)
  then show ?thesis
    using connected_err [OF _ assms(2), of req "c_ID c" k w e w'] assms by (auto simp: placed_def)
next
  case (Inr res)
  then show ?thesis
    using connected_ok [OF assms(1) [unfolded Inr] assms(2)] assms(3-5)
    by (auto simp: placed_def) (metis same_but_cps_refl)
qed

lemma try_carriers_placed:
  assumes "try_carriers m req now au le tr cs w = (r, w')" and "m_RDB m = R"
  shows "placed (m_uuid m) req cs r (view (eg_redis w)) (view (eg_redis w')) \<and> eg_db w' = eg_db w"
  using assms(1)
proof (induction cs arbitrary: le tr w)
  case Nil
  then have "isl r \<and> w' = w" by (auto split: if_splits option.splits)
  then show ?case by (auto intro: placed_refl)
next
  case (Cons c cs)
  have rest: ?case if "try_carriers m req now au le' tr' cs w1 = (r, w')" "same_but_cps (view (eg_redis w)) (view (eg_redis w1))"
    "eg_db w1 = eg_db w" for le' tr' w1
    using Cons.IH [OF that(1)] that(2, 3) placed_cps placed_Cons by metis
  have fail: ?case if "isl r" "same_but_cps (view (eg_redis w)) (view (eg_redis w'))" "eg_db w' = eg_db w"
    using that by (simp add: placed_def)
  have slots: "view (eg_redis w1) = view (eg_redis w) \<and> eg_db w1 = eg_db w \<and>
      (q = Inr True \<longrightarrow> (\<exists>n. counter_of (view (eg_redis w) (ChannelKey (m_uuid m) (c_ID c))) = Some n \<and> n < c_MaxChannels c))"
    if "on_redis (channelAvailable (m_RDB m) (m_uuid m) c) w = (q, w1)" for q w1
    using that unfolding assms(2) by (auto simp: on_redis_iff dest: channelAvailable_run)
  have rate: "same_but_cps (view (eg_redis w1)) (view (eg_redis w2)) \<and> eg_db w2 = eg_db w1"
    if "on_redis (AllowCarrier (m_RDB m) (ustr (m_uuid m) (c_ID c)) (c_MaxCPS c) now) w1 = (q, w2)" for q w1 w2
    using that unfolding assms(2) by (auto simp: on_redis_iff dest: AllowCarrier_cps)
  show ?case
  proof (cases "c_Enabled c")
    case False
    then show ?thesis using Cons.prems by (intro rest [of le tr w]) simp_all
  next
    case en: True
    from Cons.prems en show ?thesis
    proof (cases rule: try_carriers_turn)
      case (no_slots e)
      then show ?thesis using slots [OF no_slots(1)] by (intro fail) auto
    next
      case (full w1)
      then show ?thesis using slots [OF full(1)] by (intro rest [OF full(2)]) auto
    next
      case (no_rate e w1)
      then show ?thesis using slots [OF no_rate(1)] rate [OF no_rate(2)] by (intro fail) auto
    next
      case (slow w1 w2)
      then show ?thesis using slots [OF slow(1)] rate [OF slow(2)] by (intro rest [OF slow(3)]) auto
    next
      case (dial w1 w2 k)
      note v = slots [OF dial(1)] rate [OF dial(2)]
      show ?thesis
      proof (cases "BuildOriginate au (GatewayName (m_uuid m) (c_ID c)) (or_To req) (or_CallerID req) k")
        case (Inl e)
        then show ?thesis using dial(4) v by (intro fail) auto
      next
        case (Inr cmd)
        let ?w3 = "w2\<lparr>eg_drawn := Suc (eg_drawn w2), eg_cmds := eg_cmds w2 @ [cmd]\<rparr>"
        from dial(4) Inr consider "connected m req (c_ID c) k ?w3 = (r, w')"
          | le' where "try_carriers m req now au le' (Suc tr) cs ?w3 = (r, w')"
          by (auto simp: Let_def)
        then show ?thesis
        proof cases
          case 1
          obtain n where "counter_of (view (eg_redis ?w3) (ChannelKey (m_uuid m) (c_ID c))) = Some n" "n < c_MaxChannels c"
            using v by (auto simp: same_but_cps_def)
          from connected_placed [OF 1 assms(2) en this, of cs] v show ?thesis
            by (auto intro: placed_cps)
        next
          case 2
          then show ?thesis using v by (intro rest [OF 2]) auto
        qed
      qed
    qed
  qed
qed

lemma Originate_placed:
  assumes "Originate m req w = (r, w')" and "m_RDB m = R" and "m_Carriers m = ListOrdered"
  shows "placed (m_uuid m) req (carriers (tabs (eg_db w))) r (view (eg_redis w)) (view (eg_redis w')) \<and>
    tabs (eg_db w') = tabs (eg_db w)"
proof (cases "\<exists>e. r = Inl e \<and> w' = w")
  case True
  then show ?thesis by (auto intro: placed_refl)
next
  case False
  let ?w1 = "w\<lparr>eg_ticks := Suc (eg_ticks w)\<rparr>" and ?now = "eg_clock w (eg_ticks w)"
  let ?global = "if m_GlobalMaxCPS m > 0 then on_redis (AllowGlobal (m_RDB m) (m_GlobalMaxCPS m) ?now) else retE True"
  obtain q w2 where q: "?global ?w1 = (q, w2)" by fastforce
  then have v2: "same_but_cps (view (eg_redis w)) (view (eg_redis w2)) \<and> eg_db w2 = eg_db w"
    unfolding assms(2) by (auto simp: on_redis_iff dest: AllowGlobal_cps split: if_splits)
  obtain q3 w3 where q3: "ListOrdered w2 = (q3, w3)" by fastforce
  then have v3: "eg_redis w3 = eg_redis w2" "tabs (eg_db w3) = tabs (eg_db w2)"
    and cs: "q3 = Inr cs \<Longrightarrow> set cs = set (carriers (tabs (eg_db w)))" for cs
    using v2 by (auto simp: ListOrdered_def edge_db_iff dest: db_select_tabs dest!: db_select_ok)
  have run: "bindE ?global (\<lambda>ok. if \<not> ok then failE ErrCarrierCapacity
      else bindE ListOrdered (\<lambda>carriers. try_carriers m req ?now (''agent-'' @ ustr (m_uuid m) (or_AgentID req)) None 0 carriers)) ?w1 = (r, w')"
    using assms(1) False unfolding Originate_def assms(3)
    by (auto simp: bindE_iff clock_now_iff split: if_splits)
  consider "isl r" "w' = w2 \<or> w' = w3"
    | cs where "q3 = Inr cs" "try_carriers m req ?now (''agent-'' @ ustr (m_uuid m) (or_AgentID req)) None 0 cs w3 = (r, w')"
    using run q q3 unfolding bindE_def by (auto split: sum.splits if_splits)
  then show ?thesis
  proof cases
    case 1
    then show ?thesis using v2 v3 by (auto simp: placed_def)
  next
    case (2 cs)
    have "placed (m_uuid m) req cs r (view (eg_redis w)) (view (eg_redis w'))"
      using try_carriers_placed [OF 2(2) assms(2)] v2 v3 placed_cps by metis
    then show ?thesis
      using try_carriers_placed [OF 2(2) assms(2)] cs [OF 2(1)] v2 v3 by (simp add: placed_def)
  qed
qed

text \<open>Hanging up.\<close>

lemma find_call_view: "find_call R U a k s = (r, s') \<Longrightarrow> view s' = view s"
  unfolding find_call_def loadMeta_def
  by (auto simp: bindE_def tryE_def split: prod.splits sum.splits option.splits if_splits dest!: redis_laws)

lemma release_channel_view:
  assumes "release_channel R U meta s = (r, s')"
  shows "view s' = view s \<or>
    (\<exists>mt cid n. meta = Some mt \<and> uparse U (cm_CarrierID mt) = Some cid \<and>
       counter_of (view s (ChannelKey U cid)) = Some n \<and> in_int64 (n - 1) \<and>
       (view s' = (view s)(ChannelKey U cid \<mapsto> int_str (n - 1)) \<or>
        n \<le> 0 \<and> view s' = (view s)(ChannelKey U cid \<mapsto> ''0'')))"
proof (cases "Option.bind meta (\<lambda>mt. uparse U (cm_CarrierID mt))")
  case None
  then show ?thesis using assms by (simp add: release_channel_def)
next
  case (Some cid)
  then obtain mt where mt: "meta = Some mt" "uparse U (cm_CarrierID mt) = Some cid"
    by (auto simp: bind_eq_Some_conv)
  obtain q s1 where d: "rDecr R (ChannelKey U cid) s = (q, s1)" by fastforce
  show ?thesis
  proof (cases q)
    case (Inl e)
    then show ?thesis using assms d Some by (auto simp: release_channel_def bindE_def dest: decr_err)
  next
    case (Inr n)
    note dec = decr_ok [OF d [unfolded Inr]]
    have "view s' = view s1 \<or> n < 0 \<and> view s' = (view s1)(ChannelKey U cid \<mapsto> ''0'')"
      using assms d Some Inr
      by (auto simp: release_channel_def bindE_def ignoreE_def tryE_def split: if_splits prod.splits)
         (metis set_err set_ok sum.exhaust)
    then show ?thesis
      using dec mt by (intro disjI2 exI [of _ mt] exI [of _ cid] exI [of _ "n + 1"]) auto
  qed
qed

lemma forget_call_view:
  assumes "forget_call R U a k s = (r, s')"
  shows "\<forall>j. j \<noteq> callMetaKey k \<and> j \<noteq> agentCallKey U a \<longrightarrow> view s' j = view s j"
proof -
  have del: "view s2 j = view s1 j" if "rDel R i s1 = (q, s2)" "j \<noteq> i" for i j q s1 s2
    using that by (cases q) (auto dest: del_ok del_err)
  have get: "view s2 = view s1" if "rGet R i s1 = (q, s2)" for i q s1 s2
    using that by (cases q) (auto dest: get_ok get_err)
  show ?thesis
    using assms unfolding forget_call_def
    by (auto simp: bindE_def ignoreE_def tryE_def split: if_splits prod.splits dest!: del get)
qed

lemma within_same:
  "(\<And>i. view s' (ChannelKey U i) = view s (ChannelKey U i)) \<Longrightarrow> channels_within U S (view s) \<Longrightarrow> channels_within U S (view s')"
  by (simp add: channels_within_def)

lemma within_keeps:
  assumes "\<And>s r s'. m s = (r, s') \<Longrightarrow> \<forall>i. view s' (ChannelKey U i) = view s (ChannelKey U i)"
  shows "keeps (\<lambda>s. channels_within U S (view s)) m"
proof (rule keepsI)
  fix s
  assume "channels_within U S (view s)"
  then show "channels_within U S (view (snd (m s)))"
    by (rule within_same [rotated]) (simp add: assms [OF surjective_pairing])
qed

lemma release_channel_within: "keeps (\<lambda>s. channels_within U S (view s)) (release_channel R U meta)"
proof (rule keepsI)
  fix s
  assume w: "channels_within U S (view s)"
  obtain q s' where q: "release_channel R U meta s = (q, s')" by fastforce
  have "channels_within U S (view s')"
    unfolding channels_within_def
  proof
    fix c
    assume "c \<in> S"
    then obtain n where n: "counter_of (view s (ChannelKey U (c_ID c))) = Some n" "n \<le> max 0 (c_MaxChannels c)"
      using w by (auto simp: channels_within_def)
    then show "\<exists>n. counter_of (view s' (ChannelKey U (c_ID c))) = Some n \<and> n \<le> max 0 (c_MaxChannels c)"
      using release_channel_view [OF q] by (auto simp: fun_upd_apply)
  qed
  then show "channels_within U S (view (snd (release_channel R U meta s)))" using q by simp
qed

lemma forget_call_within: "keeps (\<lambda>s. channels_within U S (view s)) (forget_call R U a k)"
  by (rule within_keeps) (simp add: forget_call_view)

lemma ReleaseOnCall_within: "keeps (\<lambda>s. channels_within U S (view s)) (ReleaseOnCall R U ttl a)"
  by (rule within_keeps) (auto dest!: ReleaseOnCall_view split: option.splits)

lemma publishEvent_within: "keeps (\<lambda>s. channels_within U S (view s)) (publishEvent R p)"
  by (rule within_keeps) (auto simp: publishEvent_def dest!: publish_view)

lemma find_call_within: "keeps (\<lambda>s. channels_within U S (view s)) (find_call R U a k)"
  by (rule within_keeps) (auto dest!: find_call_view)

lemmas within_intros = release_channel_within forget_call_within ReleaseOnCall_within publishEvent_within find_call_within

end

text \<open>A property of the Redis server and the tables that a computation on the world keeps.\<close>

lemma keeps_on_redis: "keeps P m \<Longrightarrow> keeps (\<lambda>w. P (eg_redis w) \<and> tabs (eg_db w) = T) (on_redis m)"
  by (auto simp: keeps_def on_redis_def split: prod.splits)

lemma keeps_esl_api: "keeps (\<lambda>w. P (eg_redis w) \<and> tabs (eg_db w) = T) (esl_api E cmd)"
  by (simp add: keeps_def esl_api_def)

lemma keeps_ignoreE: "keeps P m \<Longrightarrow> keeps P (ignoreE m)"
  unfolding ignoreE_def by (rule keeps_tryE) simp_all

lemma Hangup_within:
  assumes "redis_service (m_RDB m) view"
  shows "keeps (\<lambda>w. channels_within (m_uuid m) S (view (eg_redis w)) \<and> tabs (eg_db w) = T) (Hangup m a k)"
  unfolding Hangup_def cleanupCall_def Let_def case_prod_beta
  by (intro keeps_intros keeps_on_redis keeps_esl_api keeps_ignoreE redis_service.within_intros [OF assms] allI)

section \<open>Sequences of calls\<close>

datatype dial_op = Call OutboundRequest | Hang uuid string

fun dial_step :: "'r Manual \<Rightarrow> dial_op \<Rightarrow> 'r edge \<Rightarrow> 'r edge" where
  "dial_step m (Call req) w = snd (Originate m req w)"
| "dial_step m (Hang a k) w = snd (Hangup m a k w)"

lemma dial_step_within:
  assumes "redis_service (m_RDB m) view" and "uuid_library (m_uuid m)" and "m_Carriers m = ListOrdered"
    and "inj_on c_ID (set (carriers (tabs (eg_db w))))"
    and "channels_within (m_uuid m) (set (carriers (tabs (eg_db w)))) (view (eg_redis w))"
  shows "channels_within (m_uuid m) (set (carriers (tabs (eg_db w)))) (view (eg_redis (dial_step m x w))) \<and>
    tabs (eg_db (dial_step m x w)) = tabs (eg_db w)"
proof (cases x)
  case (Call req)
  obtain r w' where r: "Originate m req w = (r, w')" by fastforce
  show ?thesis
    using redis_service.Originate_placed [OF assms(1) r refl assms(3)] channels_within_placed [OF assms(2, 4, 5)] r Call by auto
next
  case (Hang a k)
  then show ?thesis
    using keepsD [OF Hangup_within [OF assms(1), of "set (carriers (tabs (eg_db w)))" "tabs (eg_db w)" a k], of w] assms(5) by simp
qed

lemma dial_ops:
  assumes "redis_service (m_RDB m) view" and "uuid_library (m_uuid m)" and "m_Carriers m = ListOrdered"
  shows "invariant_ops (dial_step m) (\<lambda>w. tabs (eg_db w) = t \<and> inj_on c_ID (set (carriers t)) \<and>
    channels_within (m_uuid m) (set (carriers t)) (view (eg_redis w)))"
  by unfold_locales (use dial_step_within [OF assms] in blast)

lemma dial_steps_within:
  assumes "redis_service (m_RDB m) view" and "uuid_library (m_uuid m)" and "m_Carriers m = ListOrdered"
    and "inj_on c_ID (set (carriers (tabs (eg_db w))))"
    and "channels_within (m_uuid m) (set (carriers (tabs (eg_db w)))) (view (eg_redis w))"
  shows "channels_within (m_uuid m) (set (carriers (tabs (eg_db w)))) (view (eg_redis (fold (dial_step m) ops w)))"
  using invariant_ops.run_inv [OF dial_ops [OF assms(1-3), of "tabs (eg_db w)"], of w ops] assms(4, 5) by simp

section \<open>The command that placed a call\<close>

definition originated :: "'r Manual \<Rightarrow> OutboundRequest \<Rightarrow> string \<Rightarrow> OutboundResult \<Rightarrow> 'r edge \<Rightarrow> bool" where
  "originated m req au res w' \<longleftrightarrow>
     (\<exists>h cmd body. BuildOriginate au (GatewayName (m_uuid m) (ores_CarrierID res)) (or_To req) (or_CallerID req)
          (ores_CallUUID res) = Inr cmd \<and>
        eg_cmds w' = h @ [cmd] \<and> m_ESL m h cmd = Inr body \<and> isESLOK body)"

context redis_service begin

lemma try_carriers_originated:
  assumes "try_carriers m req now au le tr cs w = (Inr res, w')" and "m_RDB m = R"
  shows "originated m req au res w'"
  using assms(1)
proof (induction cs arbitrary: le tr w)
  case Nil
  then show ?case by (auto split: if_splits option.splits)
next
  case (Cons c cs)
  show ?case
  proof (cases "c_Enabled c")
    case False
    then show ?thesis using Cons by simp
  next
    case True
    from Cons.prems True show ?thesis
    proof (cases rule: try_carriers_turn)
      case (dial w1 w2 k)
      obtain cmd where cmd: "BuildOriginate au (GatewayName (m_uuid m) (c_ID c)) (or_To req) (or_CallerID req) k = Inr cmd"
        using dial(4) by (auto split: sum.splits)
      let ?w3 = "w2\<lparr>eg_drawn := Suc (eg_drawn w2), eg_cmds := eg_cmds w2 @ [cmd]\<rparr>"
      from dial(4) cmd consider b where "m_ESL m (eg_cmds w2) cmd = Inr b" "isESLOK b" "connected m req (c_ID c) k ?w3 = (Inr res, w')"
        | le' where "try_carriers m req now au le' (Suc tr) cs ?w3 = (Inr res, w')"
        by (auto simp: Let_def)
      then show ?thesis
      proof cases
        case 1
        then show ?thesis using connected_ok [OF 1(3) assms(2)] cmd by (simp add: originated_def)
      next
        case 2
        then show ?thesis by (rule Cons.IH)
      qed
    qed (use Cons.IH in auto)
  qed
qed

lemma Originate_originated:
  assumes "Originate m req w = (Inr res, w')" and "m_RDB m = R"
  shows "originated m req (''agent-'' @ ustr (m_uuid m) (or_AgentID req)) res w'"
proof -
  obtain now cs w1 where "try_carriers m req now (''agent-'' @ ustr (m_uuid m) (or_AgentID req)) None 0 cs w1 = (Inr res, w')"
    using assms(1) unfolding Originate_def by (auto simp: bindE_iff clock_now_iff split: if_splits)
  then show ?thesis by (rule try_carriers_originated [OF _ assms(2)])
qed

text \<open>Hanging up the agent's own call, when no read or delete fails.\<close>

lemma forget_call_ok:
  assumes "forget_call R U a k s = (r, s')" and "\<forall>i s. \<not> isl (fst (rDel R i s))" and "\<forall>i s. \<not> isl (fst (rGet R i s))"
    and "view s (agentCallKey U a) = Some k"
  shows "view s' = (view s)(callMetaKey k := None, agentCallKey U a := None)"
proof -
  obtain u s1 where d: "rDel R (callMetaKey k) s = (Inr u, s1)"
    using assms(2) by (metis isl_def prod.collapse sum.collapse(2))
  obtain v s2 where g: "rGet R (agentCallKey U a) s1 = (Inr v, s2)"
    using assms(3) by (metis isl_def prod.collapse sum.collapse(2))
  obtain u3 s3 where d3: "rDel R (agentCallKey U a) s2 = (Inr u3, s3)"
    using assms(2) by (metis isl_def prod.collapse sum.collapse(2))
  have v: "v = Some k" using get_ok [OF g] del_ok [OF d] assms(4) by simp
  then have "s' = s3" using assms(1) d g d3 by (simp add: forget_call_def bindE_def ignoreE_def tryE_def)
  then show ?thesis using get_ok [OF g] del_ok [OF d] del_ok [OF d3] by simp
qed

end

lemma unmarshal_marshal_meta: "unmarshal_meta (marshal_meta mt) = Some mt"
proof -
  have "unmarshal meta_fields (marshal_meta mt) = Some (\<lambda>f. case map_of
     ([(''agent_id'', cm_AgentID mt), (''carrier_id'', cm_CarrierID mt), (''to'', cm_To mt)] @
      omitempty ''campaign_id'' (cm_CampaignID mt) @ omitempty ''lead_id'' (cm_LeadID mt) @
      omitempty ''started_at'' (cm_StartedAt mt)) f of Some x \<Rightarrow> x | None \<Rightarrow> [])"
    unfolding marshal_meta_def by (rule unmarshal_object) (auto simp: meta_fields_def omitempty_def)
  then show ?thesis
    by (cases mt) (simp add: unmarshal_meta_def omitempty_def)
qed

context redis_service begin

lemma find_own_call:
  assumes "find_call R U a [] s = (r, s')" and "\<forall>i s. \<not> isl (fst (rGet R i s))"
    and "view s (agentCallKey U a) = Some k" and "view s (callMetaKey k) = Some (marshal_meta mt)"
  shows "r = Inr (k, Some mt) \<and> view s' = view s"
proof -
  obtain v s1 where g: "rGet R (agentCallKey U a) s = (Inr v, s1)"
    using assms(2) by (metis isl_def prod.collapse sum.collapse(2))
  have v: "v = Some k" "view s1 = view s" using get_ok [OF g] assms(3) by simp_all
  obtain v2 s2 where g2: "rGet R (callMetaKey k) s1 = (Inr v2, s2)"
    using assms(2) by (metis isl_def prod.collapse sum.collapse(2))
  have "v2 = Some (marshal_meta mt)" "view s2 = view s" using get_ok [OF g2] assms(4) v by simp_all
  then show ?thesis
    using assms(1) g g2 v by (simp add: find_call_def loadMeta_def bindE_def tryE_def unmarshal_marshal_meta)
qed

lemma Hangup_own_call:
  assumes "Hangup m a [] w = (Inr (), w')" and "m_RDB m = R"
    and "\<forall>i s. \<not> isl (fst (rDel R i s))" and "\<forall>i s. \<not> isl (fst (rGet R i s))"
    and "view (eg_redis w) (agentCallKey (m_uuid m) a) = Some k"
    and "view (eg_redis w) (callMetaKey k) = Some (marshal_meta mt)" and "uparse (m_uuid m) (cm_CarrierID mt) = Some cid"
    and "counter_of (view (eg_redis w) (ChannelKey (m_uuid m) cid)) = Some n" and "0 < n"
  shows "in_int64 (n - 1) \<and> (\<forall>j. j \<noteq> Key (m_uuid m) a \<longrightarrow> view (eg_redis w') j =
    ((view (eg_redis w))(ChannelKey (m_uuid m) cid \<mapsto> int_str (n - 1), callMetaKey k := None, agentCallKey (m_uuid m) a := None)) j)"
proof -
  let ?U = "m_uuid m"
  obtain q s1 where f: "find_call R ?U a [] (eg_redis w) = (q, s1)" by fastforce
  have q: "q = Inr (k, Some mt)" "view s1 = view (eg_redis w)"
    using find_own_call [OF f assms(4-6)] by simp_all
  let ?w1 = "w\<lparr>eg_redis := s1, eg_cmds := eg_cmds w @ [''uuid_kill '' @ k]\<rparr>"
  have "bindE (on_redis (cleanupCall R ?U a k (Some mt))) (\<lambda>_.
      bindE (case m_Pres m of None \<Rightarrow> retE () | Some ttl \<Rightarrow> ignoreE (on_redis (ReleaseOnCall R ?U ttl a))) (\<lambda>_.
      bindE (ignoreE (on_redis (publishEvent R (hangup_event ?U a k (Some mt))))) (\<lambda>_. retE ()))) ?w1 = (Inr (), w')"
    using assms(1) f q(1) unfolding Hangup_def Let_def assms(2)
    by (simp add: bindE_def on_redis_def [of "find_call R ?U a []"] esl_api_def split: sum.splits if_splits)
  then obtain w2 w3 where c: "on_redis (cleanupCall R ?U a k (Some mt)) ?w1 = (Inr (), w2)"
    and p: "(case m_Pres m of None \<Rightarrow> retE () | Some ttl \<Rightarrow> ignoreE (on_redis (ReleaseOnCall R ?U ttl a))) w2 = (Inr (), w3)"
    and e: "ignoreE (on_redis (publishEvent R (hangup_event ?U a k (Some mt)))) w3 = (Inr (), w')"
    by (auto simp: bindE_iff)
  obtain s2 where r: "release_channel R ?U (Some mt) s1 = (Inr (), s2)" and fg: "forget_call R ?U a k s2 = (Inr (), eg_redis w2)"
    using c unfolding cleanupCall_def by (auto simp: on_redis_iff bindE_iff)
  obtain n' s3 where d: "rDecr R (ChannelKey ?U cid) s1 = (Inr n', s3)" and s2: "n' < 0 \<or> s2 = s3"
    using r assms(7) unfolding release_channel_def by (auto simp: bindE_iff split: if_splits)
  have n': "n' = n - 1" "in_int64 n'" "view s3 = (view s1)(ChannelKey ?U cid \<mapsto> int_str n')"
    using decr_ok [OF d] q(2) assms(8) by auto
  then have v2: "view s2 = (view (eg_redis w))(ChannelKey ?U cid \<mapsto> int_str (n - 1))"
    using s2 q(2) assms(9) by auto
  have v3: "view (eg_redis w2) = (view s2)(callMetaKey k := None, agentCallKey ?U a := None)"
    by (rule forget_call_ok [OF fg assms(3, 4)]) (simp add: v2 assms(5))
  have v4: "view (eg_redis w3) j = view (eg_redis w2) j" if "j \<noteq> Key ?U a" for j
    using p that by (auto simp: edge_iffs split: option.splits dest!: ReleaseOnCall_view)
  have "view (eg_redis w') = view (eg_redis w3)"
    using e by (auto simp: edge_iffs publishEvent_def dest: publish_view)
  then show ?thesis using v2 v3 v4 n' by simp
qed

end

lemma digits_set: "is_digit c \<longleftrightarrow> c \<in> set ''0123456789''"
proof
  have range: "n \<in> {48, 49, 50, 51, 52, 53, 54, 55, 56, 57}" if "48 \<le> n" "n \<le> 57" for n :: nat
    using that by (simp only: insert_iff empty_iff) presburger
  assume "is_digit c"
  then have "byte c \<in> {48, 49, 50, 51, 52, 53, 54, 55, 56, 57}"
    using range [of "byte c"] by (simp add: is_digit_def)
  then have "byte c \<in> byte ` set ''0123456789''" by simp
  then show "c \<in> set ''0123456789''" by (metis byte_inject imageE)
qed (auto simp: is_digit_def)

lemma IsE164_digits: "IsE164 s = (\<exists>d ds. s = CHR ''+'' # d # ds \<and> d \<noteq> CHR ''0'' \<and> (\<forall>c \<in> set (d # ds). is_digit c) \<and>
       2 \<le> length (d # ds) \<and> length (d # ds) \<le> 15)"
  by (auto simp: IsE164_def list_all_iff split: list.split)

lemma IsE164_iff: "IsE164 s = (\<exists>d ds. s = CHR ''+'' # d # ds \<and> d \<noteq> CHR ''0'' \<and> set (d # ds) \<subseteq> set ''0123456789'' \<and>
       2 \<le> length (d # ds) \<and> length (d # ds) \<le> 15)"
  unfolding IsE164_digits digits_set subset_eq by (rule refl)

lemma originate_text:
  assumes "uuid_library U"
  shows "BuildOriginate (''agent-'' @ ustr U a) (GatewayName U g) to cid (ustr U k) =
      (if IsE164 to \<and> (cid = [] \<or> IsE164 cid) then
         Inr (''originate {origination_uuid='' @ ustr U k @
              (if cid = [] then [] else '',origination_caller_id_number='' @ cid) @
              ''}user/agent-'' @ ustr U a @ '' &bridge(sofia/gateway/'' @ ustr U g @ ''/'' @ to @ '')'')
       else Inl ErrInvalidE164)"
  using uuid_library.escape_uuid [OF assms] uuid_library.ustr_not_Nil [OF assms] escape_E164 [of to] escape_E164 [of cid]
  by (auto simp: BuildOriginate_def GatewayName_def Let_def)

section \<open>The reference server\<close>

text \<open>What its commands do when no failure is scripted, and a first call on it.\<close>

definition sample_req :: OutboundRequest where
  "sample_req = \<lparr>or_AgentID = 3, or_To = ''+33612345678'', or_CallerID = [], or_CampaignID = None, or_LeadID = None\<rparr>"

definition sample_dialer :: "mem_redis_state redis \<Rightarrow> mem_redis_state Manual" where
  "sample_dialer R =
     \<lparr>m_ESL = (\<lambda>_ _. Inr ''+OK''), m_RDB = R, m_Carriers = ListOrdered, m_Pres = Some 7200,
      m_GlobalMaxCPS = 0, m_uuid = ref_uuid\<rparr>"

definition sample_edge :: "mem_redis_state edge" where
  "sample_edge = edge_init mr_init (db_of (empty_tables\<lparr>carriers := [sample_carrier 7 True]\<rparr>))"

definition calm_redis :: "mem_redis_state redis" where
  "calm_redis = mem_redis\<lparr>rGet := (\<lambda>k s. (Inr (mr_keys s k), s)), rDel := (\<lambda>k s. (Inr (), s\<lparr>mr_keys := (mr_keys s)(k := None)\<rparr>))\<rparr>"

interpretation calm: redis_service calm_redis mr_keys
  by unfold_locales (auto simp: calm_redis_def dest: mem.redis_laws mem.eval_ok mem.eval_err)

lemma mem_redis_ok [simp]:
  assumes "R = mem_redis \<or> R = calm_redis" and "mr_faults s = []"
  shows "rGet R k s = (Inr (mr_keys s k), s)"
    and "rSet R k v t s = (Inr (), s\<lparr>mr_keys := (mr_keys s)(k \<mapsto> v)\<rparr>)"
    and "rDel R k s = (Inr (), s\<lparr>mr_keys := (mr_keys s)(k := None)\<rparr>)"
    and "rExpire R k t s = (Inr (), s)"
    and "rWatch R k s = (Inr (), s)"
    and "rMultiSet R xs s = (Inr (), s\<lparr>mr_keys := set_all xs (mr_keys s)\<rparr>)"
    and "rPublish R c m s = (Inr (), s\<lparr>mr_published := (c, m) # mr_published s\<rparr>)"
    and "rEval R sc s = sc s"
    and "counter_of (mr_keys s k) = Some n \<Longrightarrow> in_int64 (n + 1) \<Longrightarrow>
      rIncr R k s = (Inr (n + 1), s\<lparr>mr_keys := (mr_keys s)(k \<mapsto> int_str (n + 1))\<rparr>)"
    and "counter_of (mr_keys s k) = Some n \<Longrightarrow> in_int64 (n - 1) \<Longrightarrow>
      rDecr R k s = (Inr (n - 1), s\<lparr>mr_keys := (mr_keys s)(k \<mapsto> int_str (n - 1))\<rparr>)"
  using assms by (auto simp: calm_redis_def mem_redis_def mr_step_def mr_count_def)

lemma mem_Allow:
  assumes "R = mem_redis \<or> R = calm_redis" and "mr_faults s = []"
    and "counter_of (mr_keys s (windowKey key now)) = Some n" and "n < cap" and "0 < cap" and "in_int64 (n + 1)"
  shows "Allow R key cap now s = (Inr True, s\<lparr>mr_keys := (mr_keys s)(windowKey key now \<mapsto> int_str (n + 1))\<rparr>)"
  using assms(2-) mem_redis_ok [OF assms(1, 2)] mem_redis_ok(4) [OF assms(1)]
  by (simp add: Allow_def allowScript_def bindE_def)

lemma mem_connected:
  assumes "m_RDB m = mem_redis \<or> m_RDB m = calm_redis" and "mr_faults (eg_redis w) = []"
    and "counter_of (mr_keys (eg_redis w) (ChannelKey (m_uuid m) cid)) = Some n" and "in_int64 (n + 1)"
  shows "\<exists>w'. connected m req cid k w = (Inr \<lparr>ores_CallUUID = k, ores_CarrierID = cid, ores_To = or_To req\<rparr>, w') \<and>
    mr_faults (eg_redis w') = []"
  using assms(2-) mem_redis_ok [OF assms(1)]
  by (simp add: connected_def trackCall_def tryE_def bindE_def on_redis_def clock_now_def ignoreE_def publishEvent_def Let_def)

lemma isESLOK_ok [simp]: "isESLOK ''+OK''"
  by (simp add: isESLOK_def trim_space_id trimmed_plain plain_char_def)

lemma mem_Hangup:
  assumes "m_RDB m = mem_redis \<or> m_RDB m = calm_redis" and "mr_faults (eg_redis w) = []" and "m_ESL m = (\<lambda>_ _. Inr ''+OK'')"
    and "mr_keys (eg_redis w) (agentCallKey (m_uuid m) a) = Some k" and "mr_keys (eg_redis w) (callMetaKey k) = Some (marshal_meta mt)"
    and "uparse (m_uuid m) (cm_CarrierID mt) = Some cid" and "counter_of (mr_keys (eg_redis w) (ChannelKey (m_uuid m) cid)) = Some n"
    and "0 < n" and "in_int64 (n - 1)"
  shows "\<exists>w'. Hangup m a [] w = (Inr (), w')"
  using assms(2-) mem_redis_ok [OF assms(1)]
  by (simp add: Hangup_def find_call_def loadMeta_def cleanupCall_def release_channel_def forget_call_def tryE_def bindE_def
      on_redis_def esl_api_def ignoreE_def Let_def unmarshal_marshal_meta split: prod.split option.split)

lemma small_ints [simp]: "in_int64 0" "in_int64 1" "in_int64 (- 1)" "in_int64 2"
  by (simp_all add: in_int64_def)

lemma counter_of_None [simp]: "counter_of None = Some 0"
  by (simp add: counter_of_def)

lemma sample_sel [simp]:
  "m_ESL (sample_dialer R) = (\<lambda>_ _. Inr ''+OK'')" "m_RDB (sample_dialer R) = R" "m_Carriers (sample_dialer R) = ListOrdered"
  "m_GlobalMaxCPS (sample_dialer R) = 0" "m_uuid (sample_dialer R) = ref_uuid" "or_AgentID sample_req = 3"
  "or_To sample_req = ''+33612345678''" "or_CallerID sample_req = []" "eg_redis sample_edge = mr_init"
  "carriers (tabs (eg_db sample_edge)) = [sample_carrier 7 True]" "db_faults (eg_db sample_edge) = []"
  "mr_faults mr_init = []" "mr_keys mr_init = Map.empty"
  by (simp_all add: sample_dialer_def sample_req_def sample_edge_def db_of_def mr_init_def)

lemma sample_carrier_sel [simp]:
  "c_ID (sample_carrier i b) = i" "c_Enabled (sample_carrier i b) = b" "c_MaxCPS (sample_carrier i b) = 5"
  "c_MaxChannels (sample_carrier i b) = 2"
  by (simp_all add: sample_carrier_def)

lemma sample_originate:
  assumes R: "R = mem_redis \<or> R = calm_redis"
  shows "\<exists>k w'. Originate (sample_dialer R) sample_req sample_edge =
     (Inr \<lparr>ores_CallUUID = k, ores_CarrierID = 7, ores_To = ''+33612345678''\<rparr>, w') \<and> mr_faults (eg_redis w') = []"
proof -
  have e: "IsE164 ''+33612345678''" by (simp add: IsE164_def is_digit_def)
  let ?w1 = "sample_edge\<lparr>eg_ticks := Suc (eg_ticks sample_edge)\<rparr>" and ?now = "eg_clock sample_edge (eg_ticks sample_edge)"
  let ?k = "ustr ref_uuid (eg_rand sample_edge (eg_drawn sample_edge))"
  obtain cmd where b: "BuildOriginate (''agent-'' @ ustr ref_uuid 3) (GatewayName ref_uuid 7) ''+33612345678'' [] ?k = Inr cmd"
    using originate_text [OF ref_uuid.uuid_library_axioms, of 3 7 "''+33612345678''" "[]"] e by simp
  define s2 where "s2 = mr_init\<lparr>mr_keys := [windowKey (CarrierKey (ustr ref_uuid 7)) ?now \<mapsto> int_str 1]\<rparr>"
  let ?w3 = "?w1\<lparr>eg_redis := s2, eg_drawn := Suc (eg_drawn sample_edge), eg_cmds := eg_cmds sample_edge @ [cmd]\<rparr>"
  have a: "AllowCarrier R (ustr ref_uuid 7) 5 ?now mr_init = (Inr True, s2)"
    using mem_Allow [OF R, of mr_init "CarrierKey (ustr ref_uuid 7)" ?now 0 5] by (simp add: AllowCarrier_def s2_def)
  have w: "ChannelKey ref_uuid 7 \<noteq> windowKey (CarrierKey (ustr ref_uuid 7)) ?now"
    by (simp add: ChannelKey_def windowKey_def CarrierKey_def)
  obtain w' where up: "connected (sample_dialer R) sample_req 7 ?k ?w3 =
      (Inr \<lparr>ores_CallUUID = ?k, ores_CarrierID = 7, ores_To = ''+33612345678''\<rparr>, w')" "mr_faults (eg_redis w') = []"
    using mem_connected [of "sample_dialer R" ?w3 7 0 sample_req ?k] w R by (auto simp: s2_def)
  have l: "ListOrdered ?w1 = (Inr [sample_carrier 7 True], ?w1)"
    by (simp add: ListOrdered_def edge_db_def)
  have g: "rGet R k mr_init = (Inr None, mr_init)" for k using mem_redis_ok(1) [OF R] by simp
  have "try_carriers (sample_dialer R) sample_req ?now (''agent-'' @ ustr ref_uuid 3) None 0 [sample_carrier 7 True] ?w1 =
      (Inr \<lparr>ores_CallUUID = ?k, ores_CarrierID = 7, ores_To = ''+33612345678''\<rparr>, w')"
    using up a b g by (simp add: bindE_def tryE_def on_redis_def channelAvailable_def channelCount_def new_uuid_def esl_api_def Let_def)
  then show ?thesis
    using e l up(2) by (simp add: Originate_def bindE_def clock_now_def uuid_Nil_def)
qed

text \<open>A server that fails to store the call, after it has counted its channel.\<close>

definition leaky_edge :: "mem_redis_state edge" where
  "leaky_edge = sample_edge\<lparr>eg_redis := mr_init\<lparr>mr_faults := [None, None, None, None, Some (ErrMsg ''i/o timeout'')]\<rparr>\<rparr>"

lemma mem_step_none [simp]:
  assumes "mr_faults s = None # fs"
  shows "rGet mem_redis k s = (Inr (mr_keys s k), s\<lparr>mr_faults := fs\<rparr>)"
    and "rExpire mem_redis k t s = (Inr (), s\<lparr>mr_faults := fs\<rparr>)"
    and "counter_of (mr_keys s k) = Some n \<Longrightarrow> in_int64 (n + 1) \<Longrightarrow>
      rIncr mem_redis k s = (Inr (n + 1), s\<lparr>mr_faults := fs, mr_keys := (mr_keys s)(k \<mapsto> int_str (n + 1))\<rparr>)"
  using assms by (simp_all add: mem_redis_def mr_step_def mr_count_def)

lemma mem_eval [simp]: "rEval mem_redis sc s = sc s"
  by (simp add: mem_redis_def)

lemma mem_multi_fault [simp]:
  "mr_faults s = Some e # fs \<Longrightarrow> rMultiSet mem_redis xs s = (Inl e, s\<lparr>mr_faults := fs\<rparr>)"
  by (simp add: mem_redis_def mr_step_def)

lemma leaky_keys [simp]: "mr_keys (eg_redis leaky_edge) = Map.empty"
  by (simp add: leaky_edge_def)

lemma leaky_originate:
  "\<exists>w'. Originate (sample_dialer mem_redis) sample_req leaky_edge = (Inl (ErrMsg ''i/o timeout''), w') \<and>
     counter_of (mr_keys (eg_redis w') (ChannelKey ref_uuid 7)) = Some 1"
proof -
  have e: "IsE164 ''+33612345678''" by (simp add: IsE164_def is_digit_def)
  let ?w1 = "leaky_edge\<lparr>eg_ticks := Suc (eg_ticks leaky_edge)\<rparr>" and ?now = "eg_clock leaky_edge (eg_ticks leaky_edge)"
  let ?k = "ustr ref_uuid (eg_rand leaky_edge (eg_drawn leaky_edge))"
  obtain cmd where b: "BuildOriginate (''agent-'' @ ustr ref_uuid 3) (GatewayName ref_uuid 7) ''+33612345678'' [] ?k = Inr cmd"
    using originate_text [OF ref_uuid.uuid_library_axioms, of 3 7 "''+33612345678''" "[]"] e by simp
  have db: "carriers (tabs (eg_db leaky_edge)) = [sample_carrier 7 True]" "db_faults (eg_db leaky_edge) = []"
    by (simp_all add: leaky_edge_def)
  have l: "ListOrdered ?w1 = (Inr [sample_carrier 7 True], ?w1)"
    by (simp add: ListOrdered_def edge_db_def db)
  have w: "ChannelKey ref_uuid 7 \<noteq> windowKey (CarrierKey (ustr ref_uuid 7)) ?now"
    by (simp add: ChannelKey_def windowKey_def CarrierKey_def)
  have r: "eg_redis leaky_edge = mr_init\<lparr>mr_faults := [None, None, None, None, Some (ErrMsg ''i/o timeout'')]\<rparr>"
    by (simp add: leaky_edge_def)
  have "\<exists>w'. try_carriers (sample_dialer mem_redis) sample_req ?now (''agent-'' @ ustr ref_uuid 3) None 0 [sample_carrier 7 True] ?w1 =
      (Inl (ErrMsg ''i/o timeout''), w') \<and> counter_of (mr_keys (eg_redis w') (ChannelKey ref_uuid 7)) = Some 1"
    using b w r
    by (simp add: bindE_def tryE_def on_redis_def channelAvailable_def channelCount_def AllowCarrier_def Allow_def allowScript_def
        new_uuid_def esl_api_def connected_def trackCall_def clock_now_def ignoreE_def Let_def windowTTLSeconds_def)
  then show ?thesis
    using e l by (auto simp: Originate_def bindE_def clock_now_def uuid_Nil_def)
qed

section \<open>Properties\<close>

text \<open>
  C16. The originate command for an agent, a gateway and a call of the system carries the numbers
  literally: both are a plus sign and 2 to 15 digits, the first not 0, so that no character of
  the request is one the switch's dial string gives a meaning to. Every other request is refused.
\<close>

theorem build_originate_safe:
  assumes "uuid_library U"
  shows "BuildOriginate (''agent-'' @ ustr U a) (GatewayName U g) to cid (ustr U k) =
      (if IsE164 to \<and> (cid = [] \<or> IsE164 cid) then
         Inr (''originate {origination_uuid='' @ ustr U k @
              (if cid = [] then [] else '',origination_caller_id_number='' @ cid) @
              ''}user/agent-'' @ ustr U a @ '' &bridge(sofia/gateway/'' @ ustr U g @ ''/'' @ to @ '')'')
       else Inl ErrInvalidE164) \<and>
    (\<forall>s. IsE164 s = (\<exists>d ds. s = CHR ''+'' # d # ds \<and> d \<noteq> CHR ''0'' \<and> set (d # ds) \<subseteq> set ''0123456789'' \<and>
       2 \<le> length (d # ds) \<and> length (d # ds) \<le> 15))"
  using originate_text [OF assms] IsE164_iff by blast

theorem build_originate_safe_witness:
  "BuildOriginate (''agent-'' @ ustr ref_uuid 3) (GatewayName ref_uuid 7) ''+33612345678'' [] (ustr ref_uuid 9) =
     Inr (''originate {origination_uuid='' @ ustr ref_uuid 9 @ ''}user/agent-'' @ ustr ref_uuid 3 @
       '' &bridge(sofia/gateway/'' @ ustr ref_uuid 7 @ ''/+33612345678)'')"
proof -
  have "IsE164 ''+33612345678''" by (simp add: IsE164_def is_digit_def)
  then show ?thesis
    using build_originate_safe [OF ref_uuid.uuid_library_axioms, of 3 7 "''+33612345678''" "[]" 9] by simp
qed

text \<open>
  C17. A call that \<open>Originate\<close> reports as placed went out on an enabled carrier with a free channel:
  the last command sent to the switch is the originate command of exactly that carrier and call,
  and the switch accepted it; in Redis the carrier's channel counter is one higher, the call's
  meta data and the agent's current call are recorded, and, the call rates aside, nothing else
  has changed.
\<close>

theorem originate_places_call:
  assumes "redis_service (m_RDB m) view" and "m_Carriers m = ListOrdered" and "Originate m req w = (Inr res, w')"
  shows "\<exists>c \<in> set (carriers (tabs (eg_db w))). \<exists>n now h cmd body.
    c_Enabled c \<and> ores_CarrierID res = c_ID c \<and> ores_To res = or_To req \<and>
    counter_of (view (eg_redis w) (ChannelKey (m_uuid m) (c_ID c))) = Some n \<and> n < c_MaxChannels c \<and>
    same_but_cps (with_call (m_uuid m) req (c_ID c) (ores_CallUUID res) (n + 1) now (view (eg_redis w))) (view (eg_redis w')) \<and>
    BuildOriginate (''agent-'' @ ustr (m_uuid m) (or_AgentID req)) (GatewayName (m_uuid m) (c_ID c)) (or_To req)
      (or_CallerID req) (ores_CallUUID res) = Inr cmd \<and>
    eg_cmds w' = h @ [cmd] \<and> m_ESL m h cmd = Inr body \<and> isESLOK body"
proof -
  obtain c n now where c: "c \<in> set (carriers (tabs (eg_db w)))" "c_Enabled c"
    "counter_of (view (eg_redis w) (ChannelKey (m_uuid m) (c_ID c))) = Some n" "n < c_MaxChannels c"
    "ores_CarrierID res = c_ID c" "ores_To res = or_To req"
    "same_but_cps (with_call (m_uuid m) req (c_ID c) (ores_CallUUID res) (n + 1) now (view (eg_redis w))) (view (eg_redis w'))"
    using redis_service.Originate_placed [OF assms(1, 3) refl assms(2)] unfolding placed_def by auto
  obtain h cmd body where "BuildOriginate (''agent-'' @ ustr (m_uuid m) (or_AgentID req)) (GatewayName (m_uuid m) (ores_CarrierID res))
      (or_To req) (or_CallerID req) (ores_CallUUID res) = Inr cmd"
    "eg_cmds w' = h @ [cmd]" "m_ESL m h cmd = Inr body" "isESLOK body"
    using redis_service.Originate_originated [OF assms(1, 3) refl] unfolding originated_def by blast
  then show ?thesis using c by metis
qed

theorem originate_places_call_witness:
  "\<exists>k w'. Originate (sample_dialer mem_redis) sample_req sample_edge =
      (Inr \<lparr>ores_CallUUID = k, ores_CarrierID = 7, ores_To = ''+33612345678''\<rparr>, w') \<and>
     (\<exists>h cmd. eg_cmds w' = h @ [cmd] \<and>
        BuildOriginate (''agent-'' @ ustr ref_uuid 3) (ustr ref_uuid 7) ''+33612345678'' [] k = Inr cmd) \<and>
     counter_of (mr_keys (eg_redis w') (ChannelKey ref_uuid 7)) = Some 1"
proof -
  obtain k w' where o: "Originate (sample_dialer mem_redis) sample_req sample_edge =
      (Inr \<lparr>ores_CallUUID = k, ores_CarrierID = 7, ores_To = ''+33612345678''\<rparr>, w')"
    using sample_originate [of mem_redis] by blast
  show ?thesis
    using o originate_places_call [of "sample_dialer mem_redis" mr_keys, OF _ _ o] mem_service
    by (auto simp: same_but_cps_def with_call_def GatewayName_def)
qed

text \<open>
  C18. However calls are placed and hung up, one after the other and whatever fails, no carrier's
  channel counter rises above the number of channels the carrier has.
\<close>

theorem channels_bounded:
  assumes "redis_service (m_RDB m) view" and "uuid_library (m_uuid m)" and "m_Carriers m = ListOrdered"
    and "distinct (map c_ID (carriers (tabs (eg_db w))))"
    and "\<forall>c \<in> set (carriers (tabs (eg_db w))). \<exists>n. counter_of (view (eg_redis w) (ChannelKey (m_uuid m) (c_ID c))) = Some n \<and>
      n \<le> max 0 (c_MaxChannels c)"
  shows "\<forall>c \<in> set (carriers (tabs (eg_db w))).
    \<exists>n. counter_of (view (eg_redis (fold (dial_step m) ops w)) (ChannelKey (m_uuid m) (c_ID c))) = Some n \<and>
      n \<le> max 0 (c_MaxChannels c)"
  using dial_steps_within [OF assms(1-3), of w ops] assms(4, 5) unfolding channels_within_def distinct_map by blast

theorem channels_bounded_witness:
  "\<exists>n. counter_of (mr_keys (eg_redis (fold (dial_step (sample_dialer mem_redis))
      [Call sample_req, Call sample_req, Hang 3 [], Call sample_req] sample_edge)) (ChannelKey ref_uuid 7)) = Some n \<and> n \<le> 2"
  using channels_bounded [of "sample_dialer mem_redis" mr_keys sample_edge "[Call sample_req, Call sample_req, Hang 3 [], Call sample_req]"]
    mem_service ref_uuid.uuid_library_axioms by simp

text \<open>
  Hanging up the call that was just placed gives everything back: the carrier's channel
  counter is what it was before, the meta data and the agent's current call are gone, and the
  other keys, the call rates and the agent's presence aside, are as before.
\<close>

theorem originate_hangup:
  assumes "redis_service (m_RDB m) view" and "uuid_library (m_uuid m)" and "m_Carriers m = ListOrdered"
    and "\<forall>i s. \<not> isl (fst (rGet (m_RDB m) i s))" and "\<forall>i s. \<not> isl (fst (rDel (m_RDB m) i s))"
    and "Originate m req w = (Inr res, w1)" and "Hangup m (or_AgentID req) [] w1 = (Inr (), w2)"
    and "\<forall>i n. counter_of (view (eg_redis w) (ChannelKey (m_uuid m) i)) = Some n \<longrightarrow> 0 \<le> n"
  shows "counter_of (view (eg_redis w2) (ChannelKey (m_uuid m) (ores_CarrierID res))) =
      counter_of (view (eg_redis w) (ChannelKey (m_uuid m) (ores_CarrierID res))) \<and>
    view (eg_redis w2) (callMetaKey (ores_CallUUID res)) = None \<and>
    view (eg_redis w2) (agentCallKey (m_uuid m) (or_AgentID req)) = None \<and>
    (\<forall>j. \<not> prefix ''cps:'' j \<and> j \<notin> {ChannelKey (m_uuid m) (ores_CarrierID res), callMetaKey (ores_CallUUID res),
        agentCallKey (m_uuid m) (or_AgentID req), Key (m_uuid m) (or_AgentID req)} \<longrightarrow>
      view (eg_redis w2) j = view (eg_redis w) j)"
proof -
  let ?U = "m_uuid m"
  obtain c n now where n: "counter_of (view (eg_redis w) (ChannelKey ?U (ores_CarrierID res))) = Some n" "in_int64 (n + 1)"
    and v1: "same_but_cps (with_call ?U req (ores_CarrierID res) (ores_CallUUID res) (n + 1) now (view (eg_redis w))) (view (eg_redis w1))"
    using redis_service.Originate_placed [OF assms(1, 6) refl assms(3)] unfolding placed_def by auto
  have pos: "0 \<le> n" using assms(8) n(1) by blast
  have carrier: "uparse ?U (cm_CarrierID (call_meta ?U req i now)) = Some i" for i
    using uuid_library.uparse_ustr [OF assms(2)] by (simp add: call_meta_def)
  have v1': "view (eg_redis w1) j = with_call ?U req (ores_CarrierID res) (ores_CallUUID res) (n + 1) now (view (eg_redis w)) j"
    if "\<not> prefix ''cps:'' j" for j
    using v1 that by (simp add: same_but_cps_def)
  have "in_int64 (n + 1 - 1) \<and> (\<forall>j. j \<noteq> Key ?U (or_AgentID req) \<longrightarrow> view (eg_redis w2) j =
    ((view (eg_redis w1))(ChannelKey ?U (ores_CarrierID res) \<mapsto> int_str (n + 1 - 1), callMetaKey (ores_CallUUID res) := None,
       agentCallKey ?U (or_AgentID req) := None)) j)"
    by (rule redis_service.Hangup_own_call [OF assms(1, 7) refl assms(5, 4)])
       (use v1' n pos carrier in \<open>simp_all add: with_call_def\<close>)
  then show ?thesis
    using v1' n by (auto simp: with_call_def)
qed

theorem originate_hangup_witness:
  "\<exists>k w1 w2. Originate (sample_dialer calm_redis) sample_req sample_edge =
      (Inr \<lparr>ores_CallUUID = k, ores_CarrierID = 7, ores_To = ''+33612345678''\<rparr>, w1) \<and>
     Hangup (sample_dialer calm_redis) 3 [] w1 = (Inr (), w2) \<and>
     counter_of (mr_keys (eg_redis w2) (ChannelKey ref_uuid 7)) = Some 0"
proof -
  let ?m = "sample_dialer calm_redis"
  obtain k w1 where o: "Originate ?m sample_req sample_edge =
      (Inr \<lparr>ores_CallUUID = k, ores_CarrierID = 7, ores_To = ''+33612345678''\<rparr>, w1)" "mr_faults (eg_redis w1) = []"
    using sample_originate [of calm_redis] by blast
  have s: "redis_service (m_RDB ?m) mr_keys" using calm.redis_service_axioms by simp
  obtain now where v1: "same_but_cps (with_call ref_uuid sample_req 7 k 1 now Map.empty) (mr_keys (eg_redis w1))"
    using redis_service.Originate_placed [OF s o(1) refl] by (auto simp: placed_def)
  obtain w2 where h: "Hangup ?m 3 [] w1 = (Inr (), w2)"
    using mem_Hangup [of ?m w1 3 k "call_meta ref_uuid sample_req 7 now" 7 1] o(2) v1
    by (auto simp: same_but_cps_def with_call_def call_meta_def)
  show ?thesis
    using originate_hangup [OF s _ _ _ _ o(1), of w2] h ref_uuid.uuid_library_axioms o(1)
    by (auto simp: calm_redis_def)
qed



end
