(* ===== verification/Inbound_Router.thy ===== *)
theory Inbound_Router
  imports Dialer
begin

text \<open>
  Inbound calls, \<open>services/edge/internal/inbound/router.go\<close>: the called number is looked up, an
  available agent is claimed in Redis, and the parked channel is bridged to the agent or rejected
  as busy. The search for an agent follows the cursor of \<open>SCAN\<close> until the server returns 0, which
  it need not do: the functions around it return an option, \<open>None\<close> for a search that never ends.
\<close>

section \<open>Computations that may not end\<close>

type_synonym ('s, 'a) prun = "'s \<Rightarrow> ((goerr + 'a) \<times> 's) option"

definition total_run :: "('s, 'a) run \<Rightarrow> ('s, 'a) prun" where
  "total_run m = (\<lambda>s. Some (m s))"

definition tryP :: "('s, 'a) prun \<Rightarrow> (goerr + 'a \<Rightarrow> ('s, 'b) prun) \<Rightarrow> ('s, 'b) prun" where
  "tryP m f = (\<lambda>s. case m s of None \<Rightarrow> None | Some (r, s') \<Rightarrow> f r s')"

section \<open>Numbers, destinations and events\<close>

definition DefaultDestination :: string where
  "DefaultDestination = ''agent_pool:default''"

definition AgentSIPUser :: "uuid_lib \<Rightarrow> uuid \<Rightarrow> string" where
  "AgentSIPUser U agentID = ''agent-'' @ ustr U agentID"

definition NormalizeDID :: "string \<Rightarrow> string" where
  "NormalizeDID number =
     (let n = trim_space (takeWhile (\<lambda>c. c \<noteq> CHR ''@'') (trim_prefix (trim_space number) ''sip:''));
          digits = filter is_digit n
      in if n = [] then n
         else if has_prefix n ''+'' then n
         else if 8 \<le> length digits \<and> length digits \<le> 15 then CHR ''+'' # digits
         else n)"

definition isAgentPool :: "string \<Rightarrow> bool" where
  "isAgentPool dest \<longleftrightarrow>
     (let d = trim_space (to_lower dest)
      in d = DefaultDestination \<or> d = ''queue:default'' \<or> has_prefix d ''agent_pool:'')"

text \<open>\<open>Action\<close> is a Go string type with two constants.\<close>

type_synonym Action = string

definition ActionBridge :: Action where
  "ActionBridge = ''bridge''"

definition ActionBusy :: Action where
  "ActionBusy = ''busy''"

record Decision =
  dc_Action :: Action
  dc_DID :: string
  dc_Destination :: string
  dc_AgentID :: uuid
  dc_AgentUser :: string

record InboundEvent =
  iv_ChannelUUID :: string
  iv_DID :: string

text \<open>A router; \<open>rt_Pres\<close> is the time to live of its presence, if it was given one.\<close>

record 'r Router =
  rt_RDB :: "'r redis"
  rt_DIDs :: "string \<Rightarrow> ('r edge, DID) run"
  rt_ESL :: "esl option"
  rt_Pres :: "int option"
  rt_uuid :: uuid_lib

definition pres_ttl :: "'r Router \<Rightarrow> int" where
  "pres_ttl r = (case rt_Pres r of Some ttl \<Rightarrow> ttl | None \<Rightarrow> NewPresence_ttl DefaultTTL)"

definition escapeFS :: "string \<Rightarrow> string" where
  "escapeFS s = replace_bytes [(CHR 0x5C, [CHR 0x5C, CHR 0x5C]), (CHR '' '', [CHR 0x5C, CHR '' ''])] s"

definition esl_ok :: "string \<Rightarrow> bool" where
  "esl_ok body \<longleftrightarrow> has_prefix (trim_space body) ''+OK''"

section \<open>The search for an agent\<close>

text \<open>The keys of one page: the first agent claimed, if there is one.\<close>

fun claim_first :: "'r redis \<Rightarrow> uuid_lib \<Rightarrow> int \<Rightarrow> string list \<Rightarrow> ('r, uuid option) run" where
  "claim_first R U ttl [] = retE None"
| "claim_first R U ttl (key # keys) =
     bindE (rGet R key) (\<lambda>val.
       case val of
         None \<Rightarrow> claim_first R U ttl keys
       | Some raw \<Rightarrow>
           if raw \<noteq> StateAvailable then claim_first R U ttl keys
           else (case uparse U (trim_prefix key ''agent:'') of
               None \<Rightarrow> claim_first R U ttl keys
             | Some i \<Rightarrow>
                 bindE (ClaimAvailable R U ttl i) (\<lambda>ok.
                 if \<not> ok then claim_first R U ttl keys else retE (Some i))))"

partial_function (option) scan_agents ::
  "'r redis \<Rightarrow> uuid_lib \<Rightarrow> int \<Rightarrow> nat \<Rightarrow> 'r \<Rightarrow> ((goerr + uuid) \<times> 'r) option" where
  "scan_agents R U ttl cursor s =
     (case rScan R cursor ''agent:*'' 50 s of
        (Inl e, s1) \<Rightarrow> Some (Inl e, s1)
      | (Inr page, s1) \<Rightarrow>
          (case claim_first R U ttl (fst page) s1 of
             (Inl e, s2) \<Rightarrow> Some (Inl e, s2)
           | (Inr (Some i), s2) \<Rightarrow> Some (Inr i, s2)
           | (Inr None, s2) \<Rightarrow>
               if snd page = 0 then Some (Inl ErrNoAgent, s2) else scan_agents R U ttl (snd page) s2))"

definition FirstAvailableAgent :: "'r Router \<Rightarrow> ('r edge, uuid) prun" where
  "FirstAvailableAgent r = (\<lambda>w.
     case scan_agents (rt_RDB r) (rt_uuid r) (pres_ttl r) 0 (eg_redis w) of
       None \<Rightarrow> None
     | Some (q, s) \<Rightarrow> Some (q, w\<lparr>eg_redis := s\<rparr>))"

section \<open>Routing\<close>

definition busy_decision :: "string \<Rightarrow> string \<Rightarrow> Decision" where
  "busy_decision did dest =
     \<lparr>dc_Action = ActionBusy, dc_DID = did, dc_Destination = dest, dc_AgentID = uuid_Nil, dc_AgentUser = []\<rparr>"

definition Route :: "'r Router \<Rightarrow> string \<Rightarrow> ('r edge, Decision) prun" where
  "Route r didNumber =
     (let number = NormalizeDID didNumber in
      if number = [] then total_run (failE ErrUnknownDID)
      else tryP (total_run (rt_DIDs r number)) (\<lambda>q.
        case q of
          Inl e \<Rightarrow> if errors_is e ErrUnknownDID then total_run (retE (busy_decision number [])) else total_run (failE e)
        | Inr did \<Rightarrow>
            if \<not> isAgentPool (d_Destination did)
            then total_run (retE (busy_decision (d_Number did) (d_Destination did)))
            else tryP (FirstAvailableAgent r) (\<lambda>q.
              case q of
                Inl e \<Rightarrow>
                  if errors_is e ErrNoAgent
                  then total_run (retE (busy_decision (d_Number did) (d_Destination did)))
                  else total_run (failE e)
              | Inr i \<Rightarrow> total_run (retE
                  \<lparr>dc_Action = ActionBridge, dc_DID = d_Number did, dc_Destination = d_Destination did,
                   dc_AgentID = i, dc_AgentUser = AgentSIPUser (rt_uuid r) i\<rparr>))))"

definition releaseClaimed :: "'r Router \<Rightarrow> uuid \<Rightarrow> ('r edge, unit) run" where
  "releaseClaimed r i =
     (if i = uuid_Nil then retE ()
      else ignoreE (on_redis (ReleaseOnCall (rt_RDB r) (rt_uuid r) (pres_ttl r) i)))"

definition transfer_cmd :: "string \<Rightarrow> Decision \<Rightarrow> string" where
  "transfer_cmd channelUUID dec =
     ''uuid_transfer '' @ channelUUID @ '' bridge:user/'' @ escapeFS (dc_AgentUser dec) @ '' inline''"

definition busy_cmd :: "string \<Rightarrow> string" where
  "busy_cmd channelUUID = ''uuid_kill '' @ channelUUID @ '' USER_BUSY''"

definition Apply :: "'r Router \<Rightarrow> string \<Rightarrow> Decision \<Rightarrow> ('r edge, unit) run" where
  "Apply r channelUUID dec =
     (case rt_ESL r of
        None \<Rightarrow> failE (ErrMsg ''esl unavailable'')
      | Some E \<Rightarrow>
          if dc_Action dec = ActionBridge then
            tryE (esl_api E (transfer_cmd channelUUID dec)) (\<lambda>q.
              case q of
                Inl e \<Rightarrow> bindE (releaseClaimed r (dc_AgentID dec)) (\<lambda>_. failE e)
              | Inr body \<Rightarrow>
                  if \<not> esl_ok body
                  then bindE (releaseClaimed r (dc_AgentID dec)) (\<lambda>_.
                         failE (ErrMsg (''uuid_transfer: '' @ trim_space body)))
                  else retE ())
          else if dc_Action dec = ActionBusy then
            bindE (esl_api E (busy_cmd channelUUID)) (\<lambda>body.
            if \<not> esl_ok body \<and> \<not> str_contains (to_lower body) ''no such''
            then failE (ErrMsg (''uuid_kill: '' @ trim_space body))
            else retE ())
          else failE (ErrMsg (''unknown action '' @ [CHR 0x22] @ dc_Action dec @ [CHR 0x22])))"

text \<open>The map of the channels seen.\<close>

definition forget_channel :: "string \<Rightarrow> ('r edge, unit) run" where
  "forget_channel ch = (\<lambda>w. (Inr (), w\<lparr>eg_seen := removeAll ch (eg_seen w)\<rparr>))"

text \<open>\<open>None\<close> for an event that is a duplicate. With a decision that could not be applied the
  code returns both the decision and the error, and its caller logs the error.\<close>

definition HandleEvent :: "'r Router \<Rightarrow> InboundEvent \<Rightarrow> ('r edge, Decision option) prun" where
  "HandleEvent r ev = (\<lambda>w.
     let ch = iv_ChannelUUID ev in
     if ch = [] then Some (Inl (ErrMsg ''missing channel uuid''), w)
     else if ch \<in> set (eg_seen w) then Some (Inr None, w)
     else
       tryP (Route r (iv_DID ev)) (\<lambda>q.
         case q of
           Inl e \<Rightarrow> total_run (bindE (forget_channel ch) (\<lambda>_. failE e))
         | Inr dec \<Rightarrow> total_run (tryE (Apply r ch dec) (\<lambda>q.
             case q of
               Inl e \<Rightarrow> bindE (forget_channel ch) (\<lambda>_. failE e)
             | Inr _ \<Rightarrow> retE (Some dec)))) (w\<lparr>eg_seen := ch # eg_seen w\<rparr>))"

section \<open>Lookups\<close>

definition DIDLoader_LookupByNumber :: "string \<Rightarrow> ('r edge, DID) run" where
  "DIDLoader_LookupByNumber number0 =
     (let number = NormalizeDID number0 in
      tryE (edge_db (query_row (\<lambda>t _. filter (\<lambda>d. d_Number d = number) (dids t)))) (\<lambda>q.
        case q of
          Inl e \<Rightarrow> if errors_is e SqlNoRows then failE ErrUnknownDID else failE e
        | Inr d \<Rightarrow> retE d))"

definition MapDIDLookup_LookupByNumber :: "(string \<rightharpoonup> DID) \<Rightarrow> string \<Rightarrow> ('r edge, DID) run" where
  "MapDIDLookup_LookupByNumber m number =
     (case m (NormalizeDID number) of None \<Rightarrow> failE ErrUnknownDID | Some d \<Rightarrow> retE d)"

section \<open>Events of the switch\<close>

fun firstNonEmpty :: "string list \<Rightarrow> string" where
  "firstNonEmpty [] = []"
| "firstNonEmpty (v # vals) = (if trim_space v \<noteq> [] then trim_space v else firstNonEmpty vals)"

definition event_did :: "(string \<Rightarrow> string) \<Rightarrow> string" where
  "event_did get = firstNonEmpty (map get
     [''Variable_callvoice_did'', ''variable_callvoice_did'', ''Callvoice-Did'', ''callvoice_did'',
      ''Caller-Destination-Number'', ''Variable_destination_number'', ''Channel-Destination-Number''])"

definition event_uuid :: "(string \<Rightarrow> string) \<Rightarrow> string" where
  "event_uuid get = firstNonEmpty (map get [''Unique-ID'', ''Channel-Call-UUID'', ''Caller-Unique-ID''])"

definition inbound_create :: "(string \<Rightarrow> string) \<Rightarrow> bool" where
  "inbound_create get \<longleftrightarrow>
     (let dir = to_lower (get ''Call-Direction'')
      in (dir = [] \<or> dir = ''inbound'') \<and>
         \<not> has_prefix (to_lower (get ''Caller-Destination-Number'')) ''agent-'' \<and>
         \<not> str_contains (to_lower (get ''Channel-Name'')) ''agent-'')"

definition ParseEvent :: "(string \<Rightarrow> string) \<Rightarrow> InboundEvent option" where
  "ParseEvent get =
     (let subclass = to_lower (get ''Event-Subclass'');
          name = to_upper (get ''Event-Name'');
          did = event_did get;
          ch = event_uuid get;
          wanted = (if name = ''CUSTOM'' \<and> (subclass = ''callvoice::inbound'' \<or> str_contains subclass ''callvoice'') then True
                    else if name = ''CHANNEL_CREATE'' then inbound_create get
                    else False)
      in if \<not> wanted then None
         else if ch = [] \<or> did = [] then None
         else Some \<lparr>iv_ChannelUUID = ch, iv_DID = NormalizeDID did\<rparr>)"

text \<open>
  The loops of the listener. A connection delivers some events and then a read error, or the
  context is cancelled: its events are a list. The result is the list of the outcomes.
\<close>

fun listenLoop :: "'r Router \<Rightarrow> (string \<Rightarrow> string) list \<Rightarrow> 'r edge \<Rightarrow> ((goerr + Decision option) list \<times> 'r edge) option" where
  "listenLoop r [] w = Some ([], w)"
| "listenLoop r (get # evs) w =
     (case ParseEvent get of
        None \<Rightarrow> listenLoop r evs w
      | Some ev \<Rightarrow>
          (case HandleEvent r ev w of
             None \<Rightarrow> None
           | Some (q, w') \<Rightarrow> map_option (\<lambda>(qs, w''). (q # qs, w'')) (listenLoop r evs w')))"

text \<open>What the switch does with an attempt to connect; the waits are in seconds.\<close>

datatype attempt = Refused | SubscribeFails | Listening "(string \<Rightarrow> string) list"

definition next_backoff :: "nat \<Rightarrow> nat" where
  "next_backoff b = min (b * 2) 30"

fun RunListener ::
  "'r Router \<Rightarrow> nat \<Rightarrow> attempt list \<Rightarrow> 'r edge \<Rightarrow> (nat list \<times> (goerr + Decision option) list \<times> 'r edge) option" where
  "RunListener r backoff [] w = Some ([], [], w)"
| "RunListener r backoff (Refused # xs) w =
     map_option (\<lambda>(waits, qs, w'). (backoff # waits, qs, w')) (RunListener r (next_backoff backoff) xs w)"
| "RunListener r backoff (SubscribeFails # xs) w = RunListener r 1 xs w"
| "RunListener r backoff (Listening evs # xs) w =
     (case listenLoop r evs w of
        None \<Rightarrow> None
      | Some (qs, w') \<Rightarrow> map_option (\<lambda>(waits, qs', w''). (waits, qs @ qs', w'')) (RunListener r 1 xs w'))"

section \<open>Lemmas\<close>

context redis_service begin

lemma ClaimAvailable_at:
  assumes "ClaimAvailable R U ttl i s = (Inr True, s')"
  shows "\<exists>v. presence_at (view s) U i = Some v \<and> pvState v = StateAvailable \<and>
    view s' = (view s)(Key U i \<mapsto> encodePresence (v\<lparr>pvState := StateOnCall\<rparr>))"
  using ClaimAvailable_True [OF assms] by (auto simp: presence_at_def dest!: claim_valueD)

text \<open>What a search has done: claimed the agent it returns, or nothing.\<close>

definition claimed_one :: "uuid_lib \<Rightarrow> goerr + uuid option \<Rightarrow> 'r \<Rightarrow> 'r \<Rightarrow> bool" where
  "claimed_one U q s s' \<longleftrightarrow>
     (case q of
        Inr (Some i) \<Rightarrow> (\<exists>v. presence_at (view s) U i = Some v \<and> pvState v = StateAvailable \<and>
          view s' = (view s)(Key U i \<mapsto> encodePresence (v\<lparr>pvState := StateOnCall\<rparr>)))
      | _ \<Rightarrow> view s' = view s)"

lemma claimed_one_view: "view s1 = view s \<Longrightarrow> claimed_one U q s1 s' \<Longrightarrow> claimed_one U q s s'"
  by (simp add: claimed_one_def split: sum.splits option.splits)

lemma get_view: "rGet R k s = (q, s') \<Longrightarrow> view s' = view s"
  by (cases q) (auto dest: get_ok get_err)

lemma claim_first_claims:
  assumes "claim_first R U ttl keys s = (q, s')"
  shows "claimed_one U q s s'"
  using assms
proof (induction keys arbitrary: s)
  case Nil
  then show ?case by (auto simp: claimed_one_def)
next
  case (Cons key keys)
  obtain v s1 where g: "rGet R key s = (v, s1)" by fastforce
  note gv = get_view [OF g]
  consider (err) e where "q = Inl e" "s' = s1"
    | (rest) s2 where "claim_first R U ttl keys s2 = (q, s')" "view s2 = view s"
    | (fail) i e where "ClaimAvailable R U ttl i s1 = (Inl e, s')" "q = Inl e"
    | (won) i where "ClaimAvailable R U ttl i s1 = (Inr True, s')" "q = Inr (Some i)"
    using Cons.prems g gv
    by (auto simp: bindE_def split: sum.splits option.splits if_splits prod.splits dest: ClaimAvailable_other)
  then show ?case
  proof cases
    case err
    then show ?thesis using gv by (simp add: claimed_one_def)
  next
    case rest
    then show ?thesis using Cons.IH claimed_one_view by blast
  next
    case fail
    then show ?thesis using gv ClaimAvailable_other by (simp add: claimed_one_def)
  next
    case won
    then show ?thesis using gv ClaimAvailable_at [OF won(1)] by (simp add: claimed_one_def)
  qed
qed

lemma scan_agents_claims:
  assumes "scan_agents R' U ttl cursor s = Some y" and "R' = R"
  shows "claimed_one U (map_sum id Some (fst y)) s (snd y)"
  using assms
proof (induction rule: scan_agents.raw_induct [rotated 1, consumes 1, case_names step])
  case (step scan R' U ttl cursor s y)
  obtain page s1 where p: "rScan R cursor ''agent:*'' 50 s = (page, s1)" by fastforce
  note pv = scan_view [OF p] and run = step.hyps [unfolded step.prems p]
  show ?case
  proof (cases page)
    case (Inl e)
    then show ?thesis using run pv by (auto simp: claimed_one_def)
  next
    case (Inr pg)
    obtain q s2 where q: "claim_first R U ttl (fst pg) s1 = (q, s2)" by fastforce
    note qv = claim_first_claims [OF q]
    consider e where "q = Inl e" | i where "q = Inr (Some i)" | "q = Inr None" by (metis not_Some_eq sum.exhaust)
    then show ?thesis
    proof cases
      case 3
      then have v2: "view s2 = view s" using qv pv by (simp add: claimed_one_def)
      show ?thesis
      proof (cases "snd pg = 0")
        case True
        then show ?thesis using run Inr q 3 v2 by (auto simp: claimed_one_def)
      next
        case False
        then have "scan R U ttl (snd pg) s2 = Some y" using run Inr q 3 by simp
        from step.IH [OF this refl] v2 show ?thesis by (metis claimed_one_view)
      qed
    qed (use run pv Inr q qv in \<open>auto simp: claimed_one_def\<close>)
  qed
qed

text \<open>A search that claims nothing where no key holds the bare state.\<close>

lemma claim_first_none:
  assumes "claim_first R U ttl keys s = (q, s')" and "\<forall>k. view s k \<noteq> Some StateAvailable"
  shows "\<forall>i. q \<noteq> Inr (Some i)"
  using assms
proof (induction keys arbitrary: s)
  case Nil
  then show ?case by auto
next
  case (Cons key keys)
  obtain v s1 where g: "rGet R key s = (v, s1)" by fastforce
  show ?case
  proof (cases v)
    case (Inl e)
    then show ?thesis using Cons.prems g by (auto simp: bindE_def)
  next
    case (Inr x)
    then have "x \<noteq> Some StateAvailable" using get_ok [OF g [unfolded Inr]] Cons.prems(2) by metis
    then have "claim_first R U ttl keys s1 = (q, s')"
      using Cons.prems(1) g Inr by (auto simp: bindE_def split: option.splits)
    then show ?thesis using Cons.IH get_view [OF g] Cons.prems(2) by simp
  qed
qed

lemma scan_agents_none:
  assumes "scan_agents R' U ttl cursor s = Some y" and "R' = R" and "\<forall>k. view s k \<noteq> Some StateAvailable"
  shows "isl (fst y)"
  using assms
proof (induction rule: scan_agents.raw_induct [rotated 1, consumes 1, case_names step])
  case (step scan R' U ttl cursor s y)
  obtain page s1 where p: "rScan R cursor ''agent:*'' 50 s = (page, s1)" by fastforce
  note pv = scan_view [OF p] and run = step.hyps [unfolded step.prems(1) p]
  show ?case
  proof (cases page)
    case (Inr pg)
    obtain q s2 where q: "claim_first R U ttl (fst pg) s1 = (q, s2)" by fastforce
    have none: "\<forall>i. q \<noteq> Inr (Some i)" using claim_first_none [OF q] step.prems(2) pv by simp
    have v2: "view s2 = view s" using claim_first_claims [OF q] none pv by (auto simp: claimed_one_def split: sum.splits option.splits)
    consider e where "q = Inl e" | "q = Inr None" using none by (metis not_Some_eq sum.exhaust)
    then show ?thesis
    proof cases
      case 2
      show ?thesis
      proof (cases "snd pg = 0")
        case False
        then have "scan R U ttl (snd pg) s2 = Some y" using run Inr q 2 by simp
        then show ?thesis using step.IH [OF _ refl] step.prems(2) v2 by metis
      qed (use run Inr q 2 in auto)
    qed (use run Inr q in auto)
  qed (use run in auto)
qed

end

text \<open>The search ends where the cursor of \<open>SCAN\<close> comes down to 0.\<close>

definition scan_ends :: "'r redis \<Rightarrow> (nat \<Rightarrow> nat) \<Rightarrow> bool" where
  "scan_ends R rank \<longleftrightarrow>
     (\<forall>c p n s pg s'. rScan R c p n s = (Inr pg, s') \<longrightarrow> snd pg = 0 \<or> rank (snd pg) < rank c)"

lemma scan_agents_returns:
  assumes "scan_ends R rank"
  shows "\<exists>y. scan_agents R U ttl cursor s = Some y"
proof (induction "rank cursor" arbitrary: cursor s rule: less_induct)
  case less
  obtain page s1 where p: "rScan R cursor ''agent:*'' 50 s = (page, s1)" by fastforce
  obtain q s2 where q: "claim_first R U ttl (fst (projr page)) s1 = (q, s2)" by fastforce
  have "snd pg = 0 \<or> rank (snd pg) < rank cursor" if "page = Inr pg" for pg
    using assms p that unfolding scan_ends_def by blast
  then show ?case
    using less p q by (subst scan_agents.simps) (auto split: sum.splits option.splits)
qed

lemma tryP_iff: "tryP m f w = Some y \<longleftrightarrow> (\<exists>q w1. m w = Some (q, w1) \<and> f q w1 = Some y)"
  by (auto simp: tryP_def split: option.splits)

lemma total_run_iff [simp]: "total_run m w = Some y \<longleftrightarrow> m w = y"
  by (simp add: total_run_def)

lemma total_run_not_None [simp]: "total_run m w \<noteq> None"
  by (simp add: total_run_def)

text \<open>A computation that ends in every state.\<close>

definition ends :: "('s, 'a) prun \<Rightarrow> bool" where
  "ends m \<longleftrightarrow> (\<forall>s. m s \<noteq> None)"

lemma ends_total: "ends (total_run m)"
  by (simp add: ends_def)

lemma ends_tryP: "ends m \<Longrightarrow> (\<And>q. ends (f q)) \<Longrightarrow> ends (tryP m f)"
  unfolding ends_def tryP_def by (simp split: option.split)

lemmas ends_intros = ends_total ends_tryP

lemma DIDLoader_ok:
  assumes "DIDLoader_LookupByNumber number w = (q, w')"
  shows "eg_redis w' = eg_redis w \<and> eg_cmds w' = eg_cmds w \<and> eg_seen w' = eg_seen w \<and> tabs (eg_db w') = tabs (eg_db w) \<and>
    (\<forall>d. q = Inr d \<longrightarrow> d \<in> set (dids (tabs (eg_db w))) \<and> d_Number d = NormalizeDID number)"
proof -
  let ?q = "query_row (\<lambda>t _. filter (\<lambda>d. d_Number d = NormalizeDID number) (dids t))"
  obtain r w1 where r: "edge_db ?q w = (r, w1)" by fastforce
  then obtain s1 where s1: "?q (eg_db w) = (r, s1)" "w1 = w\<lparr>eg_db := s1\<rparr>" by (auto simp: edge_db_iff)
  show ?thesis
    using assms r s1 query_row_tabs [OF s1(1)] query_row_filter [of _ dids "eg_db w" _ s1]
    unfolding DIDLoader_LookupByNumber_def Let_def tryE_def
    by (auto split: sum.splits if_splits)
qed

text \<open>How a decision comes about.\<close>

lemma Route_cases:
  assumes "Route r did w = Some (Inr dec, w')"
  obtains (unknown) e where "rt_DIDs r (NormalizeDID did) w = (Inl e, w')" "dec = busy_decision (NormalizeDID did) []"
  | (elsewhere) d where "rt_DIDs r (NormalizeDID did) w = (Inr d, w')" "\<not> isAgentPool (d_Destination d)"
      "dec = busy_decision (d_Number d) (d_Destination d)"
  | (nobody) d w1 e where "rt_DIDs r (NormalizeDID did) w = (Inr d, w1)" "isAgentPool (d_Destination d)"
      "FirstAvailableAgent r w1 = Some (Inl e, w')" "dec = busy_decision (d_Number d) (d_Destination d)"
  | (agent) d w1 i where "rt_DIDs r (NormalizeDID did) w = (Inr d, w1)" "isAgentPool (d_Destination d)"
      "FirstAvailableAgent r w1 = Some (Inr i, w')"
      "dec = \<lparr>dc_Action = ActionBridge, dc_DID = d_Number d, dc_Destination = d_Destination d, dc_AgentID = i,
              dc_AgentUser = AgentSIPUser (rt_uuid r) i\<rparr>"
proof -
  obtain q w1 where q: "rt_DIDs r (NormalizeDID did) w = (q, w1)" by fastforce
  note run = assms [unfolded Route_def Let_def]
  show thesis
  proof (cases q)
    case (Inl e)
    then show ?thesis using run q unknown by (auto simp: tryP_iff split: if_splits)
  next
    case (Inr d)
    show ?thesis
    proof (cases "isAgentPool (d_Destination d)")
      case False
      then show ?thesis using run q Inr elsewhere by (auto simp: tryP_iff split: if_split_asm)
    next
      case True
      then obtain qa w2 where qa: "FirstAvailableAgent r w1 = Some (qa, w2)"
        and rest: "(case qa of
            Inl e \<Rightarrow>
              if errors_is e ErrNoAgent then total_run (retE (busy_decision (d_Number d) (d_Destination d))) else total_run (failE e)
          | Inr i \<Rightarrow> total_run (retE
              \<lparr>dc_Action = ActionBridge, dc_DID = d_Number d, dc_Destination = d_Destination d,
               dc_AgentID = i, dc_AgentUser = AgentSIPUser (rt_uuid r) i\<rparr>)) w2 = Some (Inr dec, w')"
        using run q Inr by (auto simp: tryP_iff split: if_split_asm)
      then show ?thesis
        using nobody [OF q [unfolded Inr] True] agent [OF q [unfolded Inr] True] by (cases qa) (auto split: if_split_asm)
    qed
  qed
qed

lemma FirstAvailableAgent_iff:
  "FirstAvailableAgent r w = Some (q, w') \<longleftrightarrow>
     (\<exists>s. scan_agents (rt_RDB r) (rt_uuid r) (pres_ttl r) 0 (eg_redis w) = Some (q, s) \<and> w' = w\<lparr>eg_redis := s\<rparr>)"
  by (auto simp: FirstAvailableAgent_def split: option.splits)

section \<open>The interface \<open>DIDLookup\<close>\<close>

text \<open>What the router relies on: a lookup touches nothing but the database, and finds a row of the number.\<close>

locale did_lookup =
  fixes lookup :: "string \<Rightarrow> ('r edge, DID) run"
  assumes frame: "lookup number w = (q, w') \<Longrightarrow> eg_redis w' = eg_redis w \<and> eg_cmds w' = eg_cmds w \<and> eg_seen w' = eg_seen w"
    and found: "lookup number w = (Inr d, w') \<Longrightarrow> d \<in> set (dids (tabs (eg_db w))) \<and> d_Number d = NormalizeDID number"
begin

lemma Route_outcome:
  assumes "rt_DIDs r = lookup" and "Route r did w = Some (Inr dec, w')"
  obtains (unrouted) "dc_Action dec = ActionBusy" "dc_AgentID dec = uuid_Nil" "eg_redis w' = eg_redis w"
  | (nobody) w1 e where "dc_Action dec = ActionBusy" "dc_AgentID dec = uuid_Nil" "eg_redis w1 = eg_redis w"
      "FirstAvailableAgent r w1 = Some (Inl e, w')"
  | (agent) d w1 i where "d \<in> set (dids (tabs (eg_db w)))" "d_Number d = NormalizeDID (NormalizeDID did)" "isAgentPool (d_Destination d)"
      "eg_redis w1 = eg_redis w" "FirstAvailableAgent r w1 = Some (Inr i, w')"
      "dec = \<lparr>dc_Action = ActionBridge, dc_DID = d_Number d, dc_Destination = d_Destination d, dc_AgentID = i,
              dc_AgentUser = AgentSIPUser (rt_uuid r) i\<rparr>"
  using assms(2)
proof (cases rule: Route_cases)
  case (unknown e)
  note f = frame [OF unknown(1) [unfolded assms(1)]]
  show thesis by (rule unrouted) (use unknown(2) f in \<open>simp_all add: busy_decision_def\<close>)
next
  case (elsewhere d)
  note f = frame [OF elsewhere(1) [unfolded assms(1)]]
  show thesis by (rule unrouted) (use elsewhere(3) f in \<open>simp_all add: busy_decision_def\<close>)
next
  case (nobody d w1 e)
  note f = frame [OF nobody(1) [unfolded assms(1)]]
  show thesis by (rule that(2) [OF _ _ _ nobody(3)]) (use nobody(4) f in \<open>simp_all add: busy_decision_def\<close>)
next
  case (agent d w1 i)
  note l = agent(1) [unfolded assms(1)]
  show thesis by (rule that(3) [OF _ _ agent(2) _ agent(3, 4)]) (use found [OF l] frame [OF l] in simp_all)
qed

text \<open>Routing sends no command and records no channel.\<close>

lemma Route_log:
  assumes "rt_DIDs r = lookup" and "Route r did w = Some (Inr dec, w')"
  shows "eg_cmds w' = eg_cmds w \<and> eg_seen w' = eg_seen w"
  using assms(2) by (cases rule: Route_cases) (auto simp: assms(1) FirstAvailableAgent_iff dest!: frame)

end

interpretation did_loader: did_lookup DIDLoader_LookupByNumber
  by unfold_locales (use DIDLoader_ok in blast)+

context redis_service begin

lemma search_claims:
  assumes "FirstAvailableAgent r w = Some (Inr i, w')" and "rt_RDB r = R"
  shows "\<exists>v. presence_at (view (eg_redis w)) (rt_uuid r) i = Some v \<and> pvState v = StateAvailable \<and>
    view (eg_redis w') = (view (eg_redis w))(Key (rt_uuid r) i \<mapsto> encodePresence (v\<lparr>pvState := StateOnCall\<rparr>))"
proof -
  obtain s where s: "scan_agents R (rt_uuid r) (pres_ttl r) 0 (eg_redis w) = Some (Inr i, s)" "w' = w\<lparr>eg_redis := s\<rparr>"
    using assms by (auto simp: FirstAvailableAgent_iff)
  show ?thesis using scan_agents_claims [OF s(1) refl] s(2) by (simp add: claimed_one_def)
qed

lemma search_fails:
  assumes "FirstAvailableAgent r w = Some (Inl e, w')" and "rt_RDB r = R"
  shows "view (eg_redis w') = view (eg_redis w)"
proof -
  obtain s where s: "scan_agents R (rt_uuid r) (pres_ttl r) 0 (eg_redis w) = Some (Inl e, s)" "w' = w\<lparr>eg_redis := s\<rparr>"
    using assms by (auto simp: FirstAvailableAgent_iff)
  show ?thesis using scan_agents_claims [OF s(1) refl] s(2) by (simp add: claimed_one_def)
qed

end

section \<open>A call on the reference server\<close>

definition in_did :: DID where
  "in_did = \<lparr>d_ID = 1, d_Number = ''+33123456789'', d_CarrierID = None, d_Destination = DefaultDestination, d_CreatedAt = 0\<rparr>"

definition in_redis :: "string \<Rightarrow> mem_redis_state" where
  "in_redis raw = mr_init\<lparr>mr_keys := [Key ref_uuid 5 \<mapsto> raw], mr_order := [Key ref_uuid 5]\<rparr>"

definition in_edge :: "string \<Rightarrow> mem_redis_state edge" where
  "in_edge raw = edge_init (in_redis raw) (db_of (empty_tables\<lparr>dids := [in_did]\<rparr>))"

definition in_router :: "mem_redis_state Router" where
  "in_router = \<lparr>rt_RDB = mem_redis, rt_DIDs = DIDLoader_LookupByNumber, rt_ESL = Some (\<lambda>_ _. Inr ''+OK''),
     rt_Pres = Some 7200, rt_uuid = ref_uuid\<rparr>"

definition in_event :: InboundEvent where
  "in_event = \<lparr>iv_ChannelUUID = ''c1'', iv_DID = ''+33123456789''\<rparr>"

definition in_decision :: Decision where
  "in_decision = \<lparr>dc_Action = ActionBridge, dc_DID = ''+33123456789'', dc_Destination = DefaultDestination, dc_AgentID = 5,
     dc_AgentUser = AgentSIPUser ref_uuid 5\<rparr>"

lemma in_router_sel [simp]:
  "rt_RDB in_router = mem_redis" "rt_DIDs in_router = DIDLoader_LookupByNumber" "rt_ESL in_router = Some (\<lambda>_ _. Inr ''+OK'')"
  "pres_ttl in_router = 7200" "rt_uuid in_router = ref_uuid"
  by (simp_all add: in_router_def pres_ttl_def)

lemma in_edge_sel [simp]:
  "eg_redis (in_edge raw) = in_redis raw" "eg_cmds (in_edge raw) = []" "eg_seen (in_edge raw) = []"
  "dids (tabs (eg_db (in_edge raw))) = [in_did]" "db_faults (eg_db (in_edge raw)) = []"
  "mr_faults (in_redis raw) = []" "mr_keys (in_redis raw) = [Key ref_uuid 5 \<mapsto> raw]" "mr_order (in_redis raw) = [Key ref_uuid 5]"
  "iv_ChannelUUID in_event = ''c1''" "iv_DID in_event = ''+33123456789''"
  "d_Number in_did = ''+33123456789''" "d_Destination in_did = DefaultDestination"
  by (simp_all add: in_edge_def edge_init_def in_redis_def db_of_def mr_init_def in_event_def in_did_def)

lemma in_number [simp]: "NormalizeDID ''+33123456789'' = ''+33123456789''"
proof -
  have "trim_space ''+33123456789'' = ''+33123456789''" by (simp add: trim_space_id trimmed_plain plain_char_def)
  moreover have "trim_prefix ''+33123456789'' ''sip:'' = ''+33123456789''" by (simp add: trim_prefix_def)
  ultimately show ?thesis by (simp add: NormalizeDID_def Let_def)
qed

lemma isAgentPool_default [simp]: "isAgentPool DefaultDestination"
proof -
  have "to_lower DefaultDestination = DefaultDestination"
    by (simp add: to_lower_def lower_char_def is_upper_def DefaultDestination_def)
  moreover have "trim_space DefaultDestination = DefaultDestination"
    by (simp add: DefaultDestination_def trim_space_id trimmed_plain plain_char_def)
  ultimately show ?thesis by (simp add: isAgentPool_def Let_def)
qed

lemma in_lookup [simp]:
  assumes "dids (tabs (eg_db w)) = [in_did]" and "db_faults (eg_db w) = []"
  shows "DIDLoader_LookupByNumber ''+33123456789'' w = (Inr in_did, w)"
  using assms by (simp add: DIDLoader_LookupByNumber_def tryE_def edge_db_def)

lemma in_key [simp]: "trim_prefix (Key ref_uuid 5) ''agent:'' = ustr ref_uuid 5" "prefix ''agent:'' (Key ref_uuid 5)"
  by (simp_all add: Key_def trim_prefix_def)

lemma in_scan: "rScan mem_redis c ''agent:*'' n (in_redis raw) = (Inr ([Key ref_uuid 5], 0), in_redis raw)"
  using in_key(2) unfolding mem_redis_def mr_step_def by simp

lemma claim_bare: "claim_value StateAvailable = Some (encodePresence \<lparr>pvState = StateOnCall, pvCampaignID = []\<rparr>)"
  using parse_states(1) by (simp add: claim_value_def)

lemma in_claim:
  "ClaimAvailable mem_redis ref_uuid ttl 5 (in_redis StateAvailable) = (Inr True,
     (in_redis StateAvailable)\<lparr>mr_keys := [Key ref_uuid 5 \<mapsto> encodePresence \<lparr>pvState = StateOnCall, pvCampaignID = []\<rparr>]\<rparr>)"
  using mem_redis_ok [of mem_redis "in_redis StateAvailable"]
  by (simp add: ClaimAvailable_def claimTxn_def tryE_def bindE_def claim_bare)

lemma in_search:
  assumes "eg_redis w = in_redis StateAvailable"
  shows "\<exists>s. FirstAvailableAgent in_router w = Some (Inr 5, w\<lparr>eg_redis := s\<rparr>)"
proof -
  have g: "rGet mem_redis k (in_redis raw) = (Inr (mr_keys (in_redis raw) k), in_redis raw)" for k raw by simp
  obtain s where "claim_first mem_redis ref_uuid 7200 [Key ref_uuid 5] (in_redis StateAvailable) = (Inr (Some 5), s)"
    using in_claim [of 7200] by (simp add: bindE_def g)
  then show ?thesis
    unfolding FirstAvailableAgent_def assms
    by (intro exI [of _ s]) (subst scan_agents.simps, simp add: in_scan del: claim_first.simps)
qed

lemma in_route:
  assumes "eg_redis w = in_redis StateAvailable" "dids (tabs (eg_db w)) = [in_did]" "db_faults (eg_db w) = []"
  shows "\<exists>s. Route in_router ''+33123456789'' w = Some (Inr in_decision, w\<lparr>eg_redis := s\<rparr>)"
  using in_search [OF assms(1)] assms(2, 3)
  by (auto simp: Route_def Let_def tryP_def total_run_def in_decision_def)

lemma esl_ok_ok [simp]: "esl_ok ''+OK''"
  by (simp add: esl_ok_def trim_space_id trimmed_plain plain_char_def)

lemma in_handle: "\<exists>w'. HandleEvent in_router in_event (in_edge StateAvailable) = Some (Inr (Some in_decision), w')"
proof -
  obtain s where "Route in_router ''+33123456789'' ((in_edge StateAvailable)\<lparr>eg_seen := [''c1'']\<rparr>) =
      Some (Inr in_decision, (in_edge StateAvailable)\<lparr>eg_seen := [''c1''], eg_redis := s\<rparr>)"
    using in_route [of "(in_edge StateAvailable)\<lparr>eg_seen := [''c1'']\<rparr>"] by auto
  moreover have "dc_Action in_decision = ActionBridge" by (simp add: in_decision_def)
  ultimately show ?thesis
    by (simp add: HandleEvent_def Let_def tryP_def total_run_def Apply_def tryE_def esl_api_def)
qed

text \<open>An agent who has joined a campaign, and is available.\<close>

definition in_joined :: string where
  "in_joined = encodePresence \<lparr>pvState = StateAvailable, pvCampaignID = ''12''\<rparr>"

section \<open>Properties\<close>

text \<open>
  C19. A decision to bridge names an agent that was available and is claimed now: exactly that
  agent's presence has gone from available to on call, keeping its campaign, and the called number
  is an inbound number that leads to the pool. Every other decision is busy and changes nothing.
\<close>

theorem inbound_route:
  assumes "redis_service (rt_RDB r) view" and "rt_DIDs r = DIDLoader_LookupByNumber" and "Route r did w = Some (Inr dec, w')"
  shows "dc_Action dec = ActionBridge \<and>
      (\<exists>d \<in> set (dids (tabs (eg_db w))). d_Number d = NormalizeDID (NormalizeDID did) \<and> isAgentPool (d_Destination d) \<and>
         dc_DID dec = d_Number d \<and> dc_Destination dec = d_Destination d) \<and>
      dc_AgentUser dec = AgentSIPUser (rt_uuid r) (dc_AgentID dec) \<and>
      (\<exists>v. presence_at (view (eg_redis w)) (rt_uuid r) (dc_AgentID dec) = Some v \<and> pvState v = StateAvailable \<and>
         view (eg_redis w') = (view (eg_redis w))(Key (rt_uuid r) (dc_AgentID dec) \<mapsto> encodePresence (v\<lparr>pvState := StateOnCall\<rparr>))) \<or>
    dc_Action dec = ActionBusy \<and> dc_AgentID dec = uuid_Nil \<and> view (eg_redis w') = view (eg_redis w)"
proof (rule did_loader.Route_outcome [OF assms(2, 3)])
  fix w1 e
  assume "dc_Action dec = ActionBusy" "dc_AgentID dec = uuid_Nil" "eg_redis w1 = eg_redis w"
    and f: "FirstAvailableAgent r w1 = Some (Inl e, w')"
  then show ?thesis using redis_service.search_fails [OF assms(1) f refl] by simp
next
  fix d w1 i
  assume d: "d \<in> set (dids (tabs (eg_db w)))" "d_Number d = NormalizeDID (NormalizeDID did)" "isAgentPool (d_Destination d)"
    "eg_redis w1 = eg_redis w" and f: "FirstAvailableAgent r w1 = Some (Inr i, w')"
    and dec: "dec = \<lparr>dc_Action = ActionBridge, dc_DID = d_Number d, dc_Destination = d_Destination d, dc_AgentID = i,
              dc_AgentUser = AgentSIPUser (rt_uuid r) i\<rparr>"
  show ?thesis
    using redis_service.search_claims [OF assms(1) f refl] d(1-3) unfolding d(4) dec by (intro disjI1) auto
qed simp

theorem inbound_route_witness:
  "\<exists>w'. Route in_router ''+33123456789'' (in_edge StateAvailable) = Some (Inr in_decision, w') \<and>
     mr_keys (eg_redis w') (Key ref_uuid 5) = Some (encodePresence \<lparr>pvState = StateOnCall, pvCampaignID = []\<rparr>)"
proof -
  obtain s where r: "Route in_router ''+33123456789'' (in_edge StateAvailable) = Some (Inr in_decision, (in_edge StateAvailable)\<lparr>eg_redis := s\<rparr>)"
    using in_route [of "in_edge StateAvailable"] by auto
  have p: "presence_at (mr_keys (in_redis StateAvailable)) ref_uuid 5 = Some \<lparr>pvState = StateAvailable, pvCampaignID = []\<rparr>"
    using parse_states(1) by (simp add: presence_at_def)
  have d: "dc_Action in_decision = ActionBridge" "dc_AgentID in_decision = 5"
    by (simp_all add: in_decision_def)
  show ?thesis
    using inbound_route [of in_router mr_keys, OF _ _ r] mem_service r p d
    by (auto simp: ActionBridge_def ActionBusy_def)
qed

text \<open>
  C20. Where the server's \<open>SCAN\<close> comes down to the cursor 0 the router answers: for every event the
  handler returns, with a decision, an error or the mark of a duplicate. (It follows the cursor
  without a limit, so with a server that never returns 0 the search does not end.)
\<close>

theorem inbound_returns:
  assumes "scan_ends (rt_RDB r) rank"
  shows "HandleEvent r ev w \<noteq> None"
proof -
  have "ends (FirstAvailableAgent r)"
    using scan_agents_returns [OF assms, of "rt_uuid r" "pres_ttl r" 0]
    by (auto simp: ends_def FirstAvailableAgent_def split: option.split)
  then have route: "ends (Route r did)" for did
    unfolding Route_def Let_def by (auto intro!: ends_intros split: sum.split)
  have "ends (tryP (Route r (iv_DID ev)) (\<lambda>q. case q of
      Inl e \<Rightarrow> total_run (bindE (forget_channel (iv_ChannelUUID ev)) (\<lambda>_. failE e))
    | Inr dec \<Rightarrow> total_run (tryE (Apply r (iv_ChannelUUID ev) dec) (\<lambda>q. case q of
          Inl e \<Rightarrow> bindE (forget_channel (iv_ChannelUUID ev)) (\<lambda>_. failE e)
        | Inr _ \<Rightarrow> retE (Some dec)))))"
    using route by (auto intro!: ends_intros split: sum.split)
  then show ?thesis
    by (simp add: HandleEvent_def Let_def ends_def)
qed

theorem inbound_returns_witness: "HandleEvent in_router in_event (in_edge StateAvailable) \<noteq> None"
proof (rule inbound_returns)
  show "scan_ends (rt_RDB in_router) (\<lambda>_. 0)"
    by (auto simp: scan_ends_def mem_redis_def elim!: mr_step_cases)
qed



text \<open>
  C22. The router looks at the raw value of a key and passes over every key that does not hold the
  bare word \<open>available\<close>: where no key holds it every decision is busy, however many agents are
  available with a campaign (their value is a JSON object, for which a claim would succeed, as the
  witness shows).
\<close>

theorem joined_agents_unreachable:
  assumes "redis_service (rt_RDB r) view" and "rt_DIDs r = DIDLoader_LookupByNumber"
    and "\<forall>k. view (eg_redis w) k \<noteq> Some StateAvailable" and "Route r did w = Some (Inr dec, w')"
  shows "dc_Action dec = ActionBusy"
proof (rule did_loader.Route_outcome [OF assms(2, 4)])
  fix d w1 i
  assume "eg_redis w1 = eg_redis w" "FirstAvailableAgent r w1 = Some (Inr i, w')"
  then obtain s where s: "scan_agents (rt_RDB r) (rt_uuid r) (pres_ttl r) 0 (eg_redis w) = Some (Inr i, s)"
    by (auto simp: FirstAvailableAgent_iff)
  show ?thesis using redis_service.scan_agents_none [OF assms(1) s refl assms(3)] by simp
qed simp_all

theorem joined_agents_unreachable_witness:
  "\<exists>dec w'. claim_value in_joined \<noteq> None \<and>
     Route in_router ''+33123456789'' (in_edge in_joined) = Some (Inr dec, w') \<and> dc_Action dec = ActionBusy"
proof -
  have j: "in_joined \<noteq> StateAvailable"
    by (simp add: in_joined_def encodePresence_def json_object_def StateAvailable_def)
  have g: "rGet mem_redis k (in_redis raw) = (Inr (mr_keys (in_redis raw) k), in_redis raw)" for k raw by simp
  have "FirstAvailableAgent in_router (in_edge in_joined) = Some (Inl ErrNoAgent, (in_edge in_joined)\<lparr>eg_redis := in_redis in_joined\<rparr>)"
    unfolding FirstAvailableAgent_def by (subst scan_agents.simps) (simp add: in_scan bindE_def g j)
  then obtain dec w' where r: "Route in_router ''+33123456789'' (in_edge in_joined) = Some (Inr dec, w')"
    by (auto simp: Route_def Let_def tryP_def total_run_def)
  have "parsePresence in_joined = Inr \<lparr>pvState = StateAvailable, pvCampaignID = ''12''\<rparr>"
    unfolding in_joined_def by (rule parse_encode) (simp add: StateAvailable_def)
  then have "claim_value in_joined \<noteq> None" by (simp add: claim_value_def)
  then show ?thesis
    using joined_agents_unreachable [of in_router mr_keys, OF _ _ _ r] mem_service r j by auto
qed

end
