(* ===== verification/Go_Clock.thy ===== *)
theory Go_Clock
  imports Go_Time
begin

text \<open>
  The text of an instant in JSON, \<open>time.Time.MarshalJSON\<close> and \<open>UnmarshalJSON\<close>: RFC 3339 with the
  nanoseconds, without trailing zeros. The section on the calendar proves that the two conversions
  of \<open>Go_Time\<close> between days and dates are inverse, so that an instant is read back exactly.
\<close>

section \<open>Definitions\<close>

definition year_of :: "time \<Rightarrow> int" where
  "year_of t = fst (civil_from_days (t div second div 86400))"

definition drop_zeros :: "string \<Rightarrow> string" where
  "drop_zeros s = rev (dropWhile (\<lambda>c. c = CHR ''0'') (rev s))"

text \<open>The fraction of a second: a period and at most nine digits, nothing for 0.\<close>

definition nano_part :: "int \<Rightarrow> string" where
  "nano_part ns = (if ns = 0 then [] else CHR ''.'' # drop_zeros (pad_int 9 ns))"

definition format_rfc3339nano :: "time \<Rightarrow> string" where
  "format_rfc3339nano t = butlast (format_rfc3339 t) @ nano_part (t mod second) @ ''Z''"

definition time_MarshalJSON :: "time \<Rightarrow> goerr + string" where
  "time_MarshalJSON t =
     (if year_of t < 0 \<or> 9999 < year_of t
      then Inl (ErrMsg ''Time.MarshalJSON: year outside of range [0,9999]'')
      else Inr (format_rfc3339nano t))"

text \<open>The zero value of \<open>time.Time\<close>, the first day of the year 1.\<close>

definition zero_time :: string where
  "zero_time = ''0001-01-01T00:00:00Z''"

section \<open>The calendar\<close>

text \<open>The day of the 400 years on which the year \<open>y\<close>, from March on, starts and ends.\<close>

definition year_start :: "int \<Rightarrow> int" where
  "year_start y = 365 * y + y div 4 - y div 100"

definition year_end :: "int \<Rightarrow> int" where
  "year_end y = (if y = 399 then 146096 else year_start (y + 1) - 1)"

definition year_days :: "int \<Rightarrow> int" where
  "year_days doe = doe - doe div 1460 + doe div 36524 - doe div 146096"

definition year_ok :: "int \<Rightarrow> bool" where
  "year_ok y \<longleftrightarrow> 365 * y \<le> year_days (year_start y) \<and> year_days (year_end y) < 365 * (y + 1) \<and>
     year_end y - year_start y \<le> 365 \<and> (year_end y - year_start y = 365 \<longrightarrow> leap_year (y + 1))"

lemma years_ok: "list_all year_ok [0..399]"
  by code_simp

lemma year_ok: "0 \<le> y \<Longrightarrow> y \<le> 399 \<Longrightarrow> year_ok y"
  using years_ok by (auto simp: list_all_iff)

lemma div_Suc:
  assumes "(0::int) < n"
  shows "(d + 1) div n = d div n + (if n dvd d + 1 then 1 else 0)"
proof (cases "n dvd d + 1")
  case True
  then obtain k where k: "d + 1 = n * k" by (auto simp: dvd_def)
  then have "d = n * (k - 1) + (n - 1)" by (simp add: algebra_simps)
  then have "d div n = k - 1" using assms by simp
  then show ?thesis using k True assms by simp
next
  case False
  have "(d + 1) mod n = d mod n + 1"
    using False assms by (smt (verit) dvd_eq_mod_eq_0 mod_add_left_eq pos_mod_bound pos_mod_sign mod_pos_pos_trivial mod_self)
  then show ?thesis
    using False assms div_mult_mod_eq [of "d + 1" n] div_mult_mod_eq [of d n] by (smt (verit) mult_cancel_right)
qed

lemma year_days_Suc: "year_days d \<le> year_days (d + 1)"
proof -
  have "(146096::int) dvd d + 1 \<Longrightarrow> 36524 dvd d + 1" by (rule dvd_trans [of _ 146096]) auto
  then show ?thesis by (auto simp: year_days_def div_Suc)
qed

lemma year_days_mono: "a \<le> b \<Longrightarrow> year_days a \<le> year_days b"
proof (induction b rule: int_ge_induct)
  case (step i)
  then show ?case using year_days_Suc [of i] by simp
qed simp

text \<open>The year of a day of the 400 years: \<open>year_days\<close> counts every leap day out.\<close>

lemma year_of_day:
  assumes "0 \<le> doe" and "doe < 146097"
  shows "0 \<le> year_days doe div 365" and "year_days doe div 365 \<le> 399"
    and "year_start (year_days doe div 365) \<le> doe" and "doe \<le> year_end (year_days doe div 365)"
proof -
  let ?y = "year_days doe div 365"
  have "year_days 0 \<le> year_days doe" "year_days doe \<le> year_days 146096"
    using assms by (auto intro: year_days_mono)
  then have b: "0 \<le> year_days doe" "year_days doe \<le> 145999" by (simp_all add: year_days_def)
  then show y: "0 \<le> ?y" "?y \<le> 399" by (simp_all add: zdiv_mono1 [of _ 145999 365, simplified])
  have q: "365 * ?y \<le> year_days doe" "year_days doe < 365 * (?y + 1)" by presburger+
  show "year_start ?y \<le> doe"
  proof (rule ccontr)
    assume "\<not> year_start ?y \<le> doe"
    then have lt: "doe < year_start ?y" and y0: "?y \<noteq> 0" using assms(1) by (auto simp: year_start_def)
    then have "doe \<le> year_end (?y - 1)" using y by (simp add: year_end_def)
    then have "year_days doe \<le> year_days (year_end (?y - 1))" by (rule year_days_mono)
    also have "\<dots> < 365 * ?y" using year_ok [of "?y - 1"] y y0 by (simp add: year_ok_def)
    finally show False using q(1) by simp
  qed
  show "doe \<le> year_end ?y"
  proof (rule ccontr)
    assume "\<not> doe \<le> year_end ?y"
    then have n: "?y \<noteq> 399" "year_start (?y + 1) \<le> doe" using assms(2) by (auto simp: year_end_def split: if_splits)
    then have "365 * (?y + 1) \<le> year_days (year_start (?y + 1))" using year_ok [of "?y + 1"] y by (simp add: year_ok_def)
    also have "\<dots> \<le> year_days doe" by (rule year_days_mono [OF n(2)])
    finally show False using q(2) by simp
  qed
qed

text \<open>A day of the year, counted from the first of March, as month and day.\<close>

lemma month_day:
  assumes "(0::int) \<le> doy" and "doy \<le> 365" and "mp = (5 * doy + 2) div 153"
    and "d = doy - (153 * mp + 2) div 5 + 1" and "m = (if mp < 10 then mp + 3 else mp - 9)"
  shows "0 \<le> mp \<and> mp \<le> 11 \<and> 1 \<le> m \<and> m \<le> 12 \<and> 1 \<le> d \<and> (m \<le> 2 \<longleftrightarrow> 10 \<le> mp) \<and>
    (if m > 2 then m - 3 else m + 9) = mp \<and>
    d \<le> (if m = 2 then (if doy = 365 then 29 else 28) else if m \<in> {4, 6, 9, 11} then 30 else 31)"
proof -
  have b: "153 * mp \<le> 5 * doy + 2" "5 * doy + 2 < 153 * mp + 153" unfolding assms(3) by presburger+
  then have "0 \<le> mp" "mp \<le> 11" using assms(1, 2) by linarith+
  then have "mp \<in> set [0, 1, 2, 3, 4, 5, 6, 7, 8, 9, 10, 11]" by simp presburger
  then show ?thesis
    unfolding set_simps insert_iff empty_iff
    apply (elim disjE FalseE)
    using b assms(1, 2, 4, 5) apply simp_all
    done
qed

text \<open>\<open>civil_from_days\<close> by the year and the day of the year it goes through.\<close>

lemma civil_from_days_eq:
  "civil_from_days z =
     (let era = (z + 719468) div 146097;
          doe = (z + 719468) mod 146097;
          yoe = year_days doe div 365;
          doy = doe - year_start yoe;
          mp = (5 * doy + 2) div 153;
          m = (if mp < 10 then mp + 3 else mp - 9)
      in (yoe + era * 400 + (if m \<le> 2 then 1 else 0), m, doy - (153 * mp + 2) div 5 + 1))"
  unfolding civil_from_days_def year_days_def year_start_def Let_def by (rule refl)

lemma civil_roundtrip:
  assumes "civil_from_days z = (y, m, d)"
  shows "days_from_civil y m d = z" and "1 \<le> m" and "m \<le> 12" and "1 \<le> d" and "d \<le> days_in m y"
proof -
  define era doe where "era = (z + 719468) div 146097" and "doe = (z + 719468) mod 146097"
  define yoe where "yoe = year_days doe div 365"
  define doy where "doy = doe - year_start yoe"
  define mp where "mp = (5 * doy + 2) div 153"
  define m' where "m' = (if mp < 10 then mp + 3 else mp - 9)"
  have "civil_from_days z = (yoe + era * 400 + (if m' \<le> 2 then 1 else 0), m', doy - (153 * mp + 2) div 5 + 1)"
    unfolding civil_from_days_eq Let_def m'_def mp_def doy_def yoe_def era_def doe_def by (rule refl)
  then have y: "y = yoe + era * 400 + (if m \<le> 2 then 1 else 0)" and m: "m = (if mp < 10 then mp + 3 else mp - 9)"
    and d: "d = doy - (153 * mp + 2) div 5 + 1"
    using assms unfolding m'_def by auto
  have z: "z = era * 146097 + doe - 719468" 
    using div_mult_mod_eq [of "z + 719468" 146097] unfolding era_def doe_def by linarith
  have "0 \<le> doe" "doe < 146097" unfolding doe_def by simp_all
  note r = year_of_day [OF this, folded yoe_def]
  have ok: "year_end yoe - year_start yoe \<le> 365 \<and> (year_end yoe - year_start yoe = 365 \<longrightarrow> leap_year (yoe + 1))"
    using year_ok [OF r(1, 2)] by (simp add: year_ok_def)
  have doy: "0 \<le> doy" "doy \<le> 365" "doy = 365 \<Longrightarrow> leap_year (yoe + 1)"
    using r(3, 4) ok unfolding doy_def by linarith+
  note md = month_day [OF doy(1, 2) mp_def d m]
  show "1 \<le> m" "m \<le> 12" "1 \<le> d" using md by blast+
  have y': "(if m \<le> 2 then y - 1 else y) = yoe + era * 400" using y by simp
  have e: "(yoe + era * 400) div 400 = era" "(yoe + era * 400) mod 400 = yoe" using r(1, 2) by simp_all
  have mp': "(if m > 2 then m - 3 else m + 9) = mp" using md by blast
  show "days_from_civil y m d = z"
    unfolding days_from_civil_def Let_def y' e mp' using d z by (simp add: doy_def year_start_def)
  have l: "leap_year (k + era * 400) \<longleftrightarrow> leap_year k" for k
  proof -
    have "(k + era * 400) mod 4 = k mod 4" "(k + era * 400) mod 100 = k mod 100" "(k + era * 400) mod 400 = k mod 400"
      using mod_mult_self1 [of k "era * 100" 4] mod_mult_self1 [of k "era * 4" 100] by (simp_all add: mult.assoc)
    then show ?thesis by (simp only: leap_year_def)
  qed
  have "leap_year y" if "m = 2" "doy = 365"
    using doy(3) [OF that(2)] l [of "yoe + 1"] y that(1) by (simp add: algebra_simps)
  then show "d \<le> days_in m y" using md unfolding days_in_def by (auto split: if_splits)
qed

lemma civil_epoch: "civil_from_days 0 = (1970, 1, 1)"
  by code_simp

section \<open>Reading back\<close>

lemma digits_val_append: "digits_val (a @ b) = digits_val a * 10 ^ length b + digits_val b"
proof (induction b rule: rev_induct)
  case (snoc c b)
  then show ?case by (simp add: digits_val_def algebra_simps)
qed (simp add: digits_val_def)

lemma digits_val_zeros [simp]: "digits_val (replicate n (CHR ''0'')) = 0"
  by (induction n) (simp_all add: digits_val_def digit_val_def replicate_append_same [symmetric])

lemma length_nat_str: "n < 10 ^ w \<Longrightarrow> 0 < w \<Longrightarrow> length (nat_str n) \<le> w"
proof (induction w arbitrary: n)
  case (Suc w)
  show ?case
  proof (cases "n < 10")
    case False
    then have "w \<noteq> 0" using Suc.prems by (cases w) auto
    moreover have "n div 10 < 10 ^ w" using Suc.prems by (simp add: div_less_iff_less_mult mult.commute)
    ultimately show ?thesis using Suc.IH [of "n div 10"] False by (subst nat_str.simps) simp
  qed (subst nat_str.simps, simp)
qed simp

lemma zero_digit: "is_digit (CHR ''0'')"
  by (simp add: is_digit_def)

lemma pad_int:
  assumes "0 \<le> i" and "i < 10 ^ w" and "0 < w"
  shows "length (pad_int w i) = w" and "list_all is_digit (pad_int w i)" and "digits_val (pad_int w i) = nat i"
proof -
  have "nat i < 10 ^ w" using assms by (simp add: nat_less_iff)
  then have "length (nat_str (nat i)) \<le> w" using length_nat_str assms(3) by blast
  then show "length (pad_int w i) = w" using assms(1) by (simp add: pad_int_def Let_def)
  show "list_all is_digit (pad_int w i)"
    using assms(1) nat_str_digits [of "nat i"] zero_digit by (auto simp: pad_int_def Let_def list_all_iff)
  show "digits_val (pad_int w i) = nat i" using assms(1) by (simp add: pad_int_def Let_def digits_val_append)
qed

lemma getnum_pad:
  assumes "0 \<le> i" and "i < 100"
  shows "getnum fx (pad_int 2 i @ r) = Some (i, r)"
proof -
  note p = pad_int [of i 2] assms
  then obtain a b where ab: "pad_int 2 i = [a, b]" by (auto simp: length_Suc_conv numeral_2_eq_2)
  then have "is_digit a" "is_digit b" "10 * digit_val a + digit_val b = nat i" using p by (auto simp: digits_val_def)
  then show ?thesis using ab assms(1) by (simp add: getnum_def)
qed

lemma getyear_pad:
  assumes "0 \<le> i" and "i \<le> 9999"
  shows "getyear (pad_int 4 i @ r) = Some (i, r)"
  using pad_int [of i 4] assms by (simp add: getyear_def)

lemma skip_char_hit [simp]: "skip_char c (c # r) = Some r"
  by (simp add: skip_char_def)

lemma drop_zeros: "\<exists>k. s = drop_zeros s @ replicate k (CHR ''0'')"
proof -
  have "\<forall>x \<in> set (takeWhile (\<lambda>c. c = CHR ''0'') (rev s)). x = CHR ''0''" by (auto dest: set_takeWhileD)
  then obtain k where k: "takeWhile (\<lambda>c. c = CHR ''0'') (rev s) = replicate k (CHR ''0'')" by (metis replicate_eqI)
  have "rev s = takeWhile (\<lambda>c. c = CHR ''0'') (rev s) @ dropWhile (\<lambda>c. c = CHR ''0'') (rev s)" by simp
  then have "s = drop_zeros s @ rev (takeWhile (\<lambda>c. c = CHR ''0'') (rev s))" unfolding drop_zeros_def by (metis rev_append rev_rev_ident)
  then show ?thesis using k by (metis rev_replicate)
qed

lemma getfraction_nano:
  assumes "0 \<le> ns" and "ns < second"
  shows "getfraction (nano_part ns @ ''Z'') = (ns, ''Z'')"
proof (cases "ns = 0")
  case True
  then show ?thesis by (simp add: nano_part_def getfraction_def)
next
  case False
  let ?s = "drop_zeros (pad_int 9 ns)"
  have p: "length (pad_int 9 ns) = 9" "list_all is_digit (pad_int 9 ns)" "digits_val (pad_int 9 ns) = nat ns"
    using pad_int [of ns 9] assms by (simp_all add: second_def)
  obtain k where k: "pad_int 9 ns = ?s @ replicate k (CHR ''0'')" using drop_zeros by blast
  have "length (?s @ replicate k (CHR ''0'')) = 9" using p(1) k by metis
  then have len: "length ?s + k = 9" by simp
  have "digits_val (?s @ replicate k (CHR ''0'')) = nat ns" using p(3) k by metis
  then have val: "digits_val ?s * 10 ^ k = nat ns" by (simp add: digits_val_append)
  then have ne: "?s \<noteq> []" using False assms(1) by (auto simp: digits_val_def)
  have dg: "list_all is_digit ?s" using p(2) k by (metis list_all_append)
  obtain d r where dr: "?s = d # r" "is_digit d" using ne dg by (cases ?s) auto
  have z: "\<not> is_digit (CHR ''Z'')" by (simp add: is_digit_def)
  have tw: "takeWhile is_digit (?s @ ''Z'') = ?s" "dropWhile is_digit (?s @ ''Z'') = ''Z''"
    using dg z by (simp_all add: takeWhile_append2 dropWhile_append2 list_all_iff)
  have "getfraction (CHR ''.'' # ?s @ ''Z'') = (int (digits_val (take 9 ?s)) * 10 ^ (9 - length (take 9 ?s)), ''Z'')"
    using dr tw by (simp add: getfraction_def Let_def)
  moreover have "9 - length ?s = k" "take 9 ?s = ?s" using len by simp_all
  moreover have "int (digits_val ?s) * 10 ^ k = ns" using val assms(1) by (metis int_nat_eq of_nat_mult of_nat_numeral of_nat_power)
  ultimately show ?thesis using False by (simp add: nano_part_def)
qed

lemma parse_rfc3339_parts:
  assumes "0 \<le> y" "y \<le> 9999" "1 \<le> m" "m \<le> 12" "1 \<le> d" "d \<le> days_in m y" "0 \<le> h" "h < 24"
    "0 \<le> mi" "mi < 60" "0 \<le> sc" "sc < 60" "0 \<le> ns" "ns < second"
  shows "parse_rfc3339 (pad_int 4 y @ ''-'' @ pad_int 2 m @ ''-'' @ pad_int 2 d @ ''T'' @ pad_int 2 h @ '':'' @
      pad_int 2 mi @ '':'' @ pad_int 2 sc @ nano_part ns @ ''Z'') =
    Some ((days_from_civil y m d * 86400 + h * 3600 + mi * 60 + sc) * second + ns)"
proof -
  have "d < 100" using assms(6) by (simp add: days_in_def split: if_splits)
  then have g: "getyear (pad_int 4 y @ r) = Some (y, r)" "getnum f (pad_int 2 m @ r) = Some (m, r)"
    "getnum f (pad_int 2 d @ r) = Some (d, r)" "getnum f (pad_int 2 h @ r) = Some (h, r)"
    "getnum f (pad_int 2 mi @ r) = Some (mi, r)" "getnum f (pad_int 2 sc @ r) = Some (sc, r)" for f r
    using assms by (simp_all add: getyear_pad getnum_pad)
  have sk: "skip_char c ([c] @ r) = Some r" for c r by simp
  have c: "\<not> ([] \<noteq> [] \<or> m < 1 \<or> m > 12 \<or> h \<ge> 24 \<or> mi \<ge> 60 \<or> sc \<ge> 60 \<or> d < 1 \<or> d > days_in m y)"
    using assms by auto
  have z: "getzone ''Z'' = Some (0, [])" by (simp add: getzone_def)
  show ?thesis
    unfolding parse_rfc3339_def g obind_def option.case prod.case sk getfraction_nano [OF assms(13, 14)] z
    using c by simp
qed

lemma time_roundtrip:
  assumes "time_MarshalJSON t = Inr s"
  shows "parse_rfc3339 s = Some t"
proof -
  obtain y m d where c: "civil_from_days (t div second div 86400) = (y, m, d)" by (metis prod.exhaust)
  note r = civil_roundtrip [OF c]
  have s: "s = format_rfc3339nano t" and y: "0 \<le> y" "y \<le> 9999"
    using assms c by (auto simp: time_MarshalJSON_def year_of_def split: if_splits)
  define e where "e = t div second mod 86400"
  have e: "0 \<le> e" "e < 86400" by (simp_all add: e_def)
  have "e div 3600 \<le> 86399 div 3600" using e by (intro zdiv_mono1) auto
  then have b: "0 \<le> e div 3600" "e div 3600 < 24" "0 \<le> e div 60 mod 60" "e div 60 mod 60 < 60" "0 \<le> e mod 60" "e mod 60 < 60"
    using e by simp_all
  have ns: "0 \<le> t mod second" "t mod second < second" by (simp_all add: second_def)
  have f: "s = pad_int 4 y @ ''-'' @ pad_int 2 m @ ''-'' @ pad_int 2 d @ ''T'' @ pad_int 2 (e div 3600) @ '':'' @
      pad_int 2 (e div 60 mod 60) @ '':'' @ pad_int 2 (e mod 60) @ nano_part (t mod second) @ ''Z''"
    unfolding s format_rfc3339nano_def format_rfc3339_def Let_def c e_def by (simp add: butlast_append)
  have "e div 3600 = e div 60 div 60" by (simp add: zdiv_zmult2_eq [symmetric])
  then have "e = e div 3600 * 3600 + e div 60 mod 60 * 60 + e mod 60"
    using div_mult_mod_eq [of "e div 60" 60] div_mult_mod_eq [of e 60] by linarith
  then have "t div second div 86400 * 86400 + e div 3600 * 3600 + e div 60 mod 60 * 60 + e mod 60 = t div second"
    using div_mult_mod_eq [of "t div second" 86400] unfolding e_def by linarith
  then have "(t div second div 86400 * 86400 + e div 3600 * 3600 + e div 60 mod 60 * 60 + e mod 60) * second + t mod second = t"
    by (simp only: div_mult_mod_eq)
  then show ?thesis
    using parse_rfc3339_parts [OF y r(2-5) b ns] unfolding f r(1) by simp
qed
end
