(* ===== verification/Webrtc_Cred.thy ===== *)
theory Webrtc_Cred
  imports Dialer Go_Clock
begin

text \<open>
  The credentials of the browser phones, \<open>services/edge/internal/webrtccred/cred.go\<close>: a SIP user
  per agent, as an XML file FreeSWITCH reads, with a random password that is kept in Redis until it
  expires.
\<close>

section \<open>Data\<close>

definition defaultTTL :: time where
  "defaultTTL = 7200 * second"

definition passwordBytes :: nat where
  "passwordBytes = 24"

text \<open>\<open>ICEServer\<close> is a list of URLs.\<close>

record Config =
  cf_WSSURL :: string
  cf_SIPURI :: string
  cf_Password :: string
  cf_ICEServers :: "string list list"

record storedCred =
  sc_SIPUser :: string
  sc_Password :: string
  sc_ExpiresAt :: time

text \<open>\<open>pv_Pres\<close> is the presence with its time to live, if there is one; \<open>pv_TTL\<close> is in nanoseconds.\<close>

record 'r Provisioner =
  pv_ESL :: esl
  pv_DirectoryDir :: string
  pv_WSSURL :: string
  pv_SIPDomain :: string
  pv_ICEServers :: "string list list option"
  pv_TTL :: time
  pv_RDB :: "'r redis"
  pv_Pres :: "int option"
  pv_uuid :: uuid_lib

definition credKey :: "uuid_lib \<Rightarrow> uuid \<Rightarrow> string" where
  "credKey U userID = ''agent:'' @ ustr U userID @ '':webrtc''"

section \<open>The directory file\<close>

definition xmlEscapeAttr :: "string \<Rightarrow> string" where
  "xmlEscapeAttr s =
     replace_bytes [(CHR ''&'', ''&amp;''), (CHR 0x22, ''&quot;''), (CHR ''<'', ''&lt;''), (CHR ''>'', ''&gt;'')] s"

definition dq :: "string \<Rightarrow> string" where
  "dq s = CHR 0x22 # s @ [CHR 0x22]"

definition renderDirectoryXML :: "string \<Rightarrow> string \<Rightarrow> string" where
  "renderDirectoryXML sipUser password =
     line (''<?xml version='' @ dq ''1.0'' @ '' encoding='' @ dq ''UTF-8'' @ ''?>'') @
     line ''<include>'' @
     line (''  <user id='' @ dq (xmlEscapeAttr sipUser) @ ''>'') @
     line ''    <params>'' @
     line (''      <param name='' @ dq ''password'' @ '' value='' @ dq (xmlEscapeAttr password) @ ''/>'') @
     line (''      <param name='' @ dq ''vm-password'' @ '' value='' @ dq (xmlEscapeAttr password) @ ''/>'') @
     line ''    </params>'' @
     line ''    <variables/>'' @
     line ''  </user>'' @
     line ''</include>''"

definition directory_path :: "string \<Rightarrow> string \<Rightarrow> string" where
  "directory_path dir sipUser = path_join dir (sipUser @ ''.xml'')"

definition writeDirectoryUser :: "string \<Rightarrow> string \<Rightarrow> string \<Rightarrow> ('r edge, unit) run" where
  "writeDirectoryUser dir sipUser password =
     bindE (wrapE ''directory dir'' (MkdirAll dir)) (\<lambda>_.
     wrapE ''write directory xml'' (WriteFile (directory_path dir sipUser) (renderDirectoryXML sipUser password)))"

section \<open>The stored credential\<close>

definition cred_fields :: "string list" where
  "cred_fields = [''sipUser'', ''password'', ''expiresAt'']"

definition marshal_cred :: "storedCred \<Rightarrow> goerr + string" where
  "marshal_cred s = map_sum id (\<lambda>t.
     json_object [(''sipUser'', sc_SIPUser s), (''password'', sc_Password s), (''expiresAt'', t)])
     (time_MarshalJSON (sc_ExpiresAt s))"

text \<open>A member that is missing or \<open>null\<close> leaves its field at the zero value.\<close>

definition cred_zero :: "string \<Rightarrow> string" where
  "cred_zero k = (if k = ''expiresAt'' then zero_time else [])"

definition cred_of :: "(string \<Rightarrow> string) \<Rightarrow> storedCred option" where
  "cred_of v = map_option (\<lambda>t. \<lparr>sc_SIPUser = v ''sipUser'', sc_Password = v ''password'', sc_ExpiresAt = t\<rparr>)
     (parse_rfc3339 (v ''expiresAt''))"

definition unmarshal_cred :: "string \<Rightarrow> storedCred option" where
  "unmarshal_cred raw =
     (case json_parse raw of
        Some (JObj ms) \<Rightarrow> Option.bind (fill_fields cred_fields ms cred_zero) cred_of
      | Some JNull \<Rightarrow> cred_of cred_zero
      | _ \<Rightarrow> None)"

definition load_cred :: "'r redis \<Rightarrow> uuid_lib \<Rightarrow> uuid \<Rightarrow> ('r, storedCred) run" where
  "load_cred R U userID =
     bindE (rGet R (credKey U userID)) (\<lambda>val.
       case val of
         None \<Rightarrow> failE ErrNoCreds
       | Some raw \<Rightarrow> (case unmarshal_cred raw of
           None \<Rightarrow> failE (ErrMsg ''invalid stored credential'')
         | Some s \<Rightarrow> retE s))"

definition toConfig :: "'r Provisioner \<Rightarrow> storedCred \<Rightarrow> Config" where
  "toConfig p s =
     \<lparr>cf_WSSURL = (if pv_WSSURL p = [] then ''wss://localhost:7443'' else pv_WSSURL p),
      cf_SIPURI = ''sip:'' @ sc_SIPUser s @ ''@'' @ (if pv_SIPDomain p = [] then ''localhost'' else pv_SIPDomain p),
      cf_Password = sc_Password s,
      cf_ICEServers = (case pv_ICEServers p of None \<Rightarrow> [] | Some ice \<Rightarrow> ice)\<rparr>"

section \<open>Operations\<close>

text \<open>The bytes are drawn by the caller of the model, \<open>None\<close> for a failure of the system's source.\<close>

definition randomPassword :: "string option \<Rightarrow> goerr + string" where
  "randomPassword drawn =
     (case drawn of None \<Rightarrow> Inl (ErrMsg ''rand'') | Some buf \<Rightarrow> Inr (b64_encode RawURL buf))"

definition issue_ttl :: "'r Provisioner \<Rightarrow> time" where
  "issue_ttl p = (if pv_TTL p \<le> 0 then defaultTTL else pv_TTL p)"

definition Issue :: "'r Provisioner \<Rightarrow> uuid \<Rightarrow> string option \<Rightarrow> ('r edge, Config) run" where
  "Issue p userID drawn =
     bindE clock_now (\<lambda>now.
     let sipUser = ''agent-'' @ ustr (pv_uuid p) userID in
     case randomPassword drawn of
       Inl e \<Rightarrow> failE e
     | Inr password \<Rightarrow>
         (let stored = \<lparr>sc_SIPUser = sipUser, sc_Password = password, sc_ExpiresAt = now + issue_ttl p\<rparr> in
          bindE (writeDirectoryUser (pv_DirectoryDir p) sipUser password) (\<lambda>_.
          bindE (wrapE ''reloadxml'' (esl_api (pv_ESL p) ''reloadxml'')) (\<lambda>_.
          case marshal_cred stored of
            Inl e \<Rightarrow> failE e
          | Inr body \<Rightarrow>
              bindE (wrapE ''store cred'' (on_redis (rSet (pv_RDB p) (credKey (pv_uuid p) userID) body (issue_ttl p div second)))) (\<lambda>_.
              retE (toConfig p stored))))))"

definition Revoke :: "'r Provisioner \<Rightarrow> uuid \<Rightarrow> ('r edge, unit) run" where
  "Revoke p userID =
     tryE (on_redis (load_cred (pv_RDB p) (pv_uuid p) userID)) (\<lambda>q.
     let sipUser = (case q of
         Inr s \<Rightarrow> if sc_SIPUser s \<noteq> [] then sc_SIPUser s else ''agent-'' @ ustr (pv_uuid p) userID
       | Inl _ \<Rightarrow> ''agent-'' @ ustr (pv_uuid p) userID) in
     bindE (ignoreE (RemoveFile (directory_path (pv_DirectoryDir p) sipUser))) (\<lambda>_.
     bindE (ignoreE (esl_api (pv_ESL p) ''reloadxml'')) (\<lambda>_.
     bindE (ignoreE (on_redis (rDel (pv_RDB p) (credKey (pv_uuid p) userID)))) (\<lambda>_.
     case pv_Pres p of
       None \<Rightarrow> retE ()
     | Some _ \<Rightarrow> ignoreE (on_redis (Stop (pv_RDB p) (pv_uuid p) userID))))))"

definition Cred_Get :: "'r Provisioner \<Rightarrow> uuid \<Rightarrow> ('r edge, Config) run" where
  "Cred_Get p userID =
     bindE (on_redis (load_cred (pv_RDB p) (pv_uuid p) userID)) (\<lambda>stored.
     bindE clock_now (\<lambda>now.
     if now > sc_ExpiresAt stored
     then bindE (ignoreE (Revoke p userID)) (\<lambda>_. failE ErrNoCreds)
     else retE (toConfig p stored)))"

section \<open>Lemmas\<close>

lemma unmarshal_marshal_cred:
  assumes "marshal_cred s = Inr raw"
  shows "unmarshal_cred raw = Some s"
proof -
  obtain t where t: "time_MarshalJSON (sc_ExpiresAt s) = Inr t"
    and raw: "raw = json_object [(''sipUser'', sc_SIPUser s), (''password'', sc_Password s), (''expiresAt'', t)]"
    using assms by (cases "time_MarshalJSON (sc_ExpiresAt s)") (auto simp: marshal_cred_def)
  let ?kvs = "[(''sipUser'', sc_SIPUser s), (''password'', sc_Password s), (''expiresAt'', t)]"
  have "fill_fields cred_fields (map (\<lambda>(k, v). (k, JStr v)) ?kvs) cred_zero =
      Some (\<lambda>f. case map_of ?kvs f of Some x \<Rightarrow> x | None \<Rightarrow> cred_zero f)"
    by (rule fill_fields_strings) (simp_all add: cred_fields_def)
  moreover have "json_parse raw = Some (JObj (map (\<lambda>(k, v). (k, JStr v)) ?kvs))"
    unfolding raw by (rule json_parse_object) simp
  ultimately show ?thesis
    using time_roundtrip [OF t] by (simp add: unmarshal_cred_def cred_of_def)
qed

text \<open>The text of an attribute cannot end it or open a tag.\<close>

lemma xmlEscapeAttr_safe: "c \<in> set (xmlEscapeAttr s) \<Longrightarrow> c \<noteq> CHR 0x22 \<and> c \<noteq> CHR ''<'' \<and> c \<noteq> CHR ''>''"
  by (induction s) (auto simp: xmlEscapeAttr_def replace_bytes_Cons split: if_splits)

lemma writeDirectoryUser_frame:
  assumes "writeDirectoryUser dir u pw w = (r, w')"
  shows "eg_redis w' = eg_redis w \<and> eg_clock w' = eg_clock w \<and> eg_ticks w' = eg_ticks w"
  using assms unfolding writeDirectoryUser_def MkdirAll_def WriteFile_def
  by (auto simp: bindE_iff wrapE_iff elim!: disk_op_cases)

lemma writeDirectoryUser_run:
  "eg_disk w = [] \<Longrightarrow> writeDirectoryUser dir u pw w =
     (Inr (), w\<lparr>eg_files := AList.update (directory_path dir u) (renderDirectoryXML u pw) (eg_files w)\<rparr>)"
  by (simp add: writeDirectoryUser_def bindE_def wrapE_def MkdirAll_def WriteFile_def disk_op_def)

lemma load_cred_ok:
  assumes "redis_service R view" and "load_cred R U u s = (q, s')"
  shows "view s' = view s \<and> (\<forall>c. q = Inr c \<longrightarrow> (\<exists>raw. view s (credKey U u) = Some raw \<and> unmarshal_cred raw = Some c)) \<and>
    (\<not> isl (fst (rGet R (credKey U u) s)) \<longrightarrow>
      q = (case view s (credKey U u) of None \<Rightarrow> Inl ErrNoCreds
         | Some raw \<Rightarrow> (case unmarshal_cred raw of None \<Rightarrow> Inl (ErrMsg ''invalid stored credential'') | Some c \<Rightarrow> Inr c)))"
proof -
  obtain v s1 where v: "rGet R (credKey U u) s = (v, s1)" by fastforce
  show ?thesis
  proof (cases v)
    case (Inl e)
    then show ?thesis
      using assms(2) v redis_service.get_err [OF assms(1) v [unfolded Inl]] by (auto simp: load_cred_def bindE_def)
  next
    case (Inr x)
    then show ?thesis
      using assms(2) v redis_service.get_ok [OF assms(1) v [unfolded Inr]]
      by (auto simp: load_cred_def bindE_def split: option.splits)
  qed
qed

lemma Issue_stores:
  assumes "redis_service (pv_RDB p) view" and "Issue p u drawn w = (Inr cfg, w')"
  shows "\<exists>c raw. view (eg_redis w') (credKey (pv_uuid p) u) = Some raw \<and> unmarshal_cred raw = Some c \<and> cfg = toConfig p c \<and>
    sc_ExpiresAt c = eg_clock w (eg_ticks w) + issue_ttl p \<and> sc_SIPUser c = ''agent-'' @ ustr (pv_uuid p) u"
proof -
  let ?w1 = "w\<lparr>eg_ticks := Suc (eg_ticks w)\<rparr>"
  obtain buf where buf: "drawn = Some buf"
    using assms(2) by (cases drawn) (auto simp: Issue_def bindE_iff clock_now_def randomPassword_def Let_def)
  define c where "c = \<lparr>sc_SIPUser = ''agent-'' @ ustr (pv_uuid p) u, sc_Password = b64_encode RawURL buf,
      sc_ExpiresAt = eg_clock w (eg_ticks w) + issue_ttl p\<rparr>"
  obtain w2 w3 raw where raw: "marshal_cred c = Inr raw"
    and set: "wrapE ''store cred'' (on_redis (rSet (pv_RDB p) (credKey (pv_uuid p) u) raw (issue_ttl p div second))) w2 = (Inr (), w3)"
    and cfg: "cfg = toConfig p c" "w' = w3"
    using assms(2) buf
    by (auto simp: Issue_def bindE_iff clock_now_def randomPassword_def Let_def c_def split: sum.splits)
  obtain s where s: "rSet (pv_RDB p) (credKey (pv_uuid p) u) raw (issue_ttl p div second) (eg_redis w2) = (Inr (), s)" "eg_redis w3 = s"
    using set by (auto simp: wrapE_Inr_iff on_redis_iff)
  then show ?thesis
    using redis_service.set_ok [OF assms(1) s(1)] unmarshal_marshal_cred [OF raw] cfg by (auto simp: c_def)
qed

text \<open>What an attempt to issue leaves alone: the hub, and every key but the credential's.\<close>

lemma Issue_frame:
  assumes "redis_service (pv_RDB p) view" and "Issue p u drawn w = (r, w')"
  shows "eg_hub w' = eg_hub w \<and> (\<forall>k. k \<noteq> credKey (pv_uuid p) u \<longrightarrow> view (eg_redis w') k = view (eg_redis w) k)"
proof -
  let ?P = "\<lambda>w'. eg_hub w' = eg_hub w \<and> (\<forall>k. k \<noteq> credKey (pv_uuid p) u \<longrightarrow> view (eg_redis w') k = view (eg_redis w) k)"
  have "keeps ?P (writeDirectoryUser d n pw)" for d n pw
    by (rule keepsI) (auto simp: writeDirectoryUser_def bindE_def wrapE_def MkdirAll_def WriteFile_def disk_op_def
        split: list.split option.split)
  moreover have "keeps ?P (esl_api E cmd)" for E cmd by (simp add: keeps_def esl_api_def)
  moreover have "keeps ?P clock_now" by (simp add: keeps_def clock_now_def)
  moreover have "keeps ?P (on_redis (rSet (pv_RDB p) (credKey (pv_uuid p) u) x t))" for x t
  proof (rule keepsI)
    fix w1 :: "'a edge"
    obtain q s where q: "rSet (pv_RDB p) (credKey (pv_uuid p) u) x t (eg_redis w1) = (q, s)" by fastforce
    assume "?P w1"
    then show "?P (snd (on_redis (rSet (pv_RDB p) (credKey (pv_uuid p) u) x t) w1))"
      using q redis_service.set_ok [OF assms(1)] redis_service.set_err [OF assms(1)]
      by (cases q) (fastforce simp: on_redis_def)+
  qed
  ultimately have "keeps ?P (Issue p u drawn)"
    unfolding Issue_def Let_def by (intro keeps_intros) auto
  then show ?thesis using keepsD [of ?P "Issue p u drawn" w] assms(2) by simp
qed

section \<open>Properties\<close>

text \<open>
  C23. A credential is given back as it was issued, to the moment it expires, whatever has happened
  to other keys since; after that moment it is refused.
\<close>

theorem cred_issue_get:
  assumes "redis_service (pv_RDB p) view" and "Issue p u drawn w = (Inr cfg, w')"
    and "view (eg_redis w2) (credKey (pv_uuid p) u) = view (eg_redis w') (credKey (pv_uuid p) u)"
    and "\<not> isl (fst (rGet (pv_RDB p) (credKey (pv_uuid p) u) (eg_redis w2)))" and "Cred_Get p u w2 = (r, w3)"
  shows "if eg_clock w2 (eg_ticks w2) > eg_clock w (eg_ticks w) + issue_ttl p
    then r = Inl ErrNoCreds else r = Inr cfg"
proof -
  obtain c raw where c: "view (eg_redis w') (credKey (pv_uuid p) u) = Some raw" "unmarshal_cred raw = Some c" "cfg = toConfig p c"
      "sc_ExpiresAt c = eg_clock w (eg_ticks w) + issue_ttl p"
    using Issue_stores [OF assms(1, 2)] by blast
  obtain q s where q: "load_cred (pv_RDB p) (pv_uuid p) u (eg_redis w2) = (q, s)" by fastforce
  have "view (eg_redis w2) (credKey (pv_uuid p) u) = Some raw" using assms(3) c(1) by (rule trans)
  then have qc: "q = Inr c"
    using load_cred_ok [OF assms(1) q, THEN conjunct2, THEN conjunct2, rule_format, OF assms(4)] c(2) by simp
  have run: "(if sc_ExpiresAt c < eg_clock w2 (eg_ticks w2)
      then bindE (ignoreE (Revoke p u)) (\<lambda>_. failE ErrNoCreds) else retE (toConfig p c))
      (w2\<lparr>eg_redis := s, eg_ticks := Suc (eg_ticks w2)\<rparr>) = (r, w3)"
    using assms(5) q [unfolded qc] unfolding Cred_Get_def bindE_def on_redis_def clock_now_def by simp
  show ?thesis
  proof (cases "sc_ExpiresAt c < eg_clock w2 (eg_ticks w2)")
    case True
    then have "bindE (ignoreE (Revoke p u)) (\<lambda>_. failE ErrNoCreds) (w2\<lparr>eg_redis := s, eg_ticks := Suc (eg_ticks w2)\<rparr>) = (r, w3)"
      using run by simp
    then have "r = Inl ErrNoCreds" by (auto simp: bindE_iff ignoreE_iff)
    then show ?thesis using True c(4) by simp
  next
    case False
    then show ?thesis using run c(3, 4) by simp
  qed
qed

definition sample_prov :: "mem_redis_state redis \<Rightarrow> mem_redis_state Provisioner" where
  "sample_prov R = \<lparr>pv_ESL = (\<lambda>_ _. Inr ''+OK''), pv_DirectoryDir = ''/d'', pv_WSSURL = [], pv_SIPDomain = [], pv_ICEServers = None,
     pv_TTL = 0, pv_RDB = R, pv_Pres = Some 7200, pv_uuid = ref_uuid\<rparr>"

lemma sample_prov_sel [simp]:
  "pv_ESL (sample_prov R) = (\<lambda>_ _. Inr ''+OK'')" "pv_RDB (sample_prov R) = R" "pv_uuid (sample_prov R) = ref_uuid"
  "issue_ttl (sample_prov R) = defaultTTL"
  by (simp_all add: sample_prov_def issue_ttl_def)

lemma sample_year: "time_MarshalJSON defaultTTL = Inr (format_rfc3339nano defaultTTL)"
proof -
  have "defaultTTL div second div 86400 = 0" by (simp add: defaultTTL_def second_def)
  then show ?thesis by (simp add: time_MarshalJSON_def year_of_def civil_epoch)
qed

lemma sample_issue:
  assumes "R = mem_redis \<or> R = calm_redis" and "mr_faults (eg_redis w) = []" and "eg_disk w = []" and "eg_clock w = (\<lambda>_. 0)"
  shows "\<exists>cfg w'. Issue (sample_prov R) i (Some ''abc'') w = (Inr cfg, w') \<and> mr_faults (eg_redis w') = [] \<and> eg_clock w' = (\<lambda>_. 0)"
proof -
  define c where "c = \<lparr>sc_SIPUser = ''agent-'' @ ustr ref_uuid i, sc_Password = b64_encode RawURL ''abc'', sc_ExpiresAt = defaultTTL\<rparr>"
  obtain raw where raw: "marshal_cred c = Inr raw"
    using sample_year by (simp add: marshal_cred_def c_def)
  have w: "clock_now w = (Inr 0, w\<lparr>eg_ticks := Suc (eg_ticks w)\<rparr>)"
    using assms(4) by (simp add: clock_now_def)
  obtain s where s: "rSet R (credKey ref_uuid i) raw (defaultTTL div second) (eg_redis w) = (Inr (), s)" "mr_faults s = []"
    using mem_redis_ok(2) [OF assms(1, 2), of "credKey ref_uuid i" raw "defaultTTL div second"] assms(2) by simp
  show ?thesis
    using s raw [unfolded c_def] assms(3, 4) unfolding Issue_def bindE_def [of clock_now] w Let_def randomPassword_def
    by (simp add: bindE_def writeDirectoryUser_run wrapE_def esl_api_def on_redis_def)
qed

theorem cred_issue_get_witness:
  "\<exists>cfg w' w3. Issue (sample_prov mem_redis) 5 (Some ''abc'') (edge_init mr_init (db_of empty_tables)) = (Inr cfg, w') \<and>
     Cred_Get (sample_prov mem_redis) 5 w' = (Inr cfg, w3)"
proof -
  obtain cfg w' where i: "Issue (sample_prov mem_redis) 5 (Some ''abc'') (edge_init mr_init (db_of empty_tables)) = (Inr cfg, w')"
    and f: "mr_faults (eg_redis w') = []" "eg_clock w' = (\<lambda>_. 0)" 
    using sample_issue [of mem_redis "edge_init mr_init (db_of empty_tables)" 5] by (auto simp: edge_init_def)
  obtain r w3 where g: "Cred_Get (sample_prov mem_redis) 5 w' = (r, w3)" by fastforce
  have "\<not> isl (fst (rGet mem_redis k (eg_redis w')))" for k using f mem_redis_ok(1) [of mem_redis] by simp
  moreover have "\<not> 0 + defaultTTL < (0::int)" "eg_clock (edge_init mr_init (db_of empty_tables)) = (\<lambda>_. 0)"
    by (simp_all add: defaultTTL_def second_def edge_init_def)
  ultimately show ?thesis
    using cred_issue_get [of "sample_prov mem_redis" mr_keys, OF _ i refl _ g] mem_service i g f by (auto simp: defaultTTL_def second_def)
qed

end
