(* ===== verification/Wallboard.thy ===== *)
theory Wallboard
  imports Inbound_Router
begin

text \<open>
  The supervisors' wallboard, \<open>services/edge/internal/live/wallboard.go\<close>: a snapshot of the agents
  and the calls, read from the presence keys and the meta data of the calls. Both loops follow the
  cursor of \<open>SCAN\<close>, as the search of the inbound router does, and share \<open>scan_loop\<close>.
\<close>

section \<open>Data\<close>

definition TypeLiveSnapshot :: string where
  "TypeLiveSnapshot = ''live.snapshot''"

definition agentKeyPattern :: string where
  "agentKeyPattern = ''agent:*''"

definition callMetaKeyPrefix :: string where
  "callMetaKeyPrefix = ''call:meta:''"

record WallboardCounts =
  wc_Available :: nat
  wc_Paused :: nat
  wc_OnCall :: nat
  wc_Calls :: nat

record WallboardAgent =
  wa_UserID :: string
  wa_State :: string
  wa_CampaignID :: "string option"

record WallboardCall =
  wk_UUID :: string
  wk_AgentID :: string
  wk_To :: string
  wk_CampaignID :: "string option"
  wk_StartedAt :: string

record Wallboard =
  wb_Counts :: WallboardCounts
  wb_Agents :: "WallboardAgent list"
  wb_Calls :: "WallboardCall list"

definition empty_wallboard :: Wallboard where
  "empty_wallboard =
     \<lparr>wb_Counts = \<lparr>wc_Available = 0, wc_Paused = 0, wc_OnCall = 0, wc_Calls = 0\<rparr>, wb_Agents = [], wb_Calls = []\<rparr>"

definition given_id :: "string \<Rightarrow> string option" where
  "given_id s = (if s = [] then None else Some s)"

section \<open>Reading a value\<close>

definition parseAgentPresence :: "string \<Rightarrow> string \<times> string" where
  "parseAgentPresence raw =
     (let bare = (if raw \<in> set [''available'', ''paused'', ''on_call''] then (raw, []) else ([], []))
      in case unmarshal [''state'', ''campaign_id''] raw of
           Some v \<Rightarrow> if v ''state'' \<noteq> [] then (v ''state'', v ''campaign_id'') else bare
         | None \<Rightarrow> bare)"

definition wall_meta_fields :: "string list" where
  "wall_meta_fields = [''agent_id'', ''to'', ''campaign_id'', ''started_at'']"

definition wall_call :: "string \<Rightarrow> string \<Rightarrow> WallboardCall option" where
  "wall_call uuid raw = map_option (\<lambda>v.
     \<lparr>wk_UUID = uuid, wk_AgentID = v ''agent_id'', wk_To = v ''to'', wk_CampaignID = given_id (v ''campaign_id''),
      wk_StartedAt = v ''started_at''\<rparr>) (unmarshal wall_meta_fields raw)"

definition count_state :: "string \<Rightarrow> WallboardCounts \<Rightarrow> WallboardCounts" where
  "count_state state c =
     (if state = ''available'' then c\<lparr>wc_Available := Suc (wc_Available c)\<rparr>
      else if state = ''paused'' then c\<lparr>wc_Paused := Suc (wc_Paused c)\<rparr>
      else if state = ''on_call'' then c\<lparr>wc_OnCall := Suc (wc_OnCall c)\<rparr>
      else c)"

definition add_agent :: "string \<Rightarrow> string \<Rightarrow> string \<Rightarrow> Wallboard \<Rightarrow> Wallboard" where
  "add_agent userID state campaignID wb = wb
     \<lparr>wb_Agents := wb_Agents wb @ [\<lparr>wa_UserID = userID, wa_State = state, wa_CampaignID = given_id campaignID\<rparr>],
      wb_Counts := count_state state (wb_Counts wb)\<rparr>"

definition add_call :: "WallboardCall \<Rightarrow> Wallboard \<Rightarrow> Wallboard" where
  "add_call c wb = wb
     \<lparr>wb_Calls := wb_Calls wb @ [c], wb_Counts := (wb_Counts wb)\<lparr>wc_Calls := Suc (wc_Calls (wb_Counts wb))\<rparr>\<rparr>"

section \<open>Scanning\<close>

fun agents_page :: "'r redis \<Rightarrow> string list \<Rightarrow> Wallboard \<Rightarrow> ('r, Wallboard) run" where
  "agents_page R [] wb = retE wb"
| "agents_page R (key # keys) wb =
     (let userID = trim_prefix key ''agent:'' in
      if userID = key \<or> userID = [] then agents_page R keys wb
      else bindE (rGet R key) (\<lambda>val.
        case val of
          None \<Rightarrow> agents_page R keys wb
        | Some raw \<Rightarrow>
            (case parseAgentPresence raw of (state, campaignID) \<Rightarrow>
               if state = [] then agents_page R keys wb
               else agents_page R keys (add_agent userID state campaignID wb))))"

fun calls_page :: "'r redis \<Rightarrow> string list \<Rightarrow> Wallboard \<Rightarrow> ('r, Wallboard) run" where
  "calls_page R [] wb = retE wb"
| "calls_page R (key # keys) wb =
     (let uuid = trim_prefix key callMetaKeyPrefix in
      if uuid = key \<or> uuid = [] then calls_page R keys wb
      else bindE (rGet R key) (\<lambda>val.
        case val of
          None \<Rightarrow> calls_page R keys wb
        | Some raw \<Rightarrow>
            (case wall_call uuid raw of
               None \<Rightarrow> calls_page R keys wb
             | Some c \<Rightarrow> calls_page R keys (add_call c wb))))"

partial_function (option) scan_loop ::
  "'r redis \<Rightarrow> string \<Rightarrow> (string list \<Rightarrow> 'a \<Rightarrow> ('r, 'a) run) \<Rightarrow> nat \<Rightarrow> 'a \<Rightarrow> 'r \<Rightarrow> ((goerr + 'a) \<times> 'r) option" where
  "scan_loop R pattern f cursor acc s =
     (case rScan R cursor pattern 100 s of
        (Inl e, s1) \<Rightarrow> Some (Inl e, s1)
      | (Inr page, s1) \<Rightarrow>
          (case f (fst page) acc s1 of
             (Inl e, s2) \<Rightarrow> Some (Inl e, s2)
           | (Inr acc', s2) \<Rightarrow>
               if snd page = 0 then Some (Inr acc', s2) else scan_loop R pattern f (snd page) acc' s2))"

definition BuildSnapshot :: "'r redis option \<Rightarrow> ('r, Wallboard) prun" where
  "BuildSnapshot rdb =
     (case rdb of
        None \<Rightarrow> total_run (retE empty_wallboard)
      | Some R \<Rightarrow>
          tryP (scan_loop R agentKeyPattern (agents_page R) 0 empty_wallboard) (\<lambda>q.
            case q of
              Inl e \<Rightarrow> total_run (failE e)
            | Inr wb \<Rightarrow> scan_loop R (callMetaKeyPrefix @ ''*'') (calls_page R) 0 wb))"

section \<open>Lemmas\<close>

lemma trim_prefix_found:
  assumes "trim_prefix key p \<noteq> key"
  shows "key = p @ trim_prefix key p"
  using assms by (auto simp: trim_prefix_def prefix_def split: if_splits)

text \<open>A loop keeps what its pages keep.\<close>

lemma scan_loop_keeps:
  assumes "scan_loop R p f cursor acc s = Some (Inr acc', s')" and "I acc s"
    and "\<And>c n s pg s1 a. rScan R c p n s = (pg, s1) \<Longrightarrow> I a s \<Longrightarrow> I a s1"
    and "\<And>keys a a' s s1. f keys a s = (Inr a', s1) \<Longrightarrow> I a s \<Longrightarrow> I a' s1"
  shows "I acc' s'"
proof -
  have "R' = R \<Longrightarrow> p' = p \<Longrightarrow> f' = f \<Longrightarrow> I acc s \<Longrightarrow> (\<forall>a. fst y = Inr a \<longrightarrow> I a (snd y))"
    if "scan_loop R' p' f' cursor acc s = Some y" for R' p' f' y
    using that
  proof (induction rule: scan_loop.raw_induct [rotated 1, consumes 1, case_names step])
    case (step scan R' p' f' cursor acc s y)
    obtain page s1 where p: "rScan R cursor p 100 s = (page, s1)" by fastforce
    note run = step.hyps [unfolded step.prems(1-3) p] and i1 = assms(3) [OF p step.prems(4)]
    show ?case
    proof (cases page)
      case (Inr pg)
      obtain q s2 where q: "f (fst pg) acc s1 = (q, s2)" by fastforce
      show ?thesis
      proof (cases q)
        case (Inr acc')
        note i2 = assms(4) [OF q [unfolded Inr] i1]
        show ?thesis
        proof (cases "snd pg = 0")
          case False
          then have "scan R p f (snd pg) acc' s2 = Some y" using run \<open>page = Inr pg\<close> q Inr by simp
          then show ?thesis using step.IH [OF _ refl refl refl i2] by blast
        qed (use run \<open>page = Inr pg\<close> q Inr i2 in auto)
      qed (use run \<open>page = Inr pg\<close> q in auto)
    qed (use run in auto)
  qed
  from this [OF assms(1) refl refl refl assms(2)] show ?thesis by simp
qed

lemma scan_loop_returns:
  assumes "scan_ends R rank"
  shows "\<exists>y. scan_loop R p f cursor acc s = Some y"
proof (induction "rank cursor" arbitrary: cursor acc s rule: less_induct)
  case less
  obtain page s1 where p: "rScan R cursor p 100 s = (page, s1)" by fastforce
  obtain q s2 where q: "f (fst (projr page)) acc s1 = (q, s2)" by fastforce
  have "snd pg = 0 \<or> rank (snd pg) < rank cursor" if "page = Inr pg" for pg
    using assms p that unfolding scan_ends_def by blast
  then show ?case
    using less p q by (subst scan_loop.simps) (auto split: sum.splits)
qed

lemma BuildSnapshot_returns:
  assumes "scan_ends R rank"
  shows "BuildSnapshot (Some R) s \<noteq> None"
proof -
  have "ends (scan_loop R p f c acc)" for p and f :: "string list \<Rightarrow> Wallboard \<Rightarrow> ('a, Wallboard) run" and c acc
    unfolding ends_def by (metis scan_loop_returns [OF assms] option.distinct(1))
  then have "ends (BuildSnapshot (Some R))"
    unfolding BuildSnapshot_def by (auto intro!: ends_intros split: sum.split)
  then show ?thesis by (simp add: ends_def)
qed

text \<open>What a snapshot says is so: its counters, its agents, its calls.\<close>

definition wall_counts :: "Wallboard \<Rightarrow> bool" where
  "wall_counts wb \<longleftrightarrow>
     wc_Available (wb_Counts wb) = length (filter (\<lambda>a. wa_State a = StateAvailable) (wb_Agents wb)) \<and>
     wc_Paused (wb_Counts wb) = length (filter (\<lambda>a. wa_State a = StatePaused) (wb_Agents wb)) \<and>
     wc_OnCall (wb_Counts wb) = length (filter (\<lambda>a. wa_State a = StateOnCall) (wb_Agents wb)) \<and>
     wc_Calls (wb_Counts wb) = length (wb_Calls wb)"

definition agent_shown :: "keyspace \<Rightarrow> WallboardAgent \<Rightarrow> bool" where
  "agent_shown m a \<longleftrightarrow> (\<exists>raw v. m (''agent:'' @ wa_UserID a) = Some raw \<and> parsePresence raw = Inr v \<and>
     wa_State a = pvState v \<and> wa_CampaignID a = given_id (pvCampaignID v))"

definition call_shown :: "keyspace \<Rightarrow> WallboardCall \<Rightarrow> bool" where
  "call_shown m c \<longleftrightarrow> (\<exists>raw. m (callMetaKeyPrefix @ wk_UUID c) = Some raw \<and> wall_call (wk_UUID c) raw = Some c)"

definition wall_true :: "keyspace \<Rightarrow> Wallboard \<Rightarrow> bool" where
  "wall_true m wb \<longleftrightarrow> wall_counts wb \<and> (\<forall>a \<in> set (wb_Agents wb). agent_shown m a) \<and> (\<forall>c \<in> set (wb_Calls wb). call_shown m c)"

lemma wall_true_empty: "wall_true m empty_wallboard"
  by (simp add: wall_true_def wall_counts_def empty_wallboard_def)

lemma wall_true_add_agent:
  assumes "wall_true m wb" and "m (''agent:'' @ u) = Some raw" and "parsePresence raw = Inr v"
  shows "wall_true m (add_agent u (pvState v) (pvCampaignID v) wb)"
  using assms by (auto simp: wall_true_def wall_counts_def add_agent_def count_state_def agent_shown_def State_defs)

lemma wall_true_add_call:
  assumes "wall_true m wb" and "m (callMetaKeyPrefix @ u) = Some raw" and "wall_call u raw = Some c"
  shows "wall_true m (add_call c wb)"
  using assms by (auto simp: wall_true_def wall_counts_def add_call_def call_shown_def wall_call_def)

lemma parseAgentPresence_eq:
  "parseAgentPresence raw = (case parsePresence raw of Inl _ \<Rightarrow> ([], []) | Inr v \<Rightarrow> (pvState v, pvCampaignID v))"
  by (auto simp: parseAgentPresence_def parsePresence_def presence_fields_def State_defs Let_def split: option.split)

text \<open>Members of an object that name no field are passed over.\<close>

lemma fill_fields_extra:
  "find_field fs k = None \<Longrightarrow> fill_fields fs ((k, j) # ms) v = fill_fields fs ms v"
  by simp

lemma fill_fields_append:
  "fill_fields fs (xs @ ys) v = Option.bind (fill_fields fs xs v) (fill_fields fs ys)"
  by (induction fs xs v rule: fill_fields.induct) (auto simp: fun_upd_def split: option.splits json.splits)

lemma wall_meta_find:
  "find_field wall_meta_fields ''agent_id'' = Some ''agent_id''" "find_field wall_meta_fields ''to'' = Some ''to''"
  "find_field wall_meta_fields ''campaign_id'' = Some ''campaign_id''"
  "find_field wall_meta_fields ''started_at'' = Some ''started_at''"
  by (simp_all add: find_field_exact wall_meta_fields_def)

lemma wall_meta_other:
  "find_field wall_meta_fields ''carrier_id'' = None" "find_field wall_meta_fields ''lead_id'' = None"
  by (simp_all add: find_field_def wall_meta_fields_def to_lower_def lower_char_def is_upper_def)

lemma fill_omitempty:
  "find_field fs k = Some k \<Longrightarrow> fill_fields fs (map (\<lambda>(k, v). (k, JStr v)) (omitempty k x)) v =
     Some (if x = [] then v else v(k := x))"
  "find_field fs k = None \<Longrightarrow> fill_fields fs (map (\<lambda>(k, v). (k, JStr v)) (omitempty k x)) v = Some v"
  by (simp_all add: omitempty_def)

lemma wall_call_stored:
  "wall_call u (marshal_meta m) = Some \<lparr>wk_UUID = u, wk_AgentID = cm_AgentID m, wk_To = cm_To m,
     wk_CampaignID = given_id (cm_CampaignID m), wk_StartedAt = cm_StartedAt m\<rparr>"
proof -
  let ?kvs = "[(''agent_id'', cm_AgentID m), (''carrier_id'', cm_CarrierID m), (''to'', cm_To m)] @
      omitempty ''campaign_id'' (cm_CampaignID m) @ omitempty ''lead_id'' (cm_LeadID m) @
      omitempty ''started_at'' (cm_StartedAt m)"
  have "json_parse (marshal_meta m) = Some (JObj (map (\<lambda>(k, v). (k, JStr v)) ?kvs))"
    unfolding marshal_meta_def by (rule json_parse_object) simp
  then show ?thesis
    by (simp add: wall_call_def unmarshal_def fill_fields_append wall_meta_find wall_meta_other fill_omitempty given_id_def)
qed

context redis_service begin

lemma agents_page_true:
  "agents_page R keys wb s = (Inr wb', s') \<Longrightarrow> wall_true (view s) wb \<Longrightarrow> view s' = view s \<and> wall_true (view s) wb'"
proof (induction keys arbitrary: wb s)
  case (Cons key keys)
  let ?u = "trim_prefix key ''agent:''"
  show ?case
  proof (cases "?u = key \<or> ?u = []")
    case False
    then have key: "key = ''agent:'' @ ?u" using trim_prefix_found by blast
    obtain x s1 where g: "rGet R key s = (Inr x, s1)"
      and rest: "(case x of None \<Rightarrow> agents_page R keys wb
        | Some raw \<Rightarrow> (case parseAgentPresence raw of (state, campaignID) \<Rightarrow>
            if state = [] then agents_page R keys wb else agents_page R keys (add_agent ?u state campaignID wb))) s1 = (Inr wb', s')"
      using Cons.prems(1) False unfolding agents_page.simps Let_def by (auto simp: bindE_iff split: if_splits)
    note v = get_ok [OF g]
    show ?thesis
    proof (cases "\<exists>raw pv. x = Some raw \<and> parsePresence raw = Inr pv \<and> pvState pv \<noteq> []")
      case True
      then obtain raw pv where r: "x = Some raw" "parsePresence raw = Inr pv" "pvState pv \<noteq> []" by blast
      have "view s (''agent:'' @ ?u) = Some raw" using v key r(1) by metis
      then have w1: "wall_true (view s1) (add_agent ?u (pvState pv) (pvCampaignID pv) wb)"
        using wall_true_add_agent [OF Cons.prems(2) _ r(2)] v by metis
      then show ?thesis using Cons.IH [OF _ w1] rest r v by (simp add: parseAgentPresence_eq)
    next
      case False
      then have "agents_page R keys wb s1 = (Inr wb', s')"
        using rest by (auto simp: parseAgentPresence_eq split: option.splits sum.splits if_splits)
      moreover have "wall_true (view s1) wb" using Cons.prems(2) v by simp
      ultimately show ?thesis using Cons.IH v by metis
    qed
  qed (use Cons in \<open>simp add: Let_def\<close>)
qed simp

lemma calls_page_true:
  "calls_page R keys wb s = (Inr wb', s') \<Longrightarrow> wall_true (view s) wb \<Longrightarrow> view s' = view s \<and> wall_true (view s) wb'"
proof (induction keys arbitrary: wb s)
  case (Cons key keys)
  let ?u = "trim_prefix key callMetaKeyPrefix"
  show ?case
  proof (cases "?u = key \<or> ?u = []")
    case False
    then have key: "key = callMetaKeyPrefix @ ?u" using trim_prefix_found by blast
    obtain x s1 where g: "rGet R key s = (Inr x, s1)"
      and rest: "(case x of None \<Rightarrow> calls_page R keys wb
        | Some raw \<Rightarrow> (case wall_call ?u raw of None \<Rightarrow> calls_page R keys wb | Some c \<Rightarrow> calls_page R keys (add_call c wb))) s1 = (Inr wb', s')"
      using Cons.prems(1) False unfolding calls_page.simps Let_def by (auto simp: bindE_iff split: if_splits)
    note v = get_ok [OF g]
    show ?thesis
    proof (cases "\<exists>raw c. x = Some raw \<and> wall_call ?u raw = Some c")
      case True
      then obtain raw c where r: "x = Some raw" "wall_call ?u raw = Some c" by blast
      have "view s (callMetaKeyPrefix @ ?u) = Some raw" using v key r(1) by metis
      then have w1: "wall_true (view s1) (add_call c wb)"
        using wall_true_add_call [OF Cons.prems(2) _ r(2)] v by metis
      then show ?thesis using Cons.IH [OF _ w1] rest r v by simp
    next
      case False
      then have "calls_page R keys wb s1 = (Inr wb', s')"
        using rest by (auto split: option.splits)
      moreover have "wall_true (view s1) wb" using Cons.prems(2) v by simp
      ultimately show ?thesis using Cons.IH v by metis
    qed
  qed (use Cons in \<open>simp add: Let_def\<close>)
qed simp

lemma scan_loop_true:
  assumes "scan_loop R p f cursor wb s = Some (Inr wb', s')" and "wall_true (view s) wb"
    and "\<And>keys a a' s s1. f keys a s = (Inr a', s1) \<Longrightarrow> wall_true (view s) a \<Longrightarrow> view s1 = view s \<and> wall_true (view s) a'"
  shows "view s' = view s \<and> wall_true (view s) wb'"
proof (rule scan_loop_keeps [OF assms(1)])
  show "view s = view s \<and> wall_true (view s) wb" using assms(2) by simp
next
  fix c n s0 pg s1 a
  assume "rScan R c p n s0 = (pg, s1)" "view s0 = view s \<and> wall_true (view s) a"
  then show "view s1 = view s \<and> wall_true (view s) a" by (metis scan_view)
next
  fix keys a a' s0 s1
  assume "f keys a s0 = (Inr a', s1)" "view s0 = view s \<and> wall_true (view s) a"
  then show "view s1 = view s \<and> wall_true (view s) a'" using assms(3) by metis
qed

end

section \<open>Properties\<close>

text \<open>
  C24. The wallboard's own reader of a presence value agrees with the one of the presence
  component on every text, the malformed ones included, which it shows as no agent.
\<close>

theorem wallboard_presence:
  "parseAgentPresence raw = (case parsePresence raw of Inl _ \<Rightarrow> ([], []) | Inr v \<Rightarrow> (pvState v, pvCampaignID v))"
  by (rule parseAgentPresence_eq)

text \<open>
  A call the dialer has recorded is shown with its agent, number, campaign and start: the
  wallboard reads from the stored meta data what the dialer put there, whatever their texts hold.
\<close>

theorem wallboard_call:
  "wall_call u (marshal_meta m) = Some \<lparr>wk_UUID = u, wk_AgentID = cm_AgentID m, wk_To = cm_To m,
     wk_CampaignID = given_id (cm_CampaignID m), wk_StartedAt = cm_StartedAt m\<rparr>"
  by (rule wall_call_stored)

text \<open>
  C25. A snapshot is true: each agent it lists has this state and campaign in its presence key,
  each call is stored as shown, the counters count the agents and calls of the lists, and
  taking it changes nothing.
\<close>

theorem wallboard_snapshot:
  assumes "redis_service R view" and "BuildSnapshot (Some R) s = Some (Inr wb, s')"
  shows "view s' = view s \<and> wall_true (view s) wb"
proof -
  obtain q s1 where q: "scan_loop R agentKeyPattern (agents_page R) 0 empty_wallboard s = Some (q, s1)"
    and rest: "(case q of Inl e \<Rightarrow> total_run (failE e)
      | Inr wb \<Rightarrow> scan_loop R (callMetaKeyPrefix @ ''*'') (calls_page R) 0 wb) s1 = Some (Inr wb, s')"
    using assms(2) by (auto simp: BuildSnapshot_def tryP_iff)
  then obtain wb1 where r: "scan_loop R agentKeyPattern (agents_page R) 0 empty_wallboard s = Some (Inr wb1, s1)"
    "scan_loop R (callMetaKeyPrefix @ ''*'') (calls_page R) 0 wb1 s1 = Some (Inr wb, s')"
    by (cases q) auto
  have 1: "view s1 = view s \<and> wall_true (view s) wb1"
    by (rule redis_service.scan_loop_true [OF assms(1) r(1) wall_true_empty]) (rule redis_service.agents_page_true [OF assms(1)])
  have "view s' = view s1 \<and> wall_true (view s1) wb"
    by (rule redis_service.scan_loop_true [OF assms(1) r(2)]) (use 1 redis_service.calls_page_true [OF assms(1)] in auto)
  then show ?thesis using 1 by simp
qed

theorem wallboard_snapshot_witness:
  "\<exists>wb s'. BuildSnapshot (Some mem_redis) (in_redis StatePaused) = Some (Inr wb, s') \<and>
     wb_Agents wb = [\<lparr>wa_UserID = ustr ref_uuid 5, wa_State = StatePaused, wa_CampaignID = None\<rparr>] \<and>
     wall_true (mr_keys (in_redis StatePaused)) wb"
proof -
  let ?s = "in_redis StatePaused" and ?wb = "add_agent (ustr ref_uuid 5) StatePaused [] empty_wallboard"
  have g: "rGet mem_redis k ?s = (Inr (mr_keys ?s k), ?s)" for k by simp
  have "ustr ref_uuid 5 \<noteq> Key ref_uuid 5" "ustr ref_uuid 5 \<noteq> []" "StatePaused \<noteq> []"
    by (simp_all add: Key_def StatePaused_def)
  then have a: "agents_page mem_redis [Key ref_uuid 5] empty_wallboard ?s = (Inr ?wb, ?s)"
    by (simp add: Let_def bindE_def g parseAgentPresence_eq)
  have "rScan mem_redis c agentKeyPattern n ?s = (Inr ([Key ref_uuid 5], 0), ?s)" for c n
    unfolding agentKeyPattern_def by (rule in_scan)
  then have l1: "scan_loop mem_redis agentKeyPattern (agents_page mem_redis) 0 empty_wallboard ?s = Some (Inr ?wb, ?s)"
    using a by (subst scan_loop.simps) (simp del: agents_page.simps)
  have "rScan mem_redis c (callMetaKeyPrefix @ ''*'') n ?s = (Inr ([], 0), ?s)" for c n
    by (simp add: mem_redis_def mr_step_def callMetaKeyPrefix_def Key_def)
  then have l2: "scan_loop mem_redis (callMetaKeyPrefix @ ''*'') (calls_page mem_redis) 0 ?wb ?s = Some (Inr ?wb, ?s)"
    by (subst scan_loop.simps) simp
  have b: "BuildSnapshot (Some mem_redis) ?s = Some (Inr ?wb, ?s)"
    using l1 l2 by (simp add: BuildSnapshot_def tryP_def)
  moreover have "wb_Agents ?wb = [\<lparr>wa_UserID = ustr ref_uuid 5, wa_State = StatePaused, wa_CampaignID = None\<rparr>]"
    by (simp add: add_agent_def empty_wallboard_def given_id_def)
  ultimately show ?thesis using wallboard_snapshot [OF mem_service b] by blast
qed

end
