(* ===== verification/Edge_Http.thy ===== *)
theory Edge_Http
  imports Webrtc_Cred Wallboard Api_Auth
begin

text \<open>
  The HTTP and WebSocket endpoints of the edge service,
  \<open>services/edge/internal/httpapi/{agent,calls,ws,ws_live}.go\<close>: agent sessions, outbound calls and
  live events, behind the session cookie of the API.
\<close>

section \<open>The server\<close>

text \<open>
  \<open>as_RDB\<close> is the Redis of the live snapshots, if there is one; \<open>as_PresRDB\<close> and \<open>as_PresTTL\<close> are the
  Redis of the presence and its time to live, in seconds.
\<close>

record 'r AgentServer =
  as_RDB :: "'r redis option"
  as_PresRDB :: "'r redis"
  as_PresTTL :: int
  as_Creds :: "'r Provisioner"
  as_Dialer :: "'r Manual option"
  as_HasHub :: bool
  as_CORS :: "string list"
  as_RequireAdmin2FA :: bool
  as_uuid :: uuid_lib
  as_crypto :: crypto

datatype edge_body =
    SessionStarted Config
  | StateSet State
  | WebRTCConfig Config
  | CallPlaced string uuid string
  | EdgeOk

type_synonym 'r edge_handler = "('r edge, edge_body) handler"

section \<open>Cross-origin requests\<close>

text \<open>The headers that are set, and whether the request goes on to its handler.\<close>

definition CORSMiddleware :: "string list \<Rightarrow> string \<Rightarrow> string \<Rightarrow> (string \<times> string) list \<times> bool" where
  "CORSMiddleware origins origin meth =
     (if origin \<in> set origins then
        [(''Access-Control-Allow-Origin'', origin), (''Access-Control-Allow-Credentials'', ''true''),
         (''Access-Control-Allow-Headers'', ''Content-Type''), (''Access-Control-Allow-Methods'', ''GET, POST, OPTIONS''),
         (''Vary'', ''Origin'')]
      else [], meth \<noteq> ''OPTIONS'')"

definition checkWSOrigin :: "string list \<Rightarrow> string \<Rightarrow> bool" where
  "checkWSOrigin origins origin \<longleftrightarrow> origin = [] \<or> (\<exists>o' \<in> set origins. o' = origin \<or> o' = ''*'')"

section \<open>Sessions\<close>

text \<open>The query reads neither \<open>display_name\<close> nor \<open>disabled_at\<close>.\<close>

definition edge_lookupUser :: "crypto \<Rightarrow> string \<Rightarrow> ('r edge, User) run" where
  "edge_lookupUser C plain = edge_db (query_row (\<lambda>t now.
     map (\<lambda>u. u\<lparr>u_DisplayName := None, u_DisabledAt := None\<rparr>) (session_users (HashToken C plain) t now)))"

definition edge_totp_required :: "'r AgentServer \<Rightarrow> User \<Rightarrow> bool" where
  "edge_totp_required S user \<longleftrightarrow> as_RequireAdmin2FA S \<and> u_Role user = UserRoleAdmin \<and> \<not> u_TOTPEnabled user"

definition withAuth :: "'r AgentServer \<Rightarrow> string \<Rightarrow> (User \<Rightarrow> ('r edge, 'b) handler) \<Rightarrow> ('r edge, 'b) handler" where
  "withAuth S cookie next' =
     (if cookie = [] then failH 401 ''unauthorized''
      else callH (edge_lookupUser (as_crypto S) cookie) (\<lambda>_. failH 401 ''unauthorized'') (\<lambda>user.
        if edge_totp_required S user then failH 403 ''totp_setup_required'' else next' user))"

definition withSupervisorAuth :: "'r AgentServer \<Rightarrow> string \<Rightarrow> (User \<Rightarrow> ('r edge, 'b) handler) \<Rightarrow> ('r edge, 'b) handler" where
  "withSupervisorAuth S cookie next' =
     (if cookie = [] then failH 401 ''unauthorized''
      else callH (edge_lookupUser (as_crypto S) cookie) (\<lambda>_. failH 401 ''unauthorized'') (\<lambda>user.
        if u_Role user \<noteq> UserRoleAdmin \<and> u_Role user \<noteq> UserRoleSupervisor then failH 403 ''forbidden''
        else if edge_totp_required S user then failH 403 ''totp_setup_required''
        else next' user))"

section \<open>Live events\<close>

text \<open>A broadcast, after which the handler goes on; one on a closed channel would panic.\<close>

definition broadcast :: "'r AgentServer \<Rightarrow> string \<Rightarrow> Event \<Rightarrow> 'r edge_handler \<Rightarrow> 'r edge_handler" where
  "broadcast S userID ev k =
     (if \<not> as_HasHub S then k
      else (\<lambda>w. case Broadcast userID ev (eg_hub w) of
                  None \<Rightarrow> (Panicked, w)
                | Some h \<Rightarrow> k (w\<lparr>eg_hub := h\<rparr>)))"

definition agent_event :: "string \<Rightarrow> string \<Rightarrow> Event" where
  "agent_event userID state =
     \<lparr>ev_Type = TypeAgentState, ev_Payload = [''user_id'' \<mapsto> userID, ''agent_id'' \<mapsto> userID, ''state'' \<mapsto> state]\<rparr>"

definition publishAgentState :: "'r AgentServer \<Rightarrow> string \<Rightarrow> string \<Rightarrow> 'r edge_handler \<Rightarrow> 'r edge_handler" where
  "publishAgentState S userID state k = broadcast S userID (agent_event userID state) k"

definition call_event :: "string \<Rightarrow> (string \<rightharpoonup> string) \<Rightarrow> Event" where
  "call_event userID payload =
     (let p = payload(''user_id'' \<mapsto> userID)
      in \<lparr>ev_Type = TypeCallState, ev_Payload = (if p ''agent_id'' = None then p(''agent_id'' \<mapsto> userID) else p)\<rparr>)"

definition publishCallState :: "'r AgentServer \<Rightarrow> string \<Rightarrow> (string \<rightharpoonup> string) \<Rightarrow> 'r edge_handler \<Rightarrow> 'r edge_handler" where
  "publishCallState S userID payload k = broadcast S userID (call_event userID payload) k"

section \<open>Agent sessions\<close>

definition handleStart :: "'r AgentServer \<Rightarrow> User \<Rightarrow> string option \<Rightarrow> 'r edge_handler" where
  "handleStart S user drawn =
     callH (on_redis (Start (as_PresRDB S) (as_uuid S) (as_PresTTL S) (u_ID user))) (\<lambda>_. internal_error) (\<lambda>_.
     callH (Issue (as_Creds S) (u_ID user) drawn)
       (\<lambda>_. ignoreH (on_redis (Stop (as_PresRDB S) (as_uuid S) (u_ID user))) internal_error)
       (\<lambda>cfg. publishAgentState S (ustr (as_uuid S) (u_ID user)) StateAvailable
          (replyH 200 (SessionStarted cfg))))"

definition handleStop :: "'r AgentServer \<Rightarrow> User \<Rightarrow> 'r edge_handler" where
  "handleStop S user =
     ignoreH (Revoke (as_Creds S) (u_ID user))
       (callH (on_redis (Stop (as_PresRDB S) (as_uuid S) (u_ID user))) (\<lambda>_. internal_error) (\<lambda>_.
        publishAgentState S (ustr (as_uuid S) (u_ID user)) ''offline'' (replyH 200 EdgeOk)))"

text \<open>The body is the state, empty when it names none.\<close>

definition handleState :: "'r AgentServer \<Rightarrow> User \<Rightarrow> State option \<Rightarrow> 'r edge_handler" where
  "handleState S user body =
     (case body of
        None \<Rightarrow> failH 400 ''invalid_json''
      | Some state \<Rightarrow>
          callH (on_redis (SetState (as_PresRDB S) (as_uuid S) (as_PresTTL S) (u_ID user) state))
            (\<lambda>e. if errors_is e ErrInvalidState then failH 400 ''invalid_state''
                 else if errors_is e ErrPresenceNotFound then failH 409 ''session_not_started''
                 else internal_error)
            (\<lambda>_. publishAgentState S (ustr (as_uuid S) (u_ID user)) state (replyH 200 (StateSet state))))"

definition handleWebRTCConfig :: "'r AgentServer \<Rightarrow> User \<Rightarrow> 'r edge_handler" where
  "handleWebRTCConfig S user =
     callH (Cred_Get (as_Creds S) (u_ID user))
       (\<lambda>e. if errors_is e ErrNoCreds then failH 409 ''session_not_started'' else internal_error)
       (\<lambda>cfg. replyH 200 (WebRTCConfig cfg))"

section \<open>Calls\<close>

record outboundBody =
  ob_To :: string
  ob_CallerID :: string
  ob_CampaignID :: string
  ob_LeadID :: string

definition writeOutboundError :: "goerr \<Rightarrow> 'r edge_handler" where
  "writeOutboundError e =
     (if errors_is e ErrInvalidE164 then failH 400 ''invalid_e164''
      else if errors_is e ErrCarrierCapacity then failH 429 ''carrier_capacity''
      else internal_error)"

text \<open>An id of the body: none, a UUID, or a text that is not one (\<open>Inl\<close>).\<close>

definition body_id :: "uuid_lib \<Rightarrow> string \<Rightarrow> unit + uuid option" where
  "body_id U s = (if s = [] then Inr None else case uparse U s of None \<Rightarrow> Inl () | Some i \<Rightarrow> Inr (Some i))"

definition handleOutbound :: "'r AgentServer \<Rightarrow> User \<Rightarrow> outboundBody option \<Rightarrow> 'r edge_handler" where
  "handleOutbound S user body =
     (case as_Dialer S of
        None \<Rightarrow> failH 503 ''dialer_unavailable''
      | Some m \<Rightarrow>
          (case body of
             None \<Rightarrow> failH 400 ''invalid_json''
           | Some b \<Rightarrow>
               (case body_id (as_uuid S) (ob_CampaignID b) of
                  Inl _ \<Rightarrow> failH 400 ''invalid_campaign_id''
                | Inr campaign \<Rightarrow>
                    (case body_id (as_uuid S) (ob_LeadID b) of
                       Inl _ \<Rightarrow> failH 400 ''invalid_lead_id''
                     | Inr lead \<Rightarrow>
                         callH (Originate m \<lparr>or_AgentID = u_ID user, or_To = ob_To b, or_CallerID = ob_CallerID b,
                                   or_CampaignID = campaign, or_LeadID = lead\<rparr>)
                           writeOutboundError
                           (\<lambda>res. publishCallState S (ustr (as_uuid S) (u_ID user))
                              [''call_uuid'' \<mapsto> ores_CallUUID res, ''carrier_id'' \<mapsto> ustr (as_uuid S) (ores_CarrierID res),
                               ''to'' \<mapsto> ores_To res, ''state'' \<mapsto> ''active'']
                              (replyH 200 (CallPlaced (ores_CallUUID res) (ores_CarrierID res) (ores_To res))))))))"

text \<open>A body that cannot be decoded counts as one without a call.\<close>

definition handleHangup :: "'r AgentServer \<Rightarrow> User \<Rightarrow> string option \<Rightarrow> 'r edge_handler" where
  "handleHangup S user body =
     (case as_Dialer S of
        None \<Rightarrow> failH 503 ''dialer_unavailable''
      | Some m \<Rightarrow>
          (let call = (case body of None \<Rightarrow> [] | Some c \<Rightarrow> c) in
           callH (Hangup m (u_ID user) call)
             (\<lambda>e. if errors_is e ErrNoActiveCall then failH 409 ''no_active_call''
                  else if errors_is e ErrCallNotFound then failH 404 ''call_not_found''
                  else if errors_is e ErrCallForbidden then failH 403 ''forbidden''
                  else internal_error)
             (\<lambda>_. publishCallState S (ustr (as_uuid S) (u_ID user))
                [''call_uuid'' \<mapsto> call, ''state'' \<mapsto> ''ended''] (replyH 200 EdgeOk))))"

section \<open>The live socket of an agent\<close>

definition TypeHeartbeat :: string where
  "TypeHeartbeat = ''heartbeat''"

text \<open>
  What happens while the socket is open, in order: the browser goes away (\<open>WsDone\<close>), the request is
  cancelled, an event is waiting, the ticker fires, or another goroutine uses the hub. The list
  \<open>frames\<close> holds what was written; \<open>sent n\<close> says whether the write after \<open>n\<close> frames succeeds.
\<close>

datatype ws_input = WsDone | WsCancelled | WsEvent | WsTick time | WsOther hub_op

definition hello_event :: "string \<Rightarrow> string \<Rightarrow> Event" where
  "hello_event userID email =
     \<lparr>ev_Type = TypeAgentState,
      ev_Payload = [''user_id'' \<mapsto> userID, ''agent_id'' \<mapsto> userID, ''state'' \<mapsto> ''subscribed'', ''email'' \<mapsto> email]\<rparr>"

definition heartbeat_event :: "time \<Rightarrow> Event" where
  "heartbeat_event t = \<lparr>ev_Type = TypeHeartbeat, ev_Payload = [''ts'' \<mapsto> format_rfc3339 t]\<rparr>"

fun ws_loop :: "(nat \<Rightarrow> bool) \<Rightarrow> chan \<Rightarrow> ws_input list \<Rightarrow> Event list \<Rightarrow> Hub \<Rightarrow> (Event list \<times> Hub) option" where
  "ws_loop sent ch [] frames h = Some (frames, h)"
| "ws_loop sent ch (WsDone # xs) frames h = Some (frames, h)"
| "ws_loop sent ch (WsCancelled # xs) frames h = Some (frames, h)"
| "ws_loop sent ch (WsEvent # xs) frames h =
     (case h_bufs h ch of
        [] \<Rightarrow> if h_closed h ch then Some (frames, h) else ws_loop sent ch xs frames h
      | ev # _ \<Rightarrow>
          if sent (length frames) then ws_loop sent ch xs (frames @ [ev]) (receive ch h)
          else Some (frames, receive ch h))"
| "ws_loop sent ch (WsTick t # xs) frames h =
     (if sent (length frames) then ws_loop sent ch xs (frames @ [heartbeat_event t]) h else Some (frames, h))"
| "ws_loop sent ch (WsOther x # xs) frames h =
     (case hub_step x h of None \<Rightarrow> None | Some h' \<Rightarrow> ws_loop sent ch xs frames h')"

definition serveWS :: "(nat \<Rightarrow> bool) \<Rightarrow> string \<Rightarrow> string \<Rightarrow> ws_input list \<Rightarrow> Hub \<Rightarrow> (Event list \<times> Hub) option" where
  "serveWS sent userID email xs h =
     (case Subscribe userID h of (ch, h1) \<Rightarrow>
        let frames = (if sent 0 then [hello_event userID email] else []) in
        (case ws_loop sent ch xs frames h1 of
           None \<Rightarrow> None
         | Some (frames', h2) \<Rightarrow> map_option (\<lambda>h3. (frames', h3)) (Unsubscribe userID ch h2)))"

text \<open>
  The answer to the request: an error, a handshake that the library refuses, or a socket and the
  frames written to it. \<open>handshake\<close> says whether the library finds nothing wrong but perhaps the origin.
\<close>

datatype 'f ws_answer = WsError nat string | WsRefused | WsServed "'f list"

definition handleWS ::
    "'r AgentServer \<Rightarrow> string \<Rightarrow> bool \<Rightarrow> (nat \<Rightarrow> bool) \<Rightarrow> User \<Rightarrow> ws_input list \<Rightarrow> Hub \<Rightarrow> (Event ws_answer \<times> Hub) option" where
  "handleWS S origin handshake sent user xs h =
     (if \<not> as_HasHub S then Some (WsError 503 ''live_unavailable'', h)
      else if \<not> (handshake \<and> checkWSOrigin (as_CORS S) origin) then Some (WsRefused, h)
      else map_option (\<lambda>(frames, h'). (WsServed frames, h'))
             (serveWS sent (ustr (as_uuid S) (u_ID user)) (u_Email user) xs h))"

text \<open>The live socket of a supervisor: a snapshot at once, and one at every tick, until one fails.\<close>

datatype live_input = LiveDone | LiveCancelled | LiveTick

fun live_loop :: "'r redis \<Rightarrow> (nat \<Rightarrow> bool) \<Rightarrow> live_input list \<Rightarrow> Wallboard list \<Rightarrow> 'r \<Rightarrow> (Wallboard list \<times> 'r) option" where
  "live_loop R sent [] frames s = Some (frames, s)"
| "live_loop R sent (LiveDone # xs) frames s = Some (frames, s)"
| "live_loop R sent (LiveCancelled # xs) frames s = Some (frames, s)"
| "live_loop R sent (LiveTick # xs) frames s =
     (case BuildSnapshot (Some R) s of
        None \<Rightarrow> None
      | Some (Inl _, s') \<Rightarrow> Some (frames, s')
      | Some (Inr wb, s') \<Rightarrow>
          if sent (length frames) then live_loop R sent xs (frames @ [wb]) s' else Some (frames, s'))"

definition handleLiveWS ::
    "'r AgentServer \<Rightarrow> string \<Rightarrow> bool \<Rightarrow> (nat \<Rightarrow> bool) \<Rightarrow> live_input list \<Rightarrow> 'r \<Rightarrow> (Wallboard ws_answer \<times> 'r) option" where
  "handleLiveWS S origin handshake sent xs s =
     (case as_RDB S of
        None \<Rightarrow> Some (WsError 503 ''live_unavailable'', s)
      | Some R \<Rightarrow>
          if \<not> (handshake \<and> checkWSOrigin (as_CORS S) origin) then Some (WsRefused, s)
          else map_option (\<lambda>(frames, s'). (WsServed frames, s')) (live_loop R sent (LiveTick # xs) [] s))"

section \<open>Lemmas\<close>

fun ws_others :: "ws_input list \<Rightarrow> hub_op list" where
  "ws_others [] = []"
| "ws_others (WsOther x # xs) = x # ws_others xs"
| "ws_others (_ # xs) = ws_others xs"

text \<open>What a socket may write: its greeting, heartbeats, and the events broadcast to its user.\<close>

definition ws_frame :: "string \<Rightarrow> string \<Rightarrow> hub_op list \<Rightarrow> Event \<Rightarrow> bool" where
  "ws_frame u email ops ev \<longleftrightarrow> ev = hello_event u email \<or> (\<exists>t. ev = heartbeat_event t) \<or> Cast u ev \<in> set ops"

text \<open>A channel that belongs to one user, with that user's events in it.\<close>

definition own_channel :: "string \<Rightarrow> chan \<Rightarrow> (Event \<Rightarrow> bool) \<Rightarrow> Hub \<Rightarrow> bool" where
  "own_channel u ch P h \<longleftrightarrow> hub_inv h \<and> ch < h_made h \<and> (\<forall>v. ch \<in> set (subs_of h v) \<longrightarrow> v = u) \<and> (\<forall>ev \<in> set (h_bufs h ch). P ev)"

lemma set_send_all: "set (send_all cap chs ev b ch) \<subseteq> insert ev (set (b ch))"
  by (induction cap chs ev b rule: send_all.induct) (auto split: if_splits)

lemma Unsubscribe_bufs: "Unsubscribe u ch h = Some h' \<Longrightarrow> h_bufs h' = h_bufs h"
  by (auto simp: Unsubscribe_def Let_def split: option.splits if_splits)

lemma own_channel_step:
  assumes "own_channel u ch P h" and "\<And>ev. x = Cast u ev \<Longrightarrow> P ev"
  shows "\<exists>h'. hub_step x h = Some h' \<and> own_channel u ch P h' \<and> (h_made h', subscribed h') = spec_step x (h_made h, subscribed h)"
proof -
  have inv: "hub_inv h" using assms(1) by (simp add: own_channel_def)
  obtain h' where h': "hub_step x h = Some h'" "hub_inv h'" "(h_made h', subscribed h') = spec_step x (h_made h, subscribed h)"
    using hub_step_spec [OF inv] by blast
  have s: "ch \<in> set (subs_of k v) \<longleftrightarrow> (v, ch) \<in> subscribed k" for k v by (simp add: subscribed_def)
  have "ch < h_made h' \<and> (\<forall>v. ch \<in> set (subs_of h' v) \<longrightarrow> v = u)"
    using h'(3) assms(1) unfolding s own_channel_def by (cases x) auto
  moreover have "\<forall>ev \<in> set (h_bufs h' ch). P ev"
  proof (cases x)
    case (Cast v ev)
    then have b: "h_bufs h' = send_all (h_bufSize h) (subs_of h v) ev (h_bufs h)"
      using h'(1) hub_inv_Broadcast(1) [OF inv, of v ev] by auto
    show ?thesis
    proof (cases "ch \<in> set (subs_of h v)")
      case True
      then have "v = u" using assms(1) by (auto simp: own_channel_def)
      then show ?thesis using b Cast assms set_send_all [of "h_bufSize h" "subs_of h v" ev "h_bufs h" ch] by (auto simp: own_channel_def)
    next
      case False
      then show ?thesis using b assms(1) by (simp add: send_all_other own_channel_def)
    qed
  next
    case (Recv c)
    then show ?thesis using h'(1) assms(1) by (auto simp: receive_def own_channel_def dest: list.set_sel(2) [rotated] split: if_splits)
       (metis list.set_sel(2) tl_Nil)
  qed (use h'(1) assms(1) in \<open>auto simp: Subscribe_def Let_def own_channel_def dest: Unsubscribe_bufs\<close>)
  ultimately show ?thesis using h' by (auto simp: own_channel_def)
qed

lemma own_channel_receive:
  assumes "own_channel u ch P h"
  shows "own_channel u ch P (receive ch h) \<and> h_made (receive ch h) = h_made h \<and> subscribed (receive ch h) = subscribed h"
  using own_channel_step [OF assms, of "Recv ch"] by auto

lemma ws_loop_spec:
  assumes "own_channel u ch P h" and "\<forall>ev. Cast u ev \<in> set (ws_others xs) \<longrightarrow> P ev" and "\<forall>t. P (heartbeat_event t)"
    and "\<forall>ev \<in> set frames. P ev"
  shows "\<exists>frames' h' ys. ws_loop sent ch xs frames h = Some (frames', h') \<and> own_channel u ch P h' \<and> (\<forall>ev \<in> set frames'. P ev) \<and>
    prefix ys (ws_others xs) \<and> (h_made h', subscribed h') = fold spec_step ys (h_made h, subscribed h)"
  using assms
proof (induction sent ch xs frames h rule: ws_loop.induct)
  case (4 sent ch xs frames h)
  show ?case
  proof (cases "h_bufs h ch")
    case Nil
    show ?thesis
    proof (cases "h_closed h ch")
      case True
      then show ?thesis using 4 Nil by (intro exI [of _ frames] exI [of _ h] exI [of _ "[]"]) simp
    next
      case False
      then show ?thesis using 4(1) [OF Nil False] 4(3-) Nil by simp
    qed
  next
    case (Cons ev r)
    note rc = own_channel_receive [OF "4.prems"(1)]
    have ev: "P ev" using "4.prems"(1) Cons by (simp add: own_channel_def)
    show ?thesis
    proof (cases "sent (length frames)")
      case True
      then show ?thesis using 4(2) [OF Cons True] 4(4-) Cons ev rc by simp
    next
      case False
      then show ?thesis using rc 4(6) Cons "4.prems" by (intro exI [of _ frames] exI [of _ "receive ch h"] exI [of _ "[]"]) simp
    qed
  qed
next
  case (5 sent ch t xs frames h)
  then show ?case
    by (cases "sent (length frames)") (auto intro: exI [of _ frames] exI [of _ h] exI [of _ "[]"])
next
  case (6 sent ch x xs frames h)
  obtain h1 where h1: "hub_step x h = Some h1" "own_channel u ch P h1" "(h_made h1, subscribed h1) = spec_step x (h_made h, subscribed h)"
    using own_channel_step [OF "6.prems"(1), of x] "6.prems"(2) by auto
  obtain frames' h' ys where "ws_loop sent ch xs frames h1 = Some (frames', h')" "own_channel u ch P h'" "\<forall>ev \<in> set frames'. P ev"
    "prefix ys (ws_others xs)" "(h_made h', subscribed h') = fold spec_step ys (h_made h1, subscribed h1)"
    using "6.IH" [OF h1(1, 2)] "6.prems" by auto
  then show ?case using h1 by (intro exI [of _ frames'] exI [of _ h'] exI [of _ "x # ys"]) simp
qed (auto intro: exI [of _ "[]"])

text \<open>A request that has only read the database.\<close>

definition untouched :: "'r edge \<Rightarrow> 'r edge \<Rightarrow> bool" where
  "untouched w w' \<longleftrightarrow> (\<exists>s. w' = w\<lparr>eg_db := s\<rparr> \<and> tabs s = tabs (eg_db w))"

text \<open>A user as the query of the edge returns it.\<close>

definition masked :: "User \<Rightarrow> User" where
  "masked u = u\<lparr>u_DisplayName := None, u_DisabledAt := None\<rparr>"

lemma masked_sel [simp]:
  "u_ID (masked u) = u_ID u" "u_Role (masked u) = u_Role u" "u_TOTPEnabled (masked u) = u_TOTPEnabled u"
  "u_DisabledAt (masked u) = None"
  by (simp_all add: masked_def)

lemma edge_totp_masked [simp]: "edge_totp_required S (masked u) \<longleftrightarrow> edge_totp_required S u"
  by (simp add: edge_totp_required_def)

lemma session_users_of: "u \<in> set (session_users h t now) \<longleftrightarrow> session_of t now h u"
  unfolding session_users_def session_of_def by (auto split: if_split_asm) (metis (mono_tags, lifting) IntI mem_Collect_eq)

lemma edge_lookup_cases:
  assumes "edge_lookupUser C tok w = (r, w')"
  shows "untouched w w' \<and> (\<forall>u. r = Inr u \<longrightarrow> (\<exists>v. u = masked v \<and> session_of (tabs (eg_db w)) (db_now (eg_db w)) (HashToken C tok) v))"
proof -
  let ?q = "query_row (\<lambda>t now. map (\<lambda>u. u\<lparr>u_DisplayName := None, u_DisabledAt := None\<rparr>) (session_users (HashToken C tok) t now))"
  obtain s where s: "?q (eg_db w) = (r, s)" "w' = w\<lparr>eg_db := s\<rparr>"
    using assms by (auto simp: edge_lookupUser_def edge_db_iff)
  have "\<exists>v. u = masked v \<and> session_of (tabs (eg_db w)) (db_now (eg_db w)) (HashToken C tok) v" if "r = Inr u" for u
  proof -
    have su: "?q (eg_db w) = (Inr u, s)" using s(1) that by simp
    obtain us where us: "map masked (session_users (HashToken C tok) (tabs (eg_db w)) (db_now (eg_db w))) = u # us"
      using query_row_ok [OF su, THEN conjunct1] unfolding masked_def [abs_def] by (elim exE)
    have "u \<in> masked ` set (session_users (HashToken C tok) (tabs (eg_db w)) (db_now (eg_db w)))"
      using us by (metis list.set_intros(1) list.set_map)
    then show ?thesis by (auto simp: session_users_of)
  qed
  then show ?thesis using s query_row_tabs [OF s(1)] by (auto simp: untouched_def)
qed

text \<open>The dialer does not touch the hub.\<close>

lemma keeps_hub:
  "keeps (\<lambda>w. eg_hub w = h) (on_redis m)" "keeps (\<lambda>w. eg_hub w = h) (edge_db d)" "keeps (\<lambda>w. eg_hub w = h) (esl_api E cmd)"
  "keeps (\<lambda>w. eg_hub w = h) clock_now" "keeps (\<lambda>w. eg_hub w = h) new_uuid"
  by (auto simp: keeps_def on_redis_def edge_db_def esl_api_def clock_now_def new_uuid_def split: prod.splits)

lemma connected_hub: "keeps (\<lambda>w. eg_hub w = h) (connected m req i k)"
  unfolding connected_def trackCall_def Let_def by (intro keeps_intros keeps_hub keeps_ignoreE)

lemma try_carriers_hub: "keeps (\<lambda>w. eg_hub w = h) (try_carriers m req now a e n cs)"
proof (induction cs arbitrary: e n)
  case Nil
  show ?case unfolding try_carriers.simps by (intro keeps_intros)
next
  case (Cons c cs)
  show ?case unfolding try_carriers.simps Let_def by (intro keeps_intros keeps_hub connected_hub Cons.IH)
qed

lemma Originate_hub:
  assumes "m_Carriers m = ListOrdered" and "Originate m req w = (r, w')"
  shows "eg_hub w' = eg_hub w"
proof -
  have "keeps (\<lambda>w'. eg_hub w' = eg_hub w) (Originate m req)"
    unfolding Originate_def assms(1) ListOrdered_def by (intro keeps_intros keeps_hub try_carriers_hub)
  then show ?thesis using keepsD [of "\<lambda>w'. eg_hub w' = eg_hub w" "Originate m req" w] assms(2) by simp
qed

text \<open>The socket once it is open.\<close>

lemma serveWS_spec:
  assumes "hub_inv h" and "h_bufs h (h_made h) = []"
  shows "\<exists>frames h' ys. serveWS sent u email xs h = Some (frames, h') \<and> hub_inv h' \<and>
    (\<forall>ev \<in> set frames. ws_frame u email (ws_others xs) ev) \<and> prefix ys (ws_others xs) \<and>
    (h_made h', subscribed h') = spec_step (Unsub u (h_made h)) (fold spec_step ys (spec_step (Sub u) (h_made h, subscribed h))) \<and>
    (\<forall>v. (v, h_made h) \<notin> subscribed h')"
proof -
  let ?P = "ws_frame u email (ws_others xs)" and ?ch = "h_made h" and ?h1 = "snd (Subscribe u h)"
  have sub1: "fst (Subscribe u h) = ?ch" by (simp add: Subscribe_def Let_def)
  have new: "?ch \<notin> set (subs_of h v)" for v using hub_invD(5) [OF assms(1)] by blast
  obtain s1: "hub_inv ?h1" and s2: "(h_made ?h1, subscribed ?h1) = spec_step (Sub u) (h_made h, subscribed h)"
    using hub_step_spec [OF assms(1), of "Sub u"] hub_inv_Subscribe [OF assms(1)] by simp
  have "own_channel u ?ch ?P ?h1"
    using s1 assms(2) new by (simp add: own_channel_def) (simp add: Subscribe_def Let_def)
  then obtain frames h2 ys where l: "ws_loop sent ?ch xs (if sent 0 then [hello_event u email] else []) ?h1 = Some (frames, h2)"
    "own_channel u ?ch ?P h2" "\<forall>ev \<in> set frames. ?P ev" "prefix ys (ws_others xs)"
    "(h_made h2, subscribed h2) = fold spec_step ys (h_made ?h1, subscribed ?h1)"
    using ws_loop_spec [of u ?ch ?P ?h1 xs "if sent 0 then [hello_event u email] else []" sent] by (auto simp: ws_frame_def)
  have inv2: "hub_inv h2" using l(2) by (simp add: own_channel_def)
  obtain h3 where h3: "Unsubscribe u ?ch h2 = Some h3" "hub_inv h3" "(h_made h3, subscribed h3) = spec_step (Unsub u ?ch) (h_made h2, subscribed h2)"
    using hub_step_spec [OF inv2, of "Unsub u ?ch"] by auto
  have "(v, ?ch) \<notin> subscribed h3" for v
    using h3(3) l(2) by (auto simp: own_channel_def subscribed_def)
  moreover have "serveWS sent u email xs h = Some (frames, h3)"
    using l(1) h3(1) by (simp add: serveWS_def Let_def case_prod_unfold sub1)
  moreover have "(h_made h3, subscribed h3) = spec_step (Unsub u ?ch) (fold spec_step ys (spec_step (Sub u) (h_made h, subscribed h)))"
    by (rule trans [OF h3(3) arg_cong [OF trans [OF l(5) arg_cong [OF s2, of "fold spec_step ys"]], of "spec_step (Unsub u ?ch)"]])
  ultimately show ?thesis
    using l(3, 4) h3(2) by (intro exI [of _ frames] exI [of _ h3] exI [of _ ys] conjI allI) assumption+
qed

section \<open>A sample\<close>

definition sample_server :: "mem_redis_state redis \<Rightarrow> mem_redis_state AgentServer" where
  "sample_server R = \<lparr>as_RDB = Some R, as_PresRDB = R, as_PresTTL = 7200, as_Creds = sample_prov R, as_Dialer = Some (sample_dialer R),
     as_HasHub = True, as_CORS = [], as_RequireAdmin2FA = True, as_uuid = ref_uuid, as_crypto = ref_crypto\<rparr>"

definition disabled_db :: dbst where
  "disabled_db = db_of (empty_tables\<lparr>users := [(demo_user UserRoleAgent)\<lparr>u_DisabledAt := Some 1\<rparr>], sessions :=
     [\<lparr>s_ID = 1, s_UserID = 5, s_TokenHash = HashToken ref_crypto ''tok'', s_ExpiresAt = 10, s_CreatedAt = 0\<rparr>]\<rparr>)"

lemma sample_server_sel [simp]:
  "as_PresRDB (sample_server R) = R" "as_PresTTL (sample_server R) = 7200" "as_Creds (sample_server R) = sample_prov R"
  "as_Dialer (sample_server R) = Some (sample_dialer R)" "as_HasHub (sample_server R)" "as_RequireAdmin2FA (sample_server R)"
  "as_uuid (sample_server R) = ref_uuid" "as_crypto (sample_server R) = ref_crypto"
  by (simp_all add: sample_server_def)

section \<open>Properties\<close>

text \<open>
  C26. The live socket of an agent never panics and is opened only for an origin that is configured
  or a request that names none. It writes only its greeting, heartbeats and the events broadcast to
  that agent, and ends with its subscription taken back: the hub's subscriptions are then those
  that the other goroutines have made of the ones before. A refused request leaves the hub alone.
\<close>

theorem ws_socket:
  assumes "hub_inv h" and "h_bufs h (h_made h) = []"
  shows "\<exists>r h'. handleWS S origin handshake sent user xs h = Some (r, h') \<and>
    (case r of
       WsServed frames \<Rightarrow>
         (origin = [] \<or> origin \<in> set (as_CORS S) \<or> ''*'' \<in> set (as_CORS S)) \<and> hub_inv h' \<and>
         (\<forall>ev \<in> set frames. ws_frame (ustr (as_uuid S) (u_ID user)) (u_Email user) (ws_others xs) ev) \<and>
         (\<exists>ys. prefix ys (ws_others xs) \<and>
           (h_made h', subscribed h') =
             spec_step (Unsub (ustr (as_uuid S) (u_ID user)) (h_made h))
               (fold spec_step ys (spec_step (Sub (ustr (as_uuid S) (u_ID user))) (h_made h, subscribed h)))) \<and>
         (\<forall>v. (v, h_made h) \<notin> subscribed h')
     | _ \<Rightarrow> h' = h)"
proof (cases "as_HasHub S \<and> handshake \<and> checkWSOrigin (as_CORS S) origin")
  case True
  then have "origin = [] \<or> origin \<in> set (as_CORS S) \<or> ''*'' \<in> set (as_CORS S)"
    by (auto simp: checkWSOrigin_def)
  then show ?thesis
    using serveWS_spec [OF assms, of sent "ustr (as_uuid S) (u_ID user)" "u_Email user" xs] True
    by (auto simp: handleWS_def)
next
  case False
  then show ?thesis by (auto simp: handleWS_def)
qed

theorem ws_socket_witness:
  "\<exists>frames h'. handleWS (sample_server mem_redis) [] True (\<lambda>_. True) (demo_user UserRoleAgent)
      [WsOther (Cast ''8'' (heartbeat_event 0)), WsOther (Sub ''7''), WsDone] NewHub = Some (WsServed frames, h') \<and>
     (ustr ref_uuid 5, 0) \<notin> subscribed h' \<and> (''7'', 1) \<in> subscribed h'"
proof -
  have h: "h_bufs NewHub (h_made NewHub) = []" "h_made NewHub = 0" "subscribed NewHub = {}"
    by (simp_all add: NewHub_def subscribed_def subs_of_def)
  let ?xs = "[WsOther (Cast ''8'' (heartbeat_event 0)), WsOther (Sub ''7''), WsDone]"
  have "\<exists>r h'. handleWS (sample_server mem_redis) [] True (\<lambda>_. True) (demo_user UserRoleAgent) ?xs NewHub = Some (r, h') \<and>
      (\<forall>frames. r = WsServed frames \<longrightarrow> (\<forall>v. (v, 0) \<notin> subscribed h'))"
    using ws_socket [OF hub_inv_new h(1), of "sample_server mem_redis" "[]" True "\<lambda>_. True" "demo_user UserRoleAgent" ?xs]
    by (elim ex_forward) (auto simp: h(2))
  then obtain r h' where r: "handleWS (sample_server mem_redis) [] True (\<lambda>_. True) (demo_user UserRoleAgent) ?xs NewHub = Some (r, h')"
    and u: "\<forall>frames. r = WsServed frames \<longrightarrow> (\<forall>v. (v, 0) \<notin> subscribed h')" by blast
  have i: "u_ID (demo_user UserRoleAgent) = 5" by (simp add: demo_user_def)
  have n: "ustr ref_uuid 5 \<noteq> ''7''" "ustr ref_uuid 5 \<noteq> ''8''" by (simp add: ref_uuid_def, code_simp)+
  have "(''7'', 1) \<in> subscribed h' \<and> (\<exists>frames. r = WsServed frames)"
    using r n n [symmetric] by (auto simp: i handleWS_def checkWSOrigin_def serveWS_def Subscribe_def Unsubscribe_def Broadcast_def NewHub_def subs_of_def
        subscribed_def Let_def)
  then show ?thesis using r u by auto
qed

text \<open>
  A handler behind the session check runs only for a user with a session of that token that has
  not expired, who has the role where one is asked for, and who is not an administrator who still
  has to enrol the second factor. Every other request is refused and changes nothing.
\<close>

theorem edge_guard:
  assumes "m = withAuth S tok next' \<and> roles = UNIV \<or> m = withSupervisorAuth S tok next' \<and> roles = {UserRoleAdmin, UserRoleSupervisor}"
    and "m w = (q, w')"
  shows "(q \<in> {Fail 401 ''unauthorized'', Fail 403 ''forbidden'', Fail 403 ''totp_setup_required''} \<and> untouched w w') \<or>
    (\<exists>v w1. next' (masked v) w1 = (q, w') \<and> untouched w w1 \<and>
       session_of (tabs (eg_db w)) (db_now (eg_db w)) (HashToken (as_crypto S) tok) v \<and> u_Role v \<in> roles \<and>
       \<not> (as_RequireAdmin2FA S \<and> u_Role v = UserRoleAdmin \<and> \<not> u_TOTPEnabled v))"
proof (cases "tok = []")
  case True
  then show ?thesis
    using assms by (auto simp: withAuth_def withSupervisorAuth_def untouched_def intro: exI [of _ "eg_db w"])
next
  case False
  obtain r w1 where r: "edge_lookupUser (as_crypto S) tok w = (r, w1)" by fastforce
  note l = edge_lookup_cases [OF r]
  show ?thesis
  proof (cases r)
    case (Inl e)
    then have "q = Fail 401 ''unauthorized'' \<and> w' = w1"
      using assms r False by (auto simp: withAuth_def withSupervisorAuth_def callH_def)
    then show ?thesis using l by blast
  next
    case (Inr u)
    then obtain v where v: "u = masked v" "session_of (tabs (eg_db w)) (db_now (eg_db w)) (HashToken (as_crypto S) tok) v"
      using l by blast
    show ?thesis
    proof (cases "u_Role v \<in> roles \<and> \<not> edge_totp_required S v")
      case True
      then have "next' (masked v) w1 = (q, w')"
        using assms r False Inr v(1) by (auto simp: withAuth_def withSupervisorAuth_def callH_def)
      then show ?thesis using True v(2) l by (auto simp: edge_totp_required_def)
    next
      case no: False
      then have "q \<in> {Fail 403 ''forbidden'', Fail 403 ''totp_setup_required''} \<and> w' = w1"
        using assms r False Inr v(1) by (auto simp: withAuth_def withSupervisorAuth_def callH_def split: if_splits)
      then show ?thesis using l by blast
    qed
  qed
qed

theorem edge_guard_witness:
  "\<exists>q w'. withSupervisorAuth (sample_server mem_redis) ''tok'' (\<lambda>u. replyH 200 (u_ID u)) (edge_init mr_init (session_db UserRoleAgent)) = (q, w') \<and>
     (\<forall>x. q \<noteq> Reply 200 x)"
proof -
  obtain q w' where m: "withSupervisorAuth (sample_server mem_redis) ''tok'' (\<lambda>u. replyH 200 (u_ID u)) (edge_init mr_init (session_db UserRoleAgent)) = (q, w')"
    by fastforce
  have a: "u \<in> set (users (tabs (session_db UserRoleAgent))) \<Longrightarrow> u_Role u = UserRoleAgent" for u
    by (auto simp: session_db_def db_of_def demo_user_def)
  have "q \<noteq> Reply 200 x" for x
    using edge_guard [of "withSupervisorAuth (sample_server mem_redis) ''tok'' (\<lambda>u. replyH 200 (u_ID u))" "sample_server mem_redis" "''tok''"
        "\<lambda>u. replyH 200 (u_ID u)" "{UserRoleAdmin, UserRoleSupervisor}", OF _ m] a
    by (auto simp: session_of_def)
  then show ?thesis using m by blast
qed





text \<open>
  C30. A call that is answered to the browser is on the wallboard: its meta data are stored under the
  call of the reply and show this agent and the number that was asked for, it is the agent's
  current call, and it is broadcast to the agent's sockets as active.
\<close>

theorem outbound_call:
  assumes "redis_service (m_RDB m) view" and "m_Carriers m = ListOrdered" and "as_Dialer S = Some m" and "m_uuid m = as_uuid S"
    and "as_HasHub S" and "hub_inv (eg_hub w)" and "handleOutbound S user (Some b) w = (Reply code body, w')"
  shows "\<exists>call cid raw c ev. code = 200 \<and> body = CallPlaced call cid (ob_To b) \<and>
    view (eg_redis w') (callMetaKey call) = Some raw \<and> wall_call call raw = Some c \<and>
    wk_AgentID c = ustr (as_uuid S) (u_ID user) \<and> wk_To c = ob_To b \<and>
    view (eg_redis w') (agentCallKey (as_uuid S) (u_ID user)) = Some call \<and>
    ev_Payload ev ''call_uuid'' = Some call \<and> ev_Payload ev ''state'' = Some ''active'' \<and>
    Broadcast (ustr (as_uuid S) (u_ID user)) ev (eg_hub w) = Some (eg_hub w')"
proof -
  obtain camp where camp: "body_id (as_uuid S) (ob_CampaignID b) = Inr camp"
    using assms(3, 7) by (cases "body_id (as_uuid S) (ob_CampaignID b)") (auto simp: handleOutbound_def)
  obtain lead where lead: "body_id (as_uuid S) (ob_LeadID b) = Inr lead"
    using assms(3, 7) camp by (cases "body_id (as_uuid S) (ob_LeadID b)") (auto simp: handleOutbound_def)
  define req where "req = \<lparr>or_AgentID = u_ID user, or_To = ob_To b, or_CallerID = ob_CallerID b, or_CampaignID = camp, or_LeadID = lead\<rparr>"
  obtain r w1 where o: "Originate m req w = (r, w1)" by fastforce
  obtain res where res: "r = Inr res"
    using assms(3, 7) camp lead o
    by (cases r) (auto simp: handleOutbound_def callH_def req_def writeOutboundError_def split: if_splits)
  note hub = Originate_hub [OF assms(2) o]
  obtain ccid n now where p: "ores_CarrierID res = ccid" "ores_To res = or_To req"
    "same_but_cps (with_call (m_uuid m) req ccid (ores_CallUUID res) n now (view (eg_redis w))) (view (eg_redis w1))"
    using redis_service.Originate_placed [OF assms(1) o refl assms(2)] unfolding placed_def res by auto
  let ?call = "ores_CallUUID res"
  have v: "view (eg_redis w1) (callMetaKey ?call) = Some (marshal_meta (call_meta (m_uuid m) req ccid now))"
    "view (eg_redis w1) (agentCallKey (m_uuid m) (u_ID user)) = Some ?call"
    using p(3) by (simp_all add: same_but_cps_def with_call_def req_def)
  let ?ev = "call_event (ustr (as_uuid S) (u_ID user)) [''call_uuid'' \<mapsto> ?call, ''carrier_id'' \<mapsto> ustr (as_uuid S) (ores_CarrierID res),
      ''to'' \<mapsto> ores_To res, ''state'' \<mapsto> ''active'']"
  obtain h where h: "Broadcast (ustr (as_uuid S) (u_ID user)) ?ev (eg_hub w) = Some h"
    using hub_inv_Broadcast(1) [OF assms(6)] by blast
  have out: "code = 200 \<and> body = CallPlaced ?call (ores_CarrierID res) (ob_To b) \<and> w' = w1\<lparr>eg_hub := h\<rparr>"
    using assms(3, 5, 7) camp lead o res h hub p(2)
    by (simp add: handleOutbound_def callH_def publishCallState_def broadcast_def req_def)
  have "ev_Payload ?ev ''call_uuid'' = Some ?call \<and> ev_Payload ?ev ''state'' = Some ''active''"
    by (simp add: call_event_def Let_def)
  moreover have "wall_call ?call (marshal_meta (call_meta (m_uuid m) req ccid now)) = Some \<lparr>wk_UUID = ?call,
      wk_AgentID = ustr (as_uuid S) (u_ID user), wk_To = ob_To b,
      wk_CampaignID = given_id (cm_CampaignID (call_meta (m_uuid m) req ccid now)),
      wk_StartedAt = cm_StartedAt (call_meta (m_uuid m) req ccid now)\<rparr>"
    by (simp add: wall_call_stored) (simp add: call_meta_def req_def assms(4))
  ultimately show ?thesis
    using out v h assms(4) by auto
qed

theorem outbound_call_witness:
  "\<exists>call w'. handleOutbound (sample_server mem_redis) ((demo_user UserRoleAgent)\<lparr>u_ID := 3\<rparr>)
      (Some \<lparr>ob_To = ''+33612345678'', ob_CallerID = [], ob_CampaignID = [], ob_LeadID = []\<rparr>) sample_edge =
      (Reply 200 (CallPlaced call 7 ''+33612345678''), w') \<and>
     mr_keys (eg_redis w') (agentCallKey ref_uuid 3) = Some call"
proof -
  let ?S = "sample_server mem_redis" and ?u = "(demo_user UserRoleAgent)\<lparr>u_ID := 3\<rparr>"
    and ?b = "\<lparr>ob_To = ''+33612345678'', ob_CallerID = [], ob_CampaignID = [], ob_LeadID = []\<rparr>"
  obtain k w1 where o: "Originate (sample_dialer mem_redis) sample_req sample_edge =
      (Inr \<lparr>ores_CallUUID = k, ores_CarrierID = 7, ores_To = ''+33612345678''\<rparr>, w1)"
    using sample_originate [of mem_redis] by blast
  have hub: "hub_inv (eg_hub sample_edge)" by (simp add: sample_edge_def hub_inv_new)
  have "eg_hub w1 = eg_hub sample_edge" by (rule Originate_hub [OF _ o]) simp
  then obtain w' where w': "handleOutbound ?S ?u (Some ?b) sample_edge = (Reply 200 (CallPlaced k 7 ''+33612345678''), w')"
    using o hub_inv_Broadcast(1) [OF hub]
    by (simp add: handleOutbound_def body_id_def callH_def publishCallState_def broadcast_def sample_req_def)
  show ?thesis
    using outbound_call [OF _ _ _ _ _ hub w', of "sample_dialer mem_redis" mr_keys] mem_service w' by auto
qed

end
