(* ===== verification/Esl_Client.thy ===== *)
theory Esl_Client
  imports Inbound_Router
begin

text \<open>
  The reconnecting client of the switch's event socket, \<open>services/edge/internal/fs/esl.go\<close>. The mutex
  makes each of its functions one step. The network is what it answers: \<open>en_dials\<close> lists the
  outcomes of the coming dials and \<open>en_replies\<close> those of the coming commands (past their ends they
  succeed), \<open>en_open\<close> is the list of the connections that are open, by the number of their dial, and
  \<open>en_sent\<close> the commands with the connections they went over.
\<close>

datatype send_reply = SendFails goerr | SendNothing | SendBody string

record esl_net =
  ec_conn :: "nat option"
  en_dials :: "goerr option list"
  en_replies :: "send_reply list"
  en_made :: nat
  en_open :: "nat list"
  en_sent :: "(nat \<times> string) list"

definition NewClient :: "goerr option list \<Rightarrow> send_reply list \<Rightarrow> esl_net" where
  "NewClient dials replies =
     \<lparr>ec_conn = None, en_dials = dials, en_replies = replies, en_made = 0, en_open = [], en_sent = []\<rparr>"

section \<open>The socket library\<close>

definition esl_Dial :: "(esl_net, nat) run" where
  "esl_Dial s =
     (case en_dials s of
        Some e # ds \<Rightarrow> (Inl e, s\<lparr>en_dials := ds\<rparr>)
      | ds \<Rightarrow> (Inr (en_made s), s\<lparr>en_dials := tl ds, en_made := Suc (en_made s), en_open := en_made s # en_open s\<rparr>))"

definition conn_Close :: "nat \<Rightarrow> esl_net \<Rightarrow> esl_net" where
  "conn_Close c s = s\<lparr>en_open := removeAll c (en_open s)\<rparr>"

definition conn_Send :: "nat \<Rightarrow> string \<Rightarrow> (esl_net, string option) run" where
  "conn_Send c cmd s =
     (let s' = s\<lparr>en_replies := tl (en_replies s), en_sent := en_sent s @ [(c, cmd)]\<rparr> in
      case en_replies s of
        SendFails e # _ \<Rightarrow> (Inl e, s')
      | SendNothing # _ \<Rightarrow> (Inr None, s')
      | SendBody b # _ \<Rightarrow> (Inr (Some b), s')
      | [] \<Rightarrow> (Inr (Some ''+OK''), s'))"

section \<open>The client\<close>

definition connectLocked :: "(esl_net, unit) run" where
  "connectLocked =
     bindE esl_Dial (\<lambda>c s.
       (Inr (), (case ec_conn s of None \<Rightarrow> s | Some old \<Rightarrow> conn_Close old s)\<lparr>ec_conn := Some c\<rparr>))"

definition ConnectOnce :: "(esl_net, unit) run" where
  "ConnectOnce = connectLocked"

text \<open>\<open>Close\<close>, and the two lines that drop a connection that has failed.\<close>

definition Client_Close :: "esl_net \<Rightarrow> esl_net" where
  "Client_Close s = (case ec_conn s of None \<Rightarrow> s | Some c \<Rightarrow> (conn_Close c s)\<lparr>ec_conn := None\<rparr>)"

definition send_on :: "nat \<Rightarrow> string \<Rightarrow> (esl_net, string) run" where
  "send_on c cmd =
     tryE (conn_Send c (''api '' @ cmd)) (\<lambda>r.
       case r of
         Inl e \<Rightarrow> (\<lambda>s. (Inl e, (conn_Close c s)\<lparr>ec_conn := None\<rparr>))
       | Inr None \<Rightarrow> failE (ErrMsg (''empty ESL response for '' @ [CHR 0x22] @ cmd @ [CHR 0x22]))
       | Inr (Some body) \<Rightarrow> retE body)"

definition Client_API :: "string \<Rightarrow> (esl_net, string) run" where
  "Client_API cmd =
     bindE (\<lambda>s. if ec_conn s = None then connectLocked s else (Inr (), s)) (\<lambda>_ s.
       case ec_conn s of None \<Rightarrow> (Inl (ErrMsg ''nil connection''), s) | Some c \<Rightarrow> send_on c cmd s)"

text \<open>
  \<open>RunReconnect\<close>, one element of the list per turn of a loop before the context is cancelled: whether
  the wait of that turn, if it has one, ends before the cancellation. The result lists the waits in
  seconds. A cancellation while it waits to dial again returns without closing.
\<close>

fun RunReconnect :: "bool list \<Rightarrow> nat \<Rightarrow> bool \<Rightarrow> esl_net \<Rightarrow> nat list \<times> esl_net" where
  "RunReconnect [] backoff up s = ([], Client_Close s)"
| "RunReconnect (ok # oks) backoff False s =
     (case ConnectOnce s of
        (Inl _, s') \<Rightarrow>
          if ok then (case RunReconnect oks (next_backoff backoff) False s' of (ws, s'') \<Rightarrow> (backoff # ws, s''))
          else ([backoff], s')
      | (Inr _, s') \<Rightarrow> RunReconnect oks 1 True s')"
| "RunReconnect (ok # oks) backoff True s =
     (case Client_API ''status'' s of
        (Inl _, s') \<Rightarrow> RunReconnect oks backoff False s'
      | (Inr _, s') \<Rightarrow>
          if ok then (case RunReconnect oks backoff True s' of (ws, s'') \<Rightarrow> (15 # ws, s''))
          else ([15], Client_Close s'))"

datatype client_op = OpConnect | OpAPI string | OpClose | OpRun "bool list"

definition client_step :: "client_op \<Rightarrow> esl_net \<Rightarrow> esl_net" where
  "client_step x s =
     (case x of
        OpConnect \<Rightarrow> snd (ConnectOnce s)
      | OpAPI cmd \<Rightarrow> snd (Client_API cmd s)
      | OpClose \<Rightarrow> Client_Close s
      | OpRun oks \<Rightarrow> snd (RunReconnect oks 1 False s))"

section \<open>Lemmas\<close>

text \<open>The client's connection is the only one that is open, and the coming ones are new.\<close>

definition net_inv :: "esl_net \<Rightarrow> bool" where
  "net_inv s \<longleftrightarrow> en_open s = (case ec_conn s of None \<Rightarrow> [] | Some c \<Rightarrow> [c]) \<and> (\<forall>c \<in> set (en_open s). c < en_made s)"

lemma net_inv_connect: "keeps net_inv connectLocked"
  by (rule keepsI) (auto simp: connectLocked_def bindE_def esl_Dial_def conn_Close_def net_inv_def split: list.split option.split)

lemma net_inv_Close: "net_inv s \<Longrightarrow> net_inv (Client_Close s) \<and> en_open (Client_Close s) = []"
  by (auto simp: Client_Close_def conn_Close_def net_inv_def split: option.splits)

lemma net_inv_send: "net_inv s \<Longrightarrow> ec_conn s = Some c \<Longrightarrow> net_inv (snd (send_on c cmd s))"
  by (auto simp: send_on_def tryE_def conn_Send_def conn_Close_def net_inv_def Let_def split: list.split send_reply.split)

lemma net_inv_API: "keeps net_inv (Client_API cmd)"
  unfolding Client_API_def
proof (rule keeps_bindE)
  show "keeps net_inv (\<lambda>s. if ec_conn s = None then connectLocked s else (Inr (), s))"
    using net_inv_connect by (simp add: keeps_def)
  show "keeps net_inv (\<lambda>s. case ec_conn s of None \<Rightarrow> (Inl (ErrMsg ''nil connection''), s) | Some c \<Rightarrow> send_on c cmd s)" for x :: unit
    by (rule keepsI) (simp add: net_inv_send split: option.split)
qed

lemma net_inv_Run:
  "net_inv s \<Longrightarrow> net_inv (snd (RunReconnect oks b up s)) \<and>
     (b \<le> 30 \<longrightarrow> (\<forall>t \<in> set (fst (RunReconnect oks b up s)). t \<le> 30))"
proof (induction oks b up s rule: RunReconnect.induct)
  case (1 b up s)
  then show ?case by (simp add: net_inv_Close)
next
  case (2 ok oks b s)
  obtain r s1 where r: "ConnectOnce s = (r, s1)" by fastforce
  then have i: "net_inv s1" using keepsD [OF net_inv_connect 2(3)] by (simp add: ConnectOnce_def)
  show ?case
    using 2(1) [OF r [symmetric]] 2(2) [OF r [symmetric]] r i
    by (cases r) (auto simp: next_backoff_def split: prod.splits)
next
  case (3 ok oks b s)
  obtain r s1 where r: "Client_API ''status'' s = (r, s1)" by fastforce
  then have i: "net_inv s1" using keepsD [OF net_inv_API 3(3)] by (metis snd_conv)
  show ?case
    using 3(1) [OF r [symmetric]] 3(2) [OF r [symmetric]] r i
    by (cases r) (auto simp: net_inv_Close split: prod.splits)
qed

lemma net_inv_step: "net_inv s \<Longrightarrow> net_inv (client_step x s)"
  using keepsD [OF net_inv_connect, of s] keepsD [OF net_inv_API, of s] net_inv_Close [of s] net_inv_Run [of s]
  by (cases x) (simp_all add: client_step_def ConnectOnce_def)

interpretation client_ops: invariant_ops client_step net_inv
  by unfold_locales (rule net_inv_step)

text \<open>The waits between two attempts to dial grow from one second and never exceed thirty.\<close>

lemma reconnect_waits: "t \<in> set (fst (RunReconnect oks 1 False (NewClient dials replies))) \<Longrightarrow> t \<le> 30"
  using net_inv_Run [of "NewClient dials replies" oks 1 False] by (simp add: net_inv_def NewClient_def)

section \<open>Properties\<close>

text \<open>
  C31. Whatever the network answers, and in whatever order the client is used, at most one
  connection is open: the one the client holds. None is left open by a reconnection, a failed
  command or \<open>Close\<close>.
\<close>

theorem esl_one_connection:
  "en_open (fold client_step xs (NewClient dials replies)) =
     (case ec_conn (fold client_step xs (NewClient dials replies)) of None \<Rightarrow> [] | Some c \<Rightarrow> [c])"
proof -
  have "net_inv (NewClient dials replies)" by (simp add: net_inv_def NewClient_def)
  then have "net_inv (fold client_step xs (NewClient dials replies))" by (rule client_ops.run_inv)
  then show ?thesis by (simp add: net_inv_def)
qed

end
