(* ===== verification/Seed.thy ===== *)
theory Seed
  imports Authkit Store_Users Store_Carriers Store_Leads Inbound_Router
begin

text \<open>
  The seeding command, \<open>services/api/cmd/seed/main.go\<close>: the administrator, the lab numbers and, if
  asked for, a demo campaign with its agent and leads. \<open>log.Fatalf\<close> and a panic end the process: both
  are errors here. What it prints is part of the result where it carries a secret.
\<close>

section \<open>The command\<close>

text \<open>
  The outcomes of the random generators: the salts of the passwords, the TOTP secret of the library
  and the nonces of the encryption.
\<close>

record seed_draws =
  sd_Salt :: "string option"
  sd_TOTP :: "GenerateOpts \<Rightarrow> goerr + string"
  sd_Nonce :: "string option"
  sd_AgentSalt :: "string option"
  sd_CarrierNonce :: "string option"

definition adminEmail :: string where
  "adminEmail = ''admin@callvoice.local''"

definition demoAgentEmail :: string where
  "demoAgentEmail = ''agent@callvoice.local''"

definition demoCampaignName :: string where
  "demoCampaignName = ''Demo Campaign''"

definition demoCarrierName :: string where
  "demoCarrierName = ''lab-carrier''"

definition labDIDs :: "(string \<times> string) list" where
  "labDIDs = [(''+33123456789'', ''agent_pool:default''), (''+33987654321'', ''agent_pool:default'')]"

text \<open>A password that is hashed, or the end of the process.\<close>

definition hashed :: "string \<Rightarrow> (goerr + string) option \<Rightarrow> (string \<Rightarrow> 'a sql) \<Rightarrow> 'a sql" where
  "hashed msg r k =
     (case r of
        None \<Rightarrow> failE (ErrMsg ''panic'')
      | Some (Inl e) \<Rightarrow> failE (ErrWrap msg e)
      | Some (Inr hash) \<Rightarrow> k hash)"

definition find_user :: "string \<Rightarrow> uuid sql" where
  "find_user email = query_row (\<lambda>t _. map u_ID (filter (\<lambda>u. u_Email u = to_lower email) (users t)))"

definition seed_admin_row :: "string \<Rightarrow> string \<Rightarrow> uuid \<Rightarrow> time \<Rightarrow> User" where
  "seed_admin_row hash enc i now =
     \<lparr>u_ID = i, u_Email = to_lower adminEmail, u_PasswordHash = hash, u_Role = UserRoleAdmin, u_DisplayName = None,
      u_TOTPSecretEncrypted = Some enc, u_TOTPEnabled = True, u_FailedLoginCount = 0, u_LockedUntil = None,
      u_DisabledAt = None, u_CreatedAt = now\<rparr>"

definition insert_admin_stmt :: "string \<Rightarrow> string \<Rightarrow> uuid \<Rightarrow> time \<Rightarrow> tables \<Rightarrow> goerr + unit \<times> tables" where
  "insert_admin_stmt hash enc i now t =
     (if i \<in> u_ID ` set (users t) \<or> to_lower adminEmail \<in> u_Email ` set (users t) then Inl unique_violation
      else Inr ((), t\<lparr>users := users t @ [seed_admin_row hash enc i now]\<rparr>))"

text \<open>The result is what is printed.\<close>

definition seedAdmin :: "crypto \<Rightarrow> seed_draws \<Rightarrow> string \<Rightarrow> string \<Rightarrow> string list sql" where
  "seedAdmin C d password carrierKey =
     hashed ''hash password'' (HashPassword C (sd_Salt d) password) (\<lambda>hash.
     tryE (find_user adminEmail) (\<lambda>r.
       case r of
         Inl e \<Rightarrow>
           if \<not> errors_is e SqlNoRows then failE (ErrWrap ''lookup admin'' e)
           else (case GenerateTOTPSecret (sd_TOTP d) of
             Inl e \<Rightarrow> failE (ErrWrap ''generate totp secret'' e)
           | Inr secret \<Rightarrow>
               (case Encrypt C carrierKey secret (sd_Nonce d) of
                  Inl e \<Rightarrow> failE (ErrWrap ''encrypt totp secret'' e)
                | Inr encrypted \<Rightarrow>
                    bindE (wrapE ''insert admin'' (db_insert (insert_admin_stmt hash encrypted))) (\<lambda>_.
                    retE [''=== Lab admin TOTP (save once) ==='', ''Email: '' @ adminEmail, ''TOTP secret: '' @ secret,
                          ''OTPAuth URL: '' @ OTPAuthURL secret adminEmail])))
       | Inr userID \<Rightarrow>
           bindE (wrapE ''update admin'' (db_update (\<lambda>t. Inr ((), update_users userID
             (\<lambda>u. u\<lparr>u_PasswordHash := hash, u_FailedLoginCount := 0, u_LockedUntil := None\<rparr>) t)))) (\<lambda>_.
           retE [''Admin '' @ adminEmail @ '' already exists (password refreshed, TOTP unchanged)''])))"

text \<open>The carrier of a number that exists is kept: the statement names none.\<close>

fun upsert_dids :: "(string \<times> string) list \<Rightarrow> unit sql" where
  "upsert_dids [] = retE ()"
| "upsert_dids ((number, destination) # ds) =
     bindE (wrapE (''upsert did '' @ number) (db_insert (upsert_did_stmt number destination None))) (\<lambda>_.
     upsert_dids ds)"

definition seedDIDs :: "unit sql" where
  "seedDIDs = upsert_dids labDIDs"

definition store_demo_agent :: "string \<Rightarrow> uuid sql" where
  "store_demo_agent hash =
     tryE (find_user demoAgentEmail) (\<lambda>r.
       case r of
         Inl e \<Rightarrow>
           if \<not> errors_is e SqlNoRows then failE (ErrWrap ''lookup demo agent'' e)
           else bindE (wrapE ''create demo agent'' (User_Create
                  \<lparr>cu_Email = demoAgentEmail, cu_PasswordHash = hash, cu_Role = UserRoleAgent, cu_DisplayName = Some ''Demo Agent''\<rparr>))
                (\<lambda>created. retE (u_ID created))
       | Inr userID \<Rightarrow>
           bindE (wrapE ''update demo agent'' (db_update (\<lambda>t. Inr ((), update_users userID
             (\<lambda>u. u\<lparr>u_PasswordHash := hash, u_DisplayName := Some ''Demo Agent'', u_FailedLoginCount := 0,
                    u_LockedUntil := None, u_DisabledAt := None\<rparr>) t)))) (\<lambda>_. retE userID))"

definition upsertDemoAgent :: "crypto \<Rightarrow> seed_draws \<Rightarrow> string \<Rightarrow> uuid sql" where
  "upsertDemoAgent C d password =
     hashed ''hash agent password'' (HashPassword C (sd_AgentSalt d) password) store_demo_agent"

definition lab_carrier :: "string \<Rightarrow> CreateCarrierInput" where
  "lab_carrier encrypted =
     \<lparr>cc_Name = demoCarrierName, cc_Host = ''sip.lab.test'', cc_Port = 5060, cc_Transport = ''udp'', cc_Username = Some ''lab'',
      cc_PasswordEncrypted = Some encrypted, cc_Realm = None, cc_Codecs = Some [''PCMU'', ''PCMA''], cc_CallerIDs = None,
      cc_MaxCPS = 30, cc_MaxChannels = 100, cc_Enabled = True, cc_Priority = 100\<rparr>"

definition ensureLabCarrier :: "crypto \<Rightarrow> seed_draws \<Rightarrow> string \<Rightarrow> uuid sql" where
  "ensureLabCarrier C d carrierKey =
     tryE (query_row (\<lambda>t _. map c_ID (filter (\<lambda>c. c_Name c = demoCarrierName) (carriers t)))) (\<lambda>r.
       case r of
         Inr i \<Rightarrow> retE i
       | Inl e \<Rightarrow>
           if \<not> errors_is e SqlNoRows then failE (ErrWrap ''lookup lab carrier'' e)
           else tryE (query_row (\<lambda>t _. map c_ID (sort_key c_CreatedAt (carriers t)))) (\<lambda>r.
             case r of
               Inr i \<Rightarrow> retE i
             | Inl e \<Rightarrow>
                 if \<not> errors_is e SqlNoRows then failE (ErrWrap ''lookup any carrier'' e)
                 else (case Encrypt C carrierKey ''lab-carrier-secret'' (sd_CarrierNonce d) of
                   Inl e \<Rightarrow> failE (ErrWrap ''encrypt carrier password'' e)
                 | Inr encrypted \<Rightarrow>
                     bindE (wrapE ''create lab carrier'' (Carrier_Create (lab_carrier encrypted))) (\<lambda>created.
                     retE (c_ID created)))))"

definition findCampaignByName :: "string \<Rightarrow> uuid sql" where
  "findCampaignByName name = query_row (\<lambda>t _. map cp_ID (filter (\<lambda>c. cp_Name c = name) (campaigns t)))"

definition countCampaignLeads :: "uuid \<Rightarrow> nat sql" where
  "countCampaignLeads cid = db_select (\<lambda>t _. length (concat (map
     (\<lambda>l. filter (\<lambda>ll. ll_ID ll = l_ListID l \<and> ll_CampaignID ll = cid) (lead_lists t)) (leads t))))"

definition demo_leads :: "uuid \<Rightarrow> ImportLeadsInput" where
  "demo_leads cid =
     \<lparr>il_CampaignID = cid, il_Name = ''demo-import'', il_Rows =
       [\<lparr>ir_Phone = ''+33111111101'', ir_Payload = [(''name'', ''Alice Demo'')]\<rparr>,
        \<lparr>ir_Phone = ''+33111111102'', ir_Payload = [(''name'', ''Bob Demo'')]\<rparr>,
        \<lparr>ir_Phone = ''+33111111103'', ir_Payload = [(''name'', ''Carol Demo'')]\<rparr>]\<rparr>"

definition demo_campaign :: "uuid \<Rightarrow> uuid sql" where
  "demo_campaign carrierID =
     tryE (findCampaignByName demoCampaignName) (\<lambda>r.
       case r of
         Inr i \<Rightarrow> retE i
       | Inl e \<Rightarrow>
           if \<not> errors_is e SqlNoRows then failE (ErrWrap ''lookup demo campaign'' e)
           else bindE (wrapE ''create demo campaign''
                  (Campaign_Create \<lparr>ccp_Name = demoCampaignName, ccp_CarrierID = carrierID\<rparr>))
                (\<lambda>created. retE (cp_ID created)))"

definition seed_campaign :: "crypto \<Rightarrow> seed_draws \<Rightarrow> string \<Rightarrow> uuid \<Rightarrow> unit sql" where
  "seed_campaign C d carrierKey agentID =
     bindE (ensureLabCarrier C d carrierKey) (\<lambda>carrierID.
     bindE (demo_campaign carrierID) (\<lambda>campaignID.
     bindE (wrapE ''assign demo agent'' (SetAgents campaignID [agentID])) (\<lambda>_.
     bindE (wrapE ''start demo campaign'' (Campaign_Update campaignID
       \<lparr>ucp_Name = None, ucp_CarrierID = None, ucp_Status = Some CampaignStatusRunning\<rparr>)) (\<lambda>_.
     bindE (countCampaignLeads campaignID) (\<lambda>leadCount.
     if leadCount = 0 then bindE (wrapE ''import demo leads'' (Import (demo_leads campaignID))) (\<lambda>_. retE ())
     else retE ())))))"

text \<open>The environment gives the empty text for a variable that is not set.\<close>

definition seedDemo :: "crypto \<Rightarrow> seed_draws \<Rightarrow> (string \<Rightarrow> string) \<Rightarrow> string \<Rightarrow> string \<Rightarrow> unit sql" where
  "seedDemo C d env adminPassword carrierKey =
     (let agentPassword = (if env ''SEED_DEMO_AGENT_PASSWORD'' = [] then adminPassword else env ''SEED_DEMO_AGENT_PASSWORD'') in
      if env ''SEED_DEMO'' \<noteq> ''1'' then retE ()
      else if agentPassword = [] then failE (ErrMsg ''SEED_DEMO=1 requires SEED_DEMO_AGENT_PASSWORD or SEED_ADMIN_PASSWORD'')
      else bindE (upsertDemoAgent C d agentPassword) (seed_campaign C d carrierKey))"

text \<open>\<open>main\<close>; \<open>opened\<close> is the error of \<open>OpenAndMigrate\<close>, if it has one.\<close>

definition default_carrier_key :: string where
  "default_carrier_key = ''0123456789abcdef0123456789abcdef''"

definition seed_main :: "crypto \<Rightarrow> seed_draws \<Rightarrow> (string \<Rightarrow> string) \<Rightarrow> goerr option \<Rightarrow> string list sql" where
  "seed_main C d env opened =
     (let password = env ''SEED_ADMIN_PASSWORD'';
          carrierKeyRaw = (if env ''CARRIER_SECRET_KEY'' = [] then default_carrier_key else env ''CARRIER_SECRET_KEY'')
      in if password = [] then failE (ErrMsg ''SEED_ADMIN_PASSWORD is required'')
         else (case ParseKey carrierKeyRaw of
             Inl e \<Rightarrow> failE (ErrWrap ''CARRIER_SECRET_KEY'' e)
           | Inr carrierKey \<Rightarrow>
               (case opened of
                  Some e \<Rightarrow> failE (ErrWrap ''database'' e)
                | None \<Rightarrow>
                    bindE (wrapE ''seed admin'' (seedAdmin C d password carrierKey)) (\<lambda>out.
                    bindE (wrapE ''seed dids'' seedDIDs) (\<lambda>_.
                    bindE (wrapE ''seed demo'' (seedDemo C d env password carrierKey)) (\<lambda>_.
                    retE out))))))"

section \<open>Lemmas\<close>

lemma decrypt_encrypted:
  assumes "crypto_library C" and "Encrypt C key pt rnd = Inr blob" and "\<And>nonce. rnd = Some nonce \<Longrightarrow> length nonce = nonceSize"
  shows "Decrypt C key blob = Inr pt"
proof -
  obtain nonce where n: "rnd = Some nonce" "blob = nonce @ gcm_seal C key nonce pt" "length key = 32"
    using assms(2) by (auto simp: Encrypt_def newGCM_def keySize_def split: option.splits if_splits)
  then show ?thesis
    using crypto_library.gcm_open_seal [OF assms(1) n(3), of nonce pt] assms(3)
    by (simp add: Decrypt_def newGCM_def keySize_def nonceSize_def)
qed

lemma hashed_ok: "hashed msg r k s = (Inr x, s') \<longleftrightarrow> (\<exists>hash. r = Some (Inr hash) \<and> k hash s = (Inr x, s'))"
  by (auto simp: hashed_def split: option.splits sum.splits)

lemma verify_seeded: "crypto_library C \<Longrightarrow> HashPassword C rnd pw = Some (Inr h) \<Longrightarrow> VerifyPassword C h pw = Some True"
  by (cases rnd) (simp_all add: verify_hashed, simp add: HashPassword_def)

lemma find_user_tabs: "find_user email s = (r, s') \<Longrightarrow> tabs s' = tabs s"
  unfolding find_user_def by (rule query_row_tabs)

lemma find_user_ok:
  "find_user email s = (Inr i, s') \<Longrightarrow> \<exists>u \<in> set (users (tabs s)). u_ID u = i \<and> u_Email u = to_lower email"
  unfolding find_user_def by (drule query_row_map_filter) auto

lemma update_users_mem: "u \<in> set (users t) \<Longrightarrow> u_ID u = i \<Longrightarrow> f u \<in> set (users (update_users i f t))"
  by (auto simp: update_users_def)

text \<open>A run of \<open>seedAdmin\<close> that succeeds inserts the account or refreshes it.\<close>

lemma seedAdmin_cases:
  assumes "seedAdmin C d pw key s = (Inr out, s')"
  obtains (created) hash secret enc i now where "HashPassword C (sd_Salt d) pw = Some (Inr hash)"
      "Encrypt C key secret (sd_Nonce d) = Inr enc" "''TOTP secret: '' @ secret \<in> set out"
      "to_lower adminEmail \<notin> u_Email ` set (users (tabs s))" "i \<notin> u_ID ` set (users (tabs s))"
      "tabs s' = (tabs s)\<lparr>users := users (tabs s) @ [seed_admin_row hash enc i now]\<rparr>"
  | (refreshed) hash i where "HashPassword C (sd_Salt d) pw = Some (Inr hash)"
      "\<exists>u \<in> set (users (tabs s)). u_ID u = i \<and> u_Email u = to_lower adminEmail"
      "tabs s' = update_users i (\<lambda>u. u\<lparr>u_PasswordHash := hash, u_FailedLoginCount := 0, u_LockedUntil := None\<rparr>) (tabs s)"
proof -
  obtain hash r s1 where h: "HashPassword C (sd_Salt d) pw = Some (Inr hash)" and r: "find_user adminEmail s = (r, s1)"
    using assms unfolding seedAdmin_def hashed_ok by fastforce
  note t = find_user_tabs [OF r]
  show thesis
  proof (cases r)
    case (Inl e)
    then obtain secret enc where "Encrypt C key secret (sd_Nonce d) = Inr enc" "''TOTP secret: '' @ secret \<in> set out"
      and i: "db_insert (insert_admin_stmt hash enc) s1 = (Inr (), s')"
      using assms h r unfolding seedAdmin_def hashed_ok by (auto simp: run_iffs split: if_splits sum.splits)
    moreover have "\<exists>i now. to_lower adminEmail \<notin> u_Email ` set (users (tabs s)) \<and> i \<notin> u_ID ` set (users (tabs s)) \<and>
        tabs s' = (tabs s)\<lparr>users := users (tabs s) @ [seed_admin_row hash enc i now]\<rparr>"
      using db_insert_ok [OF i] t
      by (intro exI [of _ "db_rand s1 (db_drawn s1)"] exI [of _ "db_now s1"]) (simp add: insert_admin_stmt_def split: if_splits)
    ultimately show thesis using created [OF h] by blast
  next
    case (Inr i)
    then have "db_update (\<lambda>t. Inr ((), update_users i (\<lambda>u. u\<lparr>u_PasswordHash := hash, u_FailedLoginCount := 0, u_LockedUntil := None\<rparr>) t)) s1 = (Inr (), s')"
      using assms h r unfolding seedAdmin_def hashed_ok by (auto simp: run_iffs)
    then show thesis
      using refreshed [OF h find_user_ok [OF r [unfolded Inr]]] db_update_ok t by fastforce
  qed
qed

text \<open>All rows of a number have the destination, and there is one.\<close>

definition did_set :: "tables \<Rightarrow> string \<Rightarrow> string \<Rightarrow> bool" where
  "did_set t n dest \<longleftrightarrow> n \<in> d_Number ` set (dids t) \<and> (\<forall>d \<in> set (dids t). d_Number d = n \<longrightarrow> d_Destination d = dest)"

lemma upsert_did_set:
  assumes "upsert_did_stmt n dest c i now t = Inr (r, t')"
  shows "did_set t' n dest" and "m \<noteq> n \<Longrightarrow> did_set t m e \<Longrightarrow> did_set t' m e"
proof -
  let ?d = "\<lparr>d_ID = i, d_Number = n, d_CarrierID = c, d_Destination = dest, d_CreatedAt = now\<rparr>"
  have t': "dids t' = upsert_did ?d (dids t)"
    using assms by (auto simp: upsert_did_stmt_def Let_def split: if_splits)
  have mem: "d_Number ` set (upsert_did ?d (dids t)) = insert n (d_Number ` set (dids t))"
  proof (cases "n \<in> d_Number ` set (dids t)")
    case True
    then have "map d_Number (upsert_did ?d (dids t)) = map d_Number (dids t)" by (intro upsert_did_map) simp
    then show ?thesis using True by (metis insert_absorb list.set_map)
  qed (auto simp: upsert_did_def)
  show "did_set t' n dest"
    unfolding did_set_def t' mem by (auto simp: upsert_did_def)
  show "did_set t' m e" if "m \<noteq> n" and "did_set t m e"
    using that unfolding did_set_def t' mem by (auto simp: upsert_did_def split: if_splits)
qed

lemma upsert_dids_set:
  assumes "upsert_dids ds s = (Inr u, s')" and "distinct (map fst ds)"
  shows "\<forall>(n, dest) \<in> set ds. did_set (tabs s') n dest"
    and "\<And>m e. m \<notin> fst ` set ds \<Longrightarrow> did_set (tabs s) m e \<Longrightarrow> did_set (tabs s') m e"
proof -
  have "(\<forall>(n, dest) \<in> set ds. did_set (tabs s') n dest) \<and>
      (\<forall>m e. m \<notin> fst ` set ds \<longrightarrow> did_set (tabs s) m e \<longrightarrow> did_set (tabs s') m e)"
    using assms
  proof (induction ds arbitrary: s)
    case (Cons x ds)
    obtain n dest where x: "x = (n, dest)" by (cases x)
    obtain r s1 where i: "db_insert (upsert_did_stmt n dest None) s = (Inr r, s1)" and rest: "upsert_dids ds s1 = (Inr u, s')"
      using Cons.prems(1) x by (auto simp: run_iffs)
    note set = upsert_did_set [OF db_insert_ok [OF i]]
    have IH: "(\<forall>(n, dest) \<in> set ds. did_set (tabs s') n dest) \<and>
        (\<forall>m e. m \<notin> fst ` set ds \<longrightarrow> did_set (tabs s1) m e \<longrightarrow> did_set (tabs s') m e)"
      using Cons.IH [OF rest] Cons.prems(2) by simp
    moreover have "n \<notin> fst ` set ds" using Cons.prems(2) x by simp
    ultimately show ?case using set x by auto
  qed simp
  then show "\<forall>(n, dest) \<in> set ds. did_set (tabs s') n dest"
    and "\<And>m e. m \<notin> fst ` set ds \<Longrightarrow> did_set (tabs s) m e \<Longrightarrow> did_set (tabs s') m e" by blast+
qed

lemma did_set_found:
  assumes "did_set (tabs (eg_db w)) (NormalizeDID number) dest" and "db_faults (eg_db w) = []"
  shows "\<exists>d. DIDLoader_LookupByNumber number w = (Inr d, w) \<and> d_Number d = NormalizeDID number \<and> d_Destination d = dest"
proof -
  let ?rows = "filter (\<lambda>d. d_Number d = NormalizeDID number) (dids (tabs (eg_db w)))"
  obtain d ds where d: "?rows = d # ds"
    using assms(1) by (cases ?rows) (auto simp: did_set_def filter_empty_conv)
  then have "d \<in> set ?rows" by simp
  then have "d_Number d = NormalizeDID number \<and> d_Destination d = dest" using assms(1) by (auto simp: did_set_def)
  then show ?thesis
    using d assms(2) by (simp add: DIDLoader_LookupByNumber_def Let_def tryE_def edge_db_def)
qed

text \<open>The parts of the demo.\<close>

definition demo_user_ok :: "crypto \<Rightarrow> string \<Rightarrow> uuid \<Rightarrow> tables \<Rightarrow> bool" where
  "demo_user_ok C pw i t \<longleftrightarrow> (\<exists>u \<in> set (users t). u_ID u = i \<and> u_Email u = to_lower demoAgentEmail \<and> u_DisabledAt u = None \<and>
     u_LockedUntil u = None \<and> VerifyPassword C (u_PasswordHash u) pw = Some True)"

lemma upsertDemoAgent_ok:
  assumes "crypto_library C" and "upsertDemoAgent C d pw s = (Inr i, s')" and "distinct (map u_ID (users (tabs s)))"
  shows "demo_user_ok C pw i (tabs s') \<and> distinct (map u_ID (users (tabs s'))) \<and> (\<exists>us. tabs s' = (tabs s)\<lparr>users := us\<rparr>)"
proof -
  obtain hash r s1 where h: "HashPassword C (sd_AgentSalt d) pw = Some (Inr hash)" and r: "find_user demoAgentEmail s = (r, s1)"
    using assms(2) unfolding upsertDemoAgent_def hashed_ok store_demo_agent_def by fastforce
  note t = find_user_tabs [OF r] and v = verify_seeded [OF assms(1) h]
  show ?thesis
  proof (cases r)
    case (Inl e)
    then obtain u where c: "User_Create \<lparr>cu_Email = demoAgentEmail, cu_PasswordHash = hash, cu_Role = UserRoleAgent,
        cu_DisplayName = Some ''Demo Agent''\<rparr> s1 = (Inr u, s')" and i: "i = u_ID u"
      using assms(2) h r unfolding upsertDemoAgent_def hashed_ok store_demo_agent_def by (auto simp: run_iffs split: if_splits)
    obtain s2 s3 where s2: "insert_user \<lparr>cu_Email = demoAgentEmail, cu_PasswordHash = hash, cu_Role = UserRoleAgent,
        cu_DisplayName = Some ''Demo Agent''\<rparr> s2 = (Inr u, s3)" "tabs s2 = tabs s1" "tabs s' = tabs s3"
      using User_Create_ok [OF c] by blast
    moreover have "u_DisabledAt u = None \<and> u_LockedUntil u = None"
      using db_insert_ok [OF s2(1) [unfolded insert_user_def]] by (auto simp: Let_def split: if_splits)
    ultimately show ?thesis
      using insert_user_ok [OF s2(1)] assms(3) t v i by (auto simp: demo_user_ok_def)
  next
    case (Inr j)
    let ?f = "\<lambda>u. u\<lparr>u_PasswordHash := hash, u_DisplayName := Some ''Demo Agent'', u_FailedLoginCount := 0,
                    u_LockedUntil := None, u_DisabledAt := None\<rparr>"
    have up: "db_update (\<lambda>t. Inr ((), update_users j ?f t)) s1 = (Inr (), s') \<and> i = j"
      using assms(2) h r Inr unfolding upsertDemoAgent_def hashed_ok store_demo_agent_def by (auto simp: run_iffs)
    then have t': "tabs s' = update_users i ?f (tabs s)"
      using db_update_ok [of _ s1 "()" s'] t by fastforce
    obtain u where u: "u \<in> set (users (tabs s))" "u_ID u = i" "u_Email u = to_lower demoAgentEmail"
      using find_user_ok [OF r [unfolded Inr]] up by blast
    have "?f u \<in> set (users (tabs s'))" unfolding t' using u(1, 2) by (rule update_users_mem)
    moreover have "map u_ID (users (tabs s')) = map u_ID (users (tabs s))"
      unfolding t' by (rule map_update_users) simp
    moreover have "\<exists>us. tabs s' = (tabs s)\<lparr>users := us\<rparr>" unfolding t' update_users_def by blast
    ultimately show ?thesis
      using u v assms(3) unfolding demo_user_ok_def by (intro conjI bexI [of _ "?f u"]) simp_all
  qed
qed

lemma ensureLabCarrier_ok:
  assumes "ensureLabCarrier C d key s = (Inr i, s')"
  shows "\<exists>cs. tabs s' = (tabs s)\<lparr>carriers := cs\<rparr>"
proof -
  obtain r s1 where r: "query_row (\<lambda>t _. map c_ID (filter (\<lambda>c. c_Name c = demoCarrierName) (carriers t))) s = (r, s1)" by fastforce
  obtain r2 s2 where r2: "query_row (\<lambda>t _. map c_ID (sort_key c_CreatedAt (carriers t))) s1 = (r2, s2)" by fastforce
  note t = query_row_tabs [OF r] query_row_tabs [OF r2]
  have same: "\<exists>cs. tabs s = (tabs s)\<lparr>carriers := cs\<rparr>" by (intro exI [of _ "carriers (tabs s)"]) simp
  consider "s' = s1" | "s' = s2" | enc c where "Carrier_Create (lab_carrier enc) s2 = (Inr c, s')"
    using assms r r2 unfolding ensureLabCarrier_def
    by (cases r; cases r2) (auto simp: run_iffs split: if_splits sum.splits)
  then show ?thesis
  proof cases
    case (3 enc c)
    then show ?thesis using insert_carrier_ok [of "lab_carrier enc" s2 c s'] t by (auto simp: Carrier_Create_def wrapE_Inr_iff)
  qed (use same t in auto)
qed

lemma demo_campaign_ok:
  assumes "demo_campaign carrier s = (Inr i, s')" and "distinct (map cp_ID (campaigns (tabs s)))"
  shows "(\<exists>c \<in> set (campaigns (tabs s')). cp_ID c = i \<and> cp_Name c = demoCampaignName) \<and>
    distinct (map cp_ID (campaigns (tabs s'))) \<and> users (tabs s') = users (tabs s)"
proof -
  obtain r s1 where r: "findCampaignByName demoCampaignName s = (r, s1)" by fastforce
  note t = query_row_tabs [OF r [unfolded findCampaignByName_def]]
  show ?thesis
  proof (cases r)
    case (Inl e)
    then obtain c where c: "Campaign_Create \<lparr>ccp_Name = demoCampaignName, ccp_CarrierID = carrier\<rparr> s1 = (Inr c, s')" "i = cp_ID c"
      using assms(1) r unfolding demo_campaign_def by (auto simp: run_iffs split: if_splits)
    then show ?thesis
      using Campaign_Create_row [OF c(1)] assms(2) t by auto
  next
    case (Inr j)
    then have "j = i \<and> s' = s1" using assms(1) r unfolding demo_campaign_def by (auto simp: run_iffs)
    then show ?thesis
      using query_row_map_filter [OF r [unfolded findCampaignByName_def Inr]] assms(2) t by auto
  qed
qed

lemma Campaign_Update_running:
  assumes "Campaign_Update i \<lparr>ucp_Name = None, ucp_CarrierID = None, ucp_Status = Some CampaignStatusRunning\<rparr> s = (Inr x, s')"
    and "distinct (map cp_ID (campaigns (tabs s)))" and "c \<in> set (campaigns (tabs s))" and "cp_ID c = i"
  shows "(\<exists>c' \<in> set (campaigns (tabs s')). cp_ID c' = i \<and> cp_Name c' = cp_Name c \<and> cp_Status c' = CampaignStatusRunning \<and>
      cp_CarrierID c' \<in> c_ID ` set (carriers (tabs s'))) \<and>
    (\<exists>cs. tabs s' = (tabs s)\<lparr>campaigns := cs\<rparr>)"
proof -
  let ?inp = "\<lparr>ucp_Name = None, ucp_CarrierID = None, ucp_Status = Some CampaignStatusRunning\<rparr>"
  obtain cur s1 where cur: "Campaign_Get i s = (Inr cur, s1)" and wr: "Campaign_write i ?inp cur s1 = (Inr x, s')"
    using assms(1) by (auto simp: Campaign_Update_def bindE_Inr_iff)
  note g = Campaign_Get_ok [OF cur]
  have c: "cur = c" using g assms(2-4) by (metis distinct_map inj_onD)
  obtain xs where "db_update (update_campaign_stmt i (patch_campaign ?inp cur) (db_now s1)) s1 = (Inr (x # xs), s')"
    using wr by (auto simp: Campaign_write_def wrapE_Inr_iff first_row_iff split: if_splits)
  then have u: "update_campaign_stmt i (patch_campaign ?inp c) (db_now s1) (tabs s) = Inr (x # xs, tabs s')"
    using db_update_ok g c by fastforce
  let ?c = "patch_campaign ?inp c (db_now s1) c"
  have "?c \<in> patch_campaign ?inp c (db_now s1) ` {c \<in> set (campaigns (tabs s)). cp_ID c = i}" using assms(3, 4) by blast
  then have fk: "cp_CarrierID ?c \<in> c_ID ` set (carriers (tabs s))" and
    t': "tabs s' = (tabs s)\<lparr>campaigns := map (\<lambda>c'. if cp_ID c' = i then patch_campaign ?inp c (db_now s1) c' else c') (campaigns (tabs s))\<rparr>"
    using u by (auto simp: update_campaign_stmt_def Let_def split: if_splits)
  have "?c \<in> set (campaigns (tabs s'))" using assms(3, 4) by (auto simp: t')
  moreover have "cp_ID ?c = i" "cp_Name ?c = cp_Name c" "cp_Status ?c = CampaignStatusRunning"
    using assms(4) by (simp_all add: patch_campaign_def)
  moreover have "carriers (tabs s') = carriers (tabs s)" by (simp add: t')
  ultimately show ?thesis using fk by (intro conjI bexI [of _ ?c] exI [of _ "campaigns (tabs s')"]) (simp_all add: t')
qed

lemma countCampaignLeads_ok:
  assumes "countCampaignLeads i s = (Inr n, s')"
  shows "tabs s' = tabs s \<and> (n \<noteq> 0 \<longrightarrow> (\<exists>l \<in> set (leads (tabs s)). lead_in_campaign (tabs s) i l))"
  using db_select_ok [OF assms [unfolded countCampaignLeads_def]] by (auto simp: lead_in_campaign_def filter_empty_conv)

lemma demo_leads_ok:
  assumes "countCampaignLeads cid s = (Inr n, s1)"
    and "(if n = 0 then bindE (wrapE ''import demo leads'' (Import (demo_leads cid))) (\<lambda>_. retE ()) else retE ()) s1 = (Inr (), s')"
  shows "(\<exists>l \<in> set (leads (tabs s')). lead_in_campaign (tabs s') cid l) \<and> users (tabs s') = users (tabs s) \<and>
    campaigns (tabs s') = campaigns (tabs s) \<and> carriers (tabs s') = carriers (tabs s) \<and>
    campaign_agents (tabs s') = campaign_agents (tabs s)"
proof (cases "n = 0")
  case False
  then show ?thesis using countCampaignLeads_ok [OF assms(1)] assms(2) by simp
next
  case True
  note t = countCampaignLeads_ok [OF assms(1)]
  obtain x where x: "Import (demo_leads cid) s1 = (Inr x, s')"
    using assms(2) True by (auto simp: bindE_Inr_iff wrapE_Inr_iff)
  then obtain s2 s3 where s2: "tabs s2 = tabs s1" "Import_body (demo_leads cid) s2 = (Inr x, s3)" "tabs s' = tabs s3"
    using Import_cases [OF x] by auto
  have "\<exists>l \<in> set (leads (tabs s')). l_ListID l = res_ListID x"
    using import_leads [OF x] by (auto simp: demo_leads_def)
  then obtain l where l: "l \<in> set (leads (tabs s'))" "l_ListID l = res_ListID x" by blast
  obtain new now where n: "tabs s' = (tabs s)\<lparr>leads := leads (tabs s) @ new, lead_lists := lead_lists (tabs s) @
      [(new_list cid ''demo-import'' (res_ListID x) now)\<lparr>ll_RowCount := res_Imported x\<rparr>]\<rparr>"
    using Import_body_ok [OF s2(2)] s2(1, 3) t by (auto simp: demo_leads_def)
  have "lead_in_campaign (tabs s') cid l" using l(2) by (simp add: lead_in_campaign_def n new_list_def)
  then show ?thesis using l(1) by (intro conjI bexI [of _ l]) (simp_all add: n)
qed

section \<open>A sample\<close>

definition sample_draws :: seed_draws where
  "sample_draws = \<lparr>sd_Salt = Some (replicate 16 (CHR ''s'')), sd_TOTP = (\<lambda>_. Inr ''SECRET''), sd_Nonce = Some (replicate 12 (CHR ''n'')),
     sd_AgentSalt = Some (replicate 16 (CHR ''t'')), sd_CarrierNonce = Some (replicate 12 (CHR ''m''))\<rparr>"

definition other_admin_db :: dbst where
  "other_admin_db = db_of (empty_tables\<lparr>users := [(seed_admin_row ''x'' ''y'' 3 0)\<lparr>u_Email := ''boss@a''\<rparr>]\<rparr>)"

lemma sample_hash: "\<exists>h. HashPassword ref_crypto (Some salt) pw = Some (Inr h)"
  by (simp add: HashPassword_def ref_crypto_def argon_defs)

lemma sample_encrypt: "\<exists>blob. Encrypt ref_crypto default_carrier_key x (Some nonce) = Inr blob"
  by (simp add: Encrypt_def newGCM_def keySize_def default_carrier_key_def)

lemma sample_admin:
  assumes "db_faults s = []" and "to_lower adminEmail \<notin> u_Email ` set (users (tabs s))"
    and "db_rand s (db_drawn s) \<notin> u_ID ` set (users (tabs s))"
  shows "\<exists>out s'. seedAdmin ref_crypto sample_draws ''pw'' default_carrier_key s = (Inr out, s')"
proof -
  have "filter (\<lambda>u. u_Email u = to_lower adminEmail) (users (tabs s)) = []"
    using assms(2) by (force simp: filter_empty_conv)
  then have "find_user adminEmail s = (Inl SqlNoRows, s)" using assms(1) by (simp add: find_user_def)
  moreover obtain h where "HashPassword ref_crypto (Some (replicate 16 (CHR ''s''))) ''pw'' = Some (Inr h)" using sample_hash by blast
  moreover obtain enc where "Encrypt ref_crypto default_carrier_key ''SECRET'' (Some (replicate 12 (CHR ''n''))) = Inr enc" using sample_encrypt by blast
  ultimately show ?thesis
    using assms by (simp add: seedAdmin_def GenerateTOTPSecret_def sample_draws_def hashed_def tryE_def bindE_def wrapE_def db_insert_def insert_admin_stmt_def)
qed

lemma sample_dids: "\<not> isl (fst (seedDIDs (db_of empty_tables)))" "db_faults (snd (seedDIDs (db_of empty_tables))) = []"
  by code_simp+

definition demo_env :: "string \<Rightarrow> string" where
  "demo_env k = (if k = ''SEED_DEMO'' then ''1'' else [])"

lemma sample_demo: "\<not> isl (fst (bindE (store_demo_agent h) (seed_campaign ref_crypto sample_draws default_carrier_key) (db_of empty_tables)))"
  by code_simp

lemma right_run: "\<not> isl (fst m) \<Longrightarrow> \<exists>x. m = (Inr x, snd m)"
  by (cases m; cases "fst m") auto

section \<open>Properties\<close>

text \<open>
  A seeding that succeeds leaves an account under the administrator's address that opens with the
  given password, unlocked and without failed logins. A new account is an administrator with the
  second factor on, and the secret that was printed is the one that is stored encrypted; an account
  that was there keeps its role, its second factor, and its being disabled.
\<close>

theorem seed_admin:
  assumes "crypto_library C" and "seedAdmin C d pw key s = (Inr out, s')"
    and "\<And>nonce. sd_Nonce d = Some nonce \<Longrightarrow> length nonce = nonceSize"
  shows "\<exists>u \<in> set (users (tabs s')). u_Email u = to_lower adminEmail \<and> VerifyPassword C (u_PasswordHash u) pw = Some True \<and>
    u_FailedLoginCount u = 0 \<and> u_LockedUntil u = None \<and>
    (if to_lower adminEmail \<in> u_Email ` set (users (tabs s))
     then \<exists>v \<in> set (users (tabs s)). u_ID u = u_ID v \<and> u_Role u = u_Role v \<and> u_TOTPEnabled u = u_TOTPEnabled v \<and>
            u_TOTPSecretEncrypted u = u_TOTPSecretEncrypted v \<and> u_DisabledAt u = u_DisabledAt v
     else u_Role u = UserRoleAdmin \<and> u_TOTPEnabled u \<and>
       (\<exists>enc secret. u_TOTPSecretEncrypted u = Some enc \<and> Decrypt C key enc = Inr secret \<and> ''TOTP secret: '' @ secret \<in> set out))"
  using assms(2)
proof (cases rule: seedAdmin_cases)
  case (created hash secret enc i now)
  then show ?thesis
    using verify_seeded [OF assms(1) created(1)] decrypt_encrypted [OF assms(1) created(2) assms(3)]
    by (auto simp: seed_admin_row_def)
next
  case (refreshed hash i)
  then obtain u where u: "u \<in> set (users (tabs s))" "u_ID u = i" "u_Email u = to_lower adminEmail" by blast
  then have "u\<lparr>u_PasswordHash := hash, u_FailedLoginCount := 0, u_LockedUntil := None\<rparr> \<in> set (users (tabs s'))"
    using update_users_mem [of u "tabs s" i "\<lambda>u. u\<lparr>u_PasswordHash := hash, u_FailedLoginCount := 0, u_LockedUntil := None\<rparr>"]
    by (simp add: refreshed(3))
  moreover have "to_lower adminEmail \<in> u_Email ` set (users (tabs s))" using u by (metis image_eqI)
  ultimately show ?thesis
    using verify_seeded [OF assms(1) refreshed(1)] u by (intro bexI) auto
qed

theorem seed_admin_witness:
  "\<exists>out s' u. seedAdmin ref_crypto sample_draws ''pw'' default_carrier_key (db_of empty_tables) = (Inr out, s') \<and>
     u \<in> set (users (tabs s')) \<and> u_Role u = UserRoleAdmin \<and> VerifyPassword ref_crypto (u_PasswordHash u) ''pw'' = Some True"
proof -
  have e: "users (tabs (db_of empty_tables)) = []" "db_faults (db_of empty_tables) = []" by (simp_all add: db_of_def empty_tables_def)
  obtain out s' where r: "seedAdmin ref_crypto sample_draws ''pw'' default_carrier_key (db_of empty_tables) = (Inr out, s')"
    using sample_admin [of "db_of empty_tables"] e by auto
  have "sd_Nonce sample_draws = Some nonce \<Longrightarrow> length nonce = nonceSize" for nonce
    by (auto simp: sample_draws_def nonceSize_def)
  from seed_admin [OF ref_crypto.crypto_library_axioms r this] e r show ?thesis by auto
qed



text \<open>
  After the lab numbers are seeded, the inbound router finds each of them, in whatever way the
  switch writes it, with a destination that it takes to its agents.
\<close>

theorem seeded_dids_routable:
  assumes "seedDIDs s = (Inr (), s')" and "NormalizeDID number \<in> fst ` set labDIDs" and "eg_db w = s'" and "db_faults s' = []"
  shows "\<exists>d. DIDLoader_LookupByNumber number w = (Inr d, w) \<and> d_Number d = NormalizeDID number \<and> isAgentPool (d_Destination d)"
proof -
  have "distinct (map fst labDIDs)" by (simp add: labDIDs_def)
  then have "did_set (tabs s') (NormalizeDID number) ''agent_pool:default''"
    using upsert_dids_set(1) [OF assms(1) [unfolded seedDIDs_def]] assms(2) by (auto simp: labDIDs_def)
  moreover have "isAgentPool ''agent_pool:default''" by code_simp
  ultimately show ?thesis
    using did_set_found [of w number "''agent_pool:default''"] assms(3, 4) by auto
qed

theorem seeded_dids_routable_witness:
  "\<exists>s' d. seedDIDs (db_of empty_tables) = (Inr (), s') \<and>
     fst (DIDLoader_LookupByNumber ''sip:+33123456789@lab'' (edge_init mr_init s')) = Inr d \<and> isAgentPool (d_Destination d)"
proof -
  obtain s' where s': "seedDIDs (db_of empty_tables) = (Inr (), s')" "db_faults s' = []"
    using right_run [OF sample_dids(1)] sample_dids(2) by auto
  have "NormalizeDID ''sip:+33123456789@lab'' \<in> fst ` set labDIDs" by code_simp
  moreover have "eg_db (edge_init mr_init s') = s'" by (simp add: edge_init_def)
  ultimately show ?thesis
    using seeded_dids_routable [OF s'(1) _ _ s'(2), of "''sip:+33123456789@lab''" "edge_init mr_init s'"] s'(1) by auto
qed



end
