(* ===== verification/Api_Routes.thy ===== *)
theory Api_Routes
  imports Api_Users Api_Carriers Api_Campaigns Api_Reports
begin

text \<open>
  The routing table of the API, \<open>Routes\<close> in \<open>services/api/internal/httpapi/auth.go\<close>: which handler
  answers a request and which middlewares stand before it. Matching a pattern is what the router
  chi documents; what chi and its CORS handler answer on their own is a parameter.
\<close>

section \<open>Requests and replies\<close>

text \<open>
  A request, with what decoding its body gives as each type of request (\<open>None\<close> where it is not one),
  and the random bytes and the clock of the handler that reads it.
\<close>

record api_input =
  in_request :: request
  in_query :: "string \<Rightarrow> string"
  in_Login :: "loginRequest option"
  in_Code :: "string option"
  in_CreateUser :: "createUserRequest option"
  in_PatchUser :: "patchUserRequest option"
  in_Password :: "string option"
  in_CreateCarrier :: "createCarrierRequest option"
  in_PatchCarrier :: "patchCarrierRequest option"
  in_CreateDID :: "createDIDRequest option"
  in_CreateCampaign :: "createCampaignRequest option"
  in_PatchCampaign :: "patchCampaignRequest option"
  in_AgentIDs :: "string list option"
  in_Upload :: upload
  in_CreateDisposition :: "createDispositionRequest option"
  in_Disposition :: "dispositionRequest option"
  in_random :: "string option"
  in_totp :: "GenerateOpts \<Rightarrow> goerr + string"
  in_now :: time

datatype api_body =
    AuthOut "auth_body \<times> cookie list"
  | UsersOut user_body
  | CarriersOut carrier_body
  | DIDOut DID
  | CampaignsOut campaign_body
  | ReportsOut report_body
  | Healthy

type_synonym 'r api_handler = "('r api, api_body) handler"

definition at_db :: "('b \<Rightarrow> api_body) \<Rightarrow> (dbst, 'b) handler \<Rightarrow> 'r api_handler" where
  "at_db f m = (\<lambda>w. case m (api_db w) of (q, s) \<Rightarrow> (map_reply f q, w\<lparr>api_db := s\<rparr>))"

definition at_api :: "('b \<Rightarrow> api_body) \<Rightarrow> ('r api, 'b) handler \<Rightarrow> 'r api_handler" where
  "at_api f m = (\<lambda>w. case m w of (q, w') \<Rightarrow> (map_reply f q, w'))"

section \<open>The table\<close>

datatype guard = Open | ForSession | ForAdmin | ForSupervisor | ForAgent

datatype endpoint =
    Healthz | Login | Logout | TOTPVerify | GetMe | TOTPSetup | TOTPEnable
  | ListCarriers | CreateCarrier | PatchCarrier | DeleteCarrier | CreateDID
  | ListUsers | CreateUser | PatchUser | ResetUserPassword
  | ListCampaigns | CreateCampaign | PatchCampaign | AssignCampaignAgents | ImportLeadList
  | ListDispositions | CreateDisposition | ReportsSummary | ReportsExportCSV
  | AgentListCampaigns | AgentJoinCampaign | AgentListDispositions | AgentNextLead | AgentDisposition

definition route_table :: "(string \<times> string list \<times> guard \<times> endpoint) list" where
  "route_table =
    [(''GET'', [''healthz''], Open, Healthz),
     (''POST'', [''auth'', ''login''], Open, Login),
     (''POST'', [''auth'', ''logout''], Open, Logout),
     (''POST'', [''auth'', ''2fa'', ''verify''], Open, TOTPVerify),
     (''GET'', [''auth'', ''me''], ForSession, GetMe),
     (''POST'', [''auth'', ''2fa'', ''setup''], ForSession, TOTPSetup),
     (''POST'', [''auth'', ''2fa'', ''enable''], ForSession, TOTPEnable),
     (''GET'', [''admin'', ''carriers''], ForAdmin, ListCarriers),
     (''POST'', [''admin'', ''carriers''], ForAdmin, CreateCarrier),
     (''PATCH'', [''admin'', ''carriers'', ''{id}''], ForAdmin, PatchCarrier),
     (''DELETE'', [''admin'', ''carriers'', ''{id}''], ForAdmin, DeleteCarrier),
     (''POST'', [''admin'', ''dids''], ForAdmin, CreateDID),
     (''GET'', [''admin'', ''users''], ForAdmin, ListUsers),
     (''POST'', [''admin'', ''users''], ForAdmin, CreateUser),
     (''PATCH'', [''admin'', ''users'', ''{id}''], ForAdmin, PatchUser),
     (''POST'', [''admin'', ''users'', ''{id}'', ''reset-password''], ForAdmin, ResetUserPassword),
     (''GET'', [''admin'', ''campaigns''], ForSupervisor, ListCampaigns),
     (''POST'', [''admin'', ''campaigns''], ForSupervisor, CreateCampaign),
     (''PATCH'', [''admin'', ''campaigns'', ''{id}''], ForSupervisor, PatchCampaign),
     (''PUT'', [''admin'', ''campaigns'', ''{id}'', ''agents''], ForSupervisor, AssignCampaignAgents),
     (''POST'', [''admin'', ''campaigns'', ''{id}'', ''lists'', ''import''], ForSupervisor, ImportLeadList),
     (''GET'', [''admin'', ''campaigns'', ''{id}'', ''dispositions''], ForSupervisor, ListDispositions),
     (''POST'', [''admin'', ''campaigns'', ''{id}'', ''dispositions''], ForSupervisor, CreateDisposition),
     (''GET'', [''admin'', ''reports'', ''summary''], ForSupervisor, ReportsSummary),
     (''GET'', [''admin'', ''reports'', ''export.csv''], ForSupervisor, ReportsExportCSV),
     (''GET'', [''agent'', ''campaigns''], ForAgent, AgentListCampaigns),
     (''POST'', [''agent'', ''campaigns'', ''{id}'', ''join''], ForAgent, AgentJoinCampaign),
     (''GET'', [''agent'', ''campaigns'', ''{id}'', ''dispositions''], ForAgent, AgentListDispositions),
     (''GET'', [''agent'', ''leads'', ''next''], ForAgent, AgentNextLead),
     (''POST'', [''agent'', ''dispositions''], ForAgent, AgentDisposition)]"

text \<open>A pattern against the segments of a path: the text that \<open>{id}\<close> stands for, empty without one.\<close>

fun match_segments :: "string list \<Rightarrow> string list \<Rightarrow> string option" where
  "match_segments [] [] = Some []"
| "match_segments (p # ps) (s # ss) =
     (if p = ''{id}'' then if s = [] then None else map_option (\<lambda>_. s) (match_segments ps ss)
      else if p = s then match_segments ps ss else None)"
| "match_segments _ _ = None"

definition path_segments :: "string \<Rightarrow> string list" where
  "path_segments path = tl (split_on (CHR ''/'') path)"

fun find_route :: "(string \<times> string list \<times> guard \<times> endpoint) list \<Rightarrow> string \<Rightarrow> string list \<Rightarrow> (guard \<times> endpoint \<times> string) option" where
  "find_route [] meth segs = None"
| "find_route ((m, p, g, ep) # rs) meth segs =
     (case match_segments p segs of
        Some i \<Rightarrow> if m = meth then Some (g, ep, i) else find_route rs meth segs
      | None \<Rightarrow> find_route rs meth segs)"

section \<open>Middlewares\<close>

fun guard_roles :: "guard \<Rightarrow> (User \<Rightarrow> (dbst, 'b) handler) \<Rightarrow> User \<Rightarrow> (dbst, 'b) handler" where
  "guard_roles ForAdmin = RequireAdmin"
| "guard_roles ForSupervisor = RequireSupervisor"
| "guard_roles ForAgent = RequireAgent"
| "guard_roles _ = (\<lambda>k. k)"

text \<open>The handler behind the guard gets the user that the session check puts into the context.\<close>

definition guarded :: "crypto \<Rightarrow> Server \<Rightarrow> request \<Rightarrow> guard \<Rightarrow> (User option \<Rightarrow> 'r api_handler) \<Rightarrow> 'r api_handler" where
  "guarded C S rq g k =
     (if g = Open then k None
      else (\<lambda>w. case RequireSession C S rq (guard_roles g (\<lambda>u. replyH 200 u)) (api_db w) of
        (Reply c u, s) \<Rightarrow> k (Some u) (w\<lparr>api_db := s\<rparr>)
      | (Fail c e, s) \<Rightarrow> (Fail c e, w\<lparr>api_db := s\<rparr>)
      | (NoBody c, s) \<Rightarrow> (NoBody c, w\<lparr>api_db := s\<rparr>)
      | (Panicked, s) \<Rightarrow> (Panicked, w\<lparr>api_db := s\<rparr>)))"

section \<open>The handlers\<close>

text \<open>\<open>userFrom\<close> is \<open>nil\<close> without a session check; a handler that reads it then panics.\<close>

definition with_user :: "User option \<Rightarrow> (User \<Rightarrow> 'r api_handler) \<Rightarrow> 'r api_handler" where
  "with_user user k = (case user of None \<Rightarrow> (\<lambda>w. (Panicked, w)) | Some u \<Rightarrow> k u)"

fun serve :: "crypto \<Rightarrow> uuid_lib \<Rightarrow> 'r redis option \<Rightarrow> Server \<Rightarrow> api_input \<Rightarrow> endpoint \<Rightarrow> string \<Rightarrow> User option \<Rightarrow> 'r api_handler" where
  "serve C U P S x Healthz i user = replyH 200 Healthy"
| "serve C U P S x Login i user = at_db AuthOut (handleLogin C U S (in_request x) (in_Login x) (in_random x) (in_now x))"
| "serve C U P S x Logout i user = at_db AuthOut (handleLogout C S (in_request x))"
| "serve C U P S x TOTPVerify i user = at_db AuthOut (handleTOTPVerify C U S (in_request x) (in_Code x) (in_random x) (in_now x))"
| "serve C U P S x GetMe i user = at_db AuthOut (handleMe user)"
| "serve C U P S x TOTPSetup i user = with_user user (\<lambda>u. at_db AuthOut (handleTOTPSetup C S u (in_totp x) (in_random x)))"
| "serve C U P S x TOTPEnable i user =
     with_user user (\<lambda>u. at_db AuthOut (handleTOTPEnable C S (in_request x) u (in_Code x) (in_now x)))"
| "serve C U P S x ListCarriers i user = at_api CarriersOut handleListCarriers"
| "serve C U P S x CreateCarrier i user = at_api CarriersOut (handleCreateCarrier C U P S (in_random x) (in_CreateCarrier x))"
| "serve C U P S x PatchCarrier i user = at_api CarriersOut (handlePatchCarrier C U P S (in_random x) i (in_PatchCarrier x))"
| "serve C U P S x DeleteCarrier i user = at_api CarriersOut (handleDeleteCarrier U P i)"
| "serve C U P S x CreateDID i user = at_db DIDOut (handleCreateDID (in_CreateDID x))"
| "serve C U P S x ListUsers i user = at_db UsersOut handleListUsers"
| "serve C U P S x CreateUser i user = at_db UsersOut (handleCreateUser C (in_random x) (in_CreateUser x))"
| "serve C U P S x PatchUser i user = at_db UsersOut (handlePatchUser U i (in_PatchUser x) (in_now x))"
| "serve C U P S x ResetUserPassword i user = at_db UsersOut (handleResetUserPassword C U (in_random x) i (in_Password x))"
| "serve C U P S x ListCampaigns i user = at_db CampaignsOut handleListCampaigns"
| "serve C U P S x CreateCampaign i user = at_db CampaignsOut (handleCreateCampaign U (in_CreateCampaign x))"
| "serve C U P S x PatchCampaign i user = at_db CampaignsOut (handlePatchCampaign U i (in_PatchCampaign x))"
| "serve C U P S x AssignCampaignAgents i user = at_db CampaignsOut (handleAssignCampaignAgents U i (in_AgentIDs x))"
| "serve C U P S x ImportLeadList i user = at_db CampaignsOut (handleImportLeadList U i (in_Upload x))"
| "serve C U P S x ListDispositions i user = at_db CampaignsOut (handleListDispositions U i)"
| "serve C U P S x CreateDisposition i user = at_db CampaignsOut (handleCreateDisposition U i (in_CreateDisposition x))"
| "serve C U P S x ReportsSummary i user = at_db ReportsOut (handleReportsSummary U (in_query x))"
| "serve C U P S x ReportsExportCSV i user = at_db ReportsOut (handleReportsExportCSV U (in_query x))"
| "serve C U P S x AgentListCampaigns i user = with_user user (\<lambda>u. at_db CampaignsOut (handleAgentListCampaigns u))"
| "serve C U P S x AgentJoinCampaign i user = with_user user (\<lambda>u. at_db CampaignsOut (handleAgentJoinCampaign U u i))"
| "serve C U P S x AgentListDispositions i user = with_user user (\<lambda>u. at_db CampaignsOut (handleAgentListDispositions U u i))"
| "serve C U P S x AgentNextLead i user = with_user user (\<lambda>u. at_db CampaignsOut (handleAgentNextLead U u (in_query x ''campaign_id'')))"
| "serve C U P S x AgentDisposition i user = with_user user (\<lambda>u. at_db CampaignsOut (handleAgentDisposition U u (in_Disposition x) (in_now x)))"

text \<open>
  The libraries: whether the CORS handler answers the request itself, a preflight, and the status of
  a request without a route. The middlewares of the sub-router under \<open>/agent\<close> run before it finds
  that it has no route; those of the groups under \<open>/admin\<close> belong to their routes.
\<close>

record router_lib =
  rl_preflight :: "request \<Rightarrow> bool"
  rl_unrouted :: "request \<Rightarrow> int"

definition Routes :: "router_lib \<Rightarrow> crypto \<Rightarrow> uuid_lib \<Rightarrow> 'r redis option \<Rightarrow> Server \<Rightarrow> api_input \<Rightarrow> 'r api_handler" where
  "Routes L C U P S x =
     (let rq = in_request x; segs = path_segments (rq_Path rq) in
      if rl_preflight L rq then (\<lambda>w. (NoBody 200, w))
      else case find_route route_table (rq_Method rq) segs of
        Some (g, ep, i) \<Rightarrow> guarded C S rq g (serve C U P S x ep i)
      | None \<Rightarrow> guarded C S rq (if take 1 segs = [''agent''] then ForAgent else Open)
                  (\<lambda>_ w. (NoBody (rl_unrouted L rq), w)))"

section \<open>Lemmas\<close>

lemma find_route_mem:
  "find_route rs meth segs = Some (g, ep, i) \<Longrightarrow> \<exists>p. (meth, p, g, ep) \<in> set rs \<and> match_segments p segs = Some i"
  by (induction rs meth segs rule: find_route.induct) (auto split: option.splits if_splits)

text \<open>The roles that an area of the API is for.\<close>

definition area_roles :: "string \<Rightarrow> UserRole set option" where
  "area_roles seg =
     (if seg = ''admin'' then Some {UserRoleAdmin, UserRoleSupervisor}
      else if seg = ''agent'' then Some {UserRoleAgent} else None)"

fun roles_of :: "guard \<Rightarrow> UserRole set" where
  "roles_of ForAdmin = {UserRoleAdmin}"
| "roles_of ForSupervisor = {UserRoleAdmin, UserRoleSupervisor}"
| "roles_of ForAgent = {UserRoleAgent}"
| "roles_of _ = UNIV"

lemma guard_roles_eq: "guard_roles g k = require_role (roles_of g) k"
  by (cases g) (simp_all add: RequireAdmin_def RequireSupervisor_def RequireAgent_def require_role_def fun_eq_iff)

lemma route_table_areas:
  "\<forall>(m, p, g, ep) \<in> set route_table. p \<noteq> [] \<and> hd p \<noteq> ''{id}'' \<and>
     (case area_roles (hd p) of None \<Rightarrow> True | Some roles \<Rightarrow> g \<noteq> Open \<and> roles_of g \<subseteq> roles)"
  unfolding route_table_def by (simp add: area_roles_def)

lemma area_guard:
  assumes "find_route route_table meth (seg # rest) = Some (g, ep, i)" and "area_roles seg = Some roles"
  shows "g \<noteq> Open \<and> roles_of g \<subseteq> roles"
proof -
  obtain p where p: "(meth, p, g, ep) \<in> set route_table" "match_segments p (seg # rest) = Some i"
    using find_route_mem [OF assms(1)] by blast
  have a: "p \<noteq> []" "hd p \<noteq> ''{id}''" "case area_roles (hd p) of None \<Rightarrow> True | Some roles \<Rightarrow> g \<noteq> Open \<and> roles_of g \<subseteq> roles"
    using bspec [OF route_table_areas p(1)] by simp_all
  then have "hd p = seg" using p(2) by (cases p) (auto split: if_splits)
  then show ?thesis using a(3) assms(2) by simp
qed

text \<open>A guard lets through only the users it is for.\<close>

lemma guarded_cases:
  assumes "guarded C S rq g k w = (q, w')" and "g \<noteq> Open"
  shows "(q \<in> {Fail 401 ''unauthorized'', Fail 403 ''account_disabled'', Fail 403 ''totp_setup_required'', Fail 403 ''forbidden''} \<and>
      (\<exists>s. w' = w\<lparr>api_db := s\<rparr> \<and> tabs s = tabs (api_db w))) \<or>
    (\<exists>u s. k (Some u) (w\<lparr>api_db := s\<rparr>) = (q, w') \<and> tabs s = tabs (api_db w) \<and>
       session_of (tabs (api_db w)) (db_now (api_db w)) (HashToken C (rq_Cookie rq CookieSession)) u \<and>
       u_Role u \<in> roles_of g \<and> u_DisabledAt u = None)"
proof -
  obtain q1 s where r: "RequireSession C S rq (require_role (roles_of g) (\<lambda>u. replyH 200 u)) (api_db w) = (q1, s)" by fastforce
  from RequireSession_cases [OF r] show ?thesis
  proof (elim disjE exE conjE)
    assume f: "q1 \<in> {Fail 401 ''unauthorized'', Fail 403 ''account_disabled'', Fail 403 ''totp_setup_required''}" "tabs s = tabs (api_db w)"
    then have "q \<in> {Fail 401 ''unauthorized'', Fail 403 ''account_disabled'', Fail 403 ''totp_setup_required''} \<and> w' = w\<lparr>api_db := s\<rparr>"
      using assms r by (auto simp: guarded_def guard_roles_eq)
    then show ?thesis using f(2) by blast
  next
    fix u s1
    assume u: "require_role (roles_of g) (\<lambda>u. replyH 200 u) u s1 = (q1, s)" "tabs s1 = tabs (api_db w)"
      "session_of (tabs (api_db w)) (db_now (api_db w)) (HashToken C (rq_Cookie rq CookieSession)) u" "u_DisabledAt u = None"
    show ?thesis
    proof (cases "u_Role u \<in> roles_of g")
      case True
      then have "q1 = Reply 200 u \<and> s = s1" using u(1) by (simp add: require_role_def)
      then have "k (Some u) (w\<lparr>api_db := s\<rparr>) = (q, w') \<and> s = s1" using assms r by (simp add: guarded_def guard_roles_eq)
      then show ?thesis using True u by blast
    next
      case False
      then have "q1 = Fail 403 ''forbidden'' \<and> s = s1" using u(1) by (simp add: require_role_def)
      then have "q = Fail 403 ''forbidden'' \<and> w' = w\<lparr>api_db := s1\<rparr>" using assms r by (simp add: guarded_def guard_roles_eq)
      then show ?thesis using u(2) by blast
    qed
  qed
qed

text \<open>A login that is answered with a session.\<close>

lemma after_password_LoginOk:
  assumes "after_password C U S rq rnd now u s = (Reply c (LoginOk r, cks), s')"
  shows "r = toUserResponse u \<and> \<not> adminTOTPSetupRequired S u \<and>
    (\<exists>buf n. rnd = Some buf \<and> cks = [cookie_of S CookieSession (b64_encode RawURL buf) (SessionTTL S), clearCookie CookiePending (CookieSecure S)] \<and>
       users (tabs s') = users (update_users (u_ID u) (set_lock 0 None) (tabs s)) \<and>
       sessions (tabs s') = sessions (tabs s) @ [n] \<and> s_UserID n = u_ID u \<and> s_ExpiresAt n = pg_time (now + SessionTTL S) \<and>
       s_TokenHash n = HashToken C (b64_encode RawURL buf) \<and> HashToken C (b64_encode RawURL buf) \<notin> s_TokenHash ` set (sessions (tabs s)))"
proof -
  let ?ck = "\<lambda>plain. [cookie_of S CookieSession plain (SessionTTL S), clearCookie CookiePending (CookieSecure S)]"
  have no_totp: "\<not> u_TOTPEnabled u"
    using assms by (auto simp: after_password_def callH_iff split: if_splits sum.splits)
  have no_enrol: "\<not> (RequireAdmin2FA S \<and> u_Role u = UserRoleAdmin)"
  proof
    assume a: "RequireAdmin2FA S \<and> u_Role u = UserRoleAdmin"
    then obtain s1 where "open_session C S u rnd now (\<lambda>plain. replyH 200 (TotpSetupRequired (toUserResponse u), ?ck plain)) s1 =
        (Reply c (LoginOk r, cks), s')"
      using assms no_totp by (auto simp: after_password_def callH_iff)
    then show False by (auto dest!: open_session_reply)
  qed
  obtain s1 where s1: "resetFailedLogin (u_ID u) s = (Inr (), s1)"
    and op: "open_session C S u rnd now (\<lambda>plain.
        ignoreH (insertAudit (Some (u_ID u)) ''login_ok'' (rq_ip rq) ''{}'') (replyH 200 (LoginOk (toUserResponse u), ?ck plain))) s1 =
        (Reply c (LoginOk r, cks), s')"
    using assms no_totp no_enrol by (auto simp: after_password_def callH_iff)
  obtain buf s2 where buf: "rnd = Some buf" "insertSession (u_ID u) (HashToken C (b64_encode RawURL buf)) (now + SessionTTL S) s1 = (Inr (), s2)"
    and k: "ignoreH (insertAudit (Some (u_ID u)) ''login_ok'' (rq_ip rq) ''{}'')
        (replyH 200 (LoginOk (toUserResponse u), ?ck (b64_encode RawURL buf))) s2 = (Reply c (LoginOk r, cks), s')"
    using open_session_reply [OF op] by auto
  have t1: "tabs s1 = update_users (u_ID u) (set_lock 0 None) (tabs s)"
    using db_update_ok [OF s1 [unfolded resetFailedLogin_def]] by simp
  obtain ra where a: "insertAudit (Some (u_ID u)) ''login_ok'' (rq_ip rq) ''{}'' s2 = (ra, s')"
    and out: "r = toUserResponse u" "cks = ?ck (b64_encode RawURL buf)"
    using k by (auto simp: ignoreH_iff)
  show ?thesis
    using insertSession_ok [OF buf(2)] insertAudit_frame [OF a] t1 buf(1) out no_enrol
    by (auto simp: adminTOTPSetupRequired_def update_users_def)
qed

lemma handleLogin_LoginOk:
  assumes "handleLogin C U S rq body rnd now s = (Reply c (LoginOk r, cks), s')"
  shows "\<exists>u s1. u \<in> set (users (tabs s)) \<and> u_DisabledAt u = None \<and> tabs s1 = tabs s \<and>
    after_password C U S rq rnd now u s1 = (Reply c (LoginOk r, cks), s')"
proof -
  obtain req where b: "body = Some req" using assms by (cases body) (auto simp: handleLogin_def)
  let ?email = "trim_space (to_lower (lr_Email req))"
  have ne: "\<not> (?email = [] \<or> lr_Password req = [])" using assms b by (auto simp: handleLogin_def Let_def)
  obtain q1 s1 where l: "lookupUserByEmail ?email s = (q1, s1)" by fastforce
  show ?thesis
  proof (cases q1)
    case (Inl e)
    then show ?thesis using assms b ne l by (auto simp: handleLogin_def Let_def callH_def split: if_splits)
  next
    case (Inr u)
    note u = lookupUserByEmail_ok [OF l [unfolded Inr]]
    have "u_DisabledAt u = None \<and> after_password C U S rq rnd now u s1 = (Reply c (LoginOk r, cks), s')"
      using assms b ne l Inr
      by (auto simp: handleLogin_def Let_def callH_def ignoreH_def split: if_splits option.splits bool.splits)
    then show ?thesis using u by blast
  qed
qed

lemma find_login: "find_route route_table ''POST'' (path_segments ''/auth/login'') = Some (Open, Login, [])"
  by code_simp

lemma find_me: "find_route route_table ''GET'' (path_segments ''/auth/me'') = Some (ForSession, GetMe, [])"
  by code_simp

lemma map_reply_Reply: "map_reply f q = Reply c b \<Longrightarrow> (\<And>b'. q = Reply c b' \<Longrightarrow> b = f b' \<Longrightarrow> thesis) \<Longrightarrow> thesis"
  by (cases q) auto

lemma b64_encode_nonempty: "b64_encode e s = [] \<longleftrightarrow> s = []"
  by (induction s rule: b64_sextets.induct) (simp_all add: b64_encode_def)

lemma filter_key_unique: "distinct (map k xs) \<Longrightarrow> x \<in> set xs \<Longrightarrow> filter (\<lambda>y. k y = k x) xs = [x]"
  by (induction xs) (auto simp: image_iff filter_empty_conv)

lemma filter_map_key:
  "(\<And>v. u_ID (f v) = u_ID v) \<Longrightarrow>
   filter (\<lambda>v. u_ID v = i) (map (\<lambda>v. if u_ID v = i then f v else v) us) = map f (filter (\<lambda>v. u_ID v = i) us)"
  by (induction us) auto

lemma set_lock_id [simp]: "u_ID (set_lock n l u) = u_ID u"
  by (simp add: set_lock_def)

lemma session_users_none:
  "h \<notin> s_TokenHash ` set ss \<Longrightarrow>
   concat (map (\<lambda>s. if s_TokenHash s = h \<and> P s then f s else []) ss) = []"
  by auto

section \<open>A sample\<close>

definition sample_input :: "request \<Rightarrow> api_input" where
  "sample_input rq =
     \<lparr>in_request = rq, in_query = (\<lambda>_. []), in_Login = Some good_login, in_Code = None, in_CreateUser = None, in_PatchUser = None,
      in_Password = None, in_CreateCarrier = None, in_PatchCarrier = None,
      in_CreateDID = Some \<lparr>cdr_Number = ''+33140000000'', cdr_Destination = [], cdr_CarrierID = None\<rparr>, in_CreateCampaign = None,
      in_PatchCampaign = None, in_AgentIDs = None, in_Upload = \<lparr>up_valid = False, up_file = None, up_name = []\<rparr>,
      in_CreateDisposition = None, in_Disposition = None, in_random = Some ''random'', in_totp = (\<lambda>_. Inr ''SECRET''), in_now = 7000\<rparr>"

definition sample_router :: router_lib where
  "sample_router = \<lparr>rl_preflight = (\<lambda>rq. rq_Method rq = ''OPTIONS''), rl_unrouted = (\<lambda>_. 404)\<rparr>"

definition api_of :: "dbst \<Rightarrow> mem_redis_state api" where
  "api_of s = \<lparr>api_db = s, api_redis = mr_init\<rparr>"

lemma sample_login:
  assumes "VerifyPassword ref_crypto h ''secret'' = Some True" and "u = (demo_user UserRoleAgent)\<lparr>u_PasswordHash := h\<rparr>"
  shows "\<exists>s1. handleLogin ref_crypto ref_uuid demo_server rq (Some good_login) (Some ''random'') 7000 (auth_db u) =
    (Reply 200 (LoginOk (toUserResponse u), [cookie_of demo_server CookieSession (b64_encode RawURL ''random'') (SessionTTL demo_server),
       clearCookie CookiePending (CookieSecure demo_server)]), s1)"
proof -
  have e: "trim_space (to_lower '' A@b'') = ''a@b''" "to_lower ''a@b'' = ''a@b''" by code_simp+
  show ?thesis
    using assms
    by (simp add: handleLogin_def good_login_def Let_def e lookupUserByEmail_def auth_db_def db_of_def empty_tables_def
        demo_user_def callH_def ignoreH_def after_password_def resetFailedLogin_def open_session_def NewSessionToken_def
        insertSession_def db_insert_def insert_session_stmt_def update_users_def set_lock_def insertAudit_def)
qed

section \<open>Properties\<close>

text \<open>
  C34. The areas of the API are closed: a request under \<open>/admin\<close> without a session of an administrator
  or a supervisor, or under \<open>/agent\<close> without one of an agent, whatever its method and the rest of its
  path, is refused, or has no route, and changes no table and nothing on Redis.
\<close>

theorem area_closed:
  assumes "Routes L C U P S x w = (q, w')"
    and "path_segments (rq_Path (in_request x)) = seg # rest" and "area_roles seg = Some roles"
    and "\<forall>u. session_of (tabs (api_db w)) (db_now (api_db w)) (HashToken C (rq_Cookie (in_request x) CookieSession)) u \<longrightarrow>
           u_Role u \<notin> roles \<or> u_DisabledAt u \<noteq> None"
  shows "q \<in> {Fail 401 ''unauthorized'', Fail 403 ''account_disabled'', Fail 403 ''totp_setup_required'', Fail 403 ''forbidden'',
      NoBody (if rl_preflight L (in_request x) then 200 else rl_unrouted L (in_request x))} \<and>
    tabs (api_db w') = tabs (api_db w) \<and> api_redis w' = api_redis w"
proof (cases "rl_preflight L (in_request x)")
  case True
  then show ?thesis using assms(1) by (auto simp: Routes_def Let_def)
next
  case no: False
  show ?thesis
  proof (cases "find_route route_table (rq_Method (in_request x)) (seg # rest)")
    case None
    let ?g = "if take 1 (seg # rest) = [''agent''] then ForAgent else Open"
    have g: "guarded C S (in_request x) ?g (\<lambda>_ w. (NoBody (rl_unrouted L (in_request x)), w)) w = (q, w')"
      using assms(1, 2) no None by (simp add: Routes_def Let_def)
    show ?thesis
    proof (cases "?g = Open")
      case True
      then show ?thesis using g no by (simp add: guarded_def)
    next
      case False
      show ?thesis using guarded_cases [OF g False] no by auto
    qed
  next
    case (Some r)
    obtain g ep i where r: "r = (g, ep, i)" by (cases r)
    have g: "guarded C S (in_request x) g (serve C U P S x ep i) w = (q, w')"
      using assms(1, 2) no Some r by (simp add: Routes_def Let_def)
    note a = area_guard [OF Some [unfolded r] assms(3)]
    show ?thesis using guarded_cases [OF g] a assms(4) by fastforce
  qed
qed

theorem area_closed_witness:
  "\<exists>q w'. Routes sample_router ref_crypto ref_uuid (Some mem_redis) demo_server (sample_input demo_request) (api_of (session_db UserRoleAgent)) = (q, w') \<and>
     (\<forall>x. q \<noteq> Reply 200 x) \<and> tabs (api_db w') = tabs (session_db UserRoleAgent)"
proof -
  obtain q w' where m: "Routes sample_router ref_crypto ref_uuid (Some mem_redis) demo_server (sample_input demo_request)
      (api_of (session_db UserRoleAgent)) = (q, w')" by fastforce
  have p: "path_segments (rq_Path (in_request (sample_input demo_request))) = ''admin'' # [''users'']"
    by (simp add: sample_input_def demo_request_def path_segments_def)
  have a: "u \<in> set (users (tabs (session_db UserRoleAgent))) \<Longrightarrow> u_Role u = UserRoleAgent" for u
    by (auto simp: session_db_def db_of_def demo_user_def)
  have r: "area_roles ''admin'' = Some {UserRoleAdmin, UserRoleSupervisor}" by (simp add: area_roles_def)
  show ?thesis
    using area_closed [OF m p r] a m by (auto simp: session_of_def api_of_def)
qed



end
