(* ===== verification/Edge_Main.thy ===== *)
theory Edge_Main
  imports Edge_Http Esl_Client
begin

text \<open>
  The start of the edge service, \<open>services/edge/cmd/edge/main.go\<close>: which parts run with which settings,
  as a function of the environment, and the subscriber that reloads the gateways when the API
  announces a change. Serving HTTP, the signals and the shutdown are left to the system.
\<close>

section \<open>Settings\<close>

text \<open>The environment gives the empty text for a variable that is not set.\<close>

definition envOr :: "(string \<Rightarrow> string) \<Rightarrow> string \<Rightarrow> string \<Rightarrow> string" where
  "envOr env key fallback = (if env key \<noteq> [] then env key else fallback)"

definition splitCSV :: "string \<Rightarrow> string list" where
  "splitCSV s = filter (\<lambda>p. p \<noteq> []) (map trim_space (split_on (CHR '','') s))"

text \<open>
  What the libraries give: the error of \<open>sql.Open\<close>, the client for a Redis URL or the error of
  \<open>ParseURL\<close>, and the API of the event socket at an address with a password.
\<close>

record 'r edge_libs =
  el_sqlOpen :: "string \<Rightarrow> goerr option"
  el_redis :: "string \<Rightarrow> goerr + 'r redis"
  el_esl :: "string \<Rightarrow> string \<Rightarrow> esl"
  el_uuid :: uuid_lib
  el_crypto :: crypto

text \<open>The parts that run: the reloader, the subscriber, the routes of the agents and the inbound router.\<close>

record 'r edge_parts =
  ep_Reloader :: "Reloader option"
  ep_Redis :: "'r redis option"
  ep_Subscriber :: bool
  ep_Agents :: "'r AgentServer option"
  ep_Router :: "'r Router option"

definition session_ttl :: time where
  "session_ttl = 2 * 3600 * second"

definition edge_esl :: "'r edge_libs \<Rightarrow> (string \<Rightarrow> string) \<Rightarrow> esl" where
  "edge_esl L env = el_esl L (envOr env ''FREESWITCH_ESL_ADDR'' ''127.0.0.1:8021'') (envOr env ''FREESWITCH_ESL_PASSWORD'' ''ClueCon'')"

definition edge_reloader :: "'r edge_libs \<Rightarrow> (string \<Rightarrow> string) \<Rightarrow> goerr + Reloader option" where
  "edge_reloader L env =
     (if env ''DATABASE_URL'' = [] then Inr None
      else if env ''CARRIER_SECRET_KEY'' = [] then Inl (ErrMsg ''CARRIER_SECRET_KEY is required when DATABASE_URL is set'')
      else case ParseKey (env ''CARRIER_SECRET_KEY'') of
        Inl e \<Rightarrow> Inl (ErrWrap ''CARRIER_SECRET_KEY'' e)
      | Inr key \<Rightarrow>
          (case el_sqlOpen L (env ''DATABASE_URL'') of
             Some e \<Rightarrow> Inl (ErrWrap ''database'' e)
           | None \<Rightarrow> Inr (Some \<lparr>rl_ESL = edge_esl L env,
               rl_GatewayDir = envOr env ''FREESWITCH_GATEWAY_DIR'' ''/etc/freeswitch/gateways'', rl_SecretKey = key\<rparr>)))"

definition edge_redis :: "'r edge_libs \<Rightarrow> (string \<Rightarrow> string) \<Rightarrow> goerr + 'r redis option" where
  "edge_redis L env =
     (if env ''REDIS_URL'' = [] then Inr None
      else map_sum (ErrWrap ''REDIS_URL'') Some (el_redis L (env ''REDIS_URL'')))"

definition global_cps :: "(string \<Rightarrow> string) \<Rightarrow> int" where
  "global_cps env =
     (if env ''GLOBAL_MAX_CPS'' = [] then 0
      else case parse_int (env ''GLOBAL_MAX_CPS'') of None \<Rightarrow> 0 | Some n \<Rightarrow> n)"

definition pres_seconds :: int where
  "pres_seconds = NewPresence_ttl (session_ttl div second)"

definition edge_dialer :: "'r edge_libs \<Rightarrow> (string \<Rightarrow> string) \<Rightarrow> 'r redis \<Rightarrow> 'r Manual" where
  "edge_dialer L env rdb =
     \<lparr>m_ESL = edge_esl L env, m_RDB = rdb, m_Carriers = ListOrdered, m_Pres = Some pres_seconds,
      m_GlobalMaxCPS = global_cps env, m_uuid = el_uuid L\<rparr>"

definition edge_creds :: "'r edge_libs \<Rightarrow> (string \<Rightarrow> string) \<Rightarrow> 'r redis \<Rightarrow> 'r Provisioner" where
  "edge_creds L env rdb =
     \<lparr>pv_ESL = edge_esl L env, pv_DirectoryDir = envOr env ''FREESWITCH_DIRECTORY_DIR'' ''/etc/freeswitch/directory/default'',
      pv_WSSURL = envOr env ''FREESWITCH_WSS_URL'' ''wss://localhost:7443'',
      pv_SIPDomain = envOr env ''FREESWITCH_SIP_DOMAIN'' ''localhost'', pv_ICEServers = Some [], pv_TTL = session_ttl,
      pv_RDB = rdb, pv_Pres = Some pres_seconds, pv_uuid = el_uuid L\<rparr>"

definition edge_agents :: "'r edge_libs \<Rightarrow> (string \<Rightarrow> string) \<Rightarrow> 'r redis \<Rightarrow> 'r AgentServer" where
  "edge_agents L env rdb =
     \<lparr>as_RDB = Some rdb, as_PresRDB = rdb, as_PresTTL = pres_seconds, as_Creds = edge_creds L env rdb,
      as_Dialer = Some (edge_dialer L env rdb), as_HasHub = True,
      as_CORS = splitCSV (envOr env ''CORS_ORIGINS'' ''http://localhost:3000''),
      as_RequireAdmin2FA = env_bool (env ''REQUIRE_ADMIN_2FA'') True, as_uuid = el_uuid L, as_crypto = el_crypto L\<rparr>"

definition edge_router :: "'r edge_libs \<Rightarrow> (string \<Rightarrow> string) \<Rightarrow> 'r redis \<Rightarrow> 'r Router" where
  "edge_router L env rdb =
     \<lparr>rt_RDB = rdb, rt_DIDs = DIDLoader_LookupByNumber, rt_ESL = Some (edge_esl L env), rt_Pres = Some pres_seconds,
      rt_uuid = el_uuid L\<rparr>"

text \<open>\<open>main\<close>: an error of \<open>log.Fatal\<close>, or what runs. The database is open where there is a reloader.\<close>

definition edge_main :: "'r edge_libs \<Rightarrow> (string \<Rightarrow> string) \<Rightarrow> goerr + 'r edge_parts" where
  "edge_main L env =
     (case edge_reloader L env of
        Inl e \<Rightarrow> Inl e
      | Inr rl \<Rightarrow>
          (case edge_redis L env of
             Inl e \<Rightarrow> Inl e
           | Inr rdb \<Rightarrow>
               let both = (case rl of None \<Rightarrow> None | Some _ \<Rightarrow> rdb) in
               Inr \<lparr>ep_Reloader = rl, ep_Redis = rdb, ep_Subscriber = (both \<noteq> None),
                    ep_Agents = map_option (edge_agents L env) both, ep_Router = map_option (edge_router L env) both\<rparr>))"

section \<open>The subscriber\<close>

text \<open>
  What happens until the context is cancelled or the channel closes: messages of the channel
  \<open>carriers.changed\<close>, and what the rest of the system does in between. The result lists the outcomes
  of the reloads; an error is logged and the next message reloads again.
\<close>

datatype 'r sub_input = SubMessage string | SubOther "'r edge \<Rightarrow> 'r edge"

definition subscribed_channel :: string where
  "subscribed_channel = ''carriers.changed''"

fun subscribeCarriersChanged ::
    "uuid_lib \<Rightarrow> crypto \<Rightarrow> Reloader \<Rightarrow> 'r sub_input list \<Rightarrow> 'r edge \<Rightarrow> (goerr + unit) list \<times> 'r edge" where
  "subscribeCarriersChanged U C rl [] w = ([], w)"
| "subscribeCarriersChanged U C rl (SubMessage payload # xs) w =
     (case ReloadAll U C rl w of
        (r, w') \<Rightarrow> (case subscribeCarriersChanged U C rl xs w' of (rs, w'') \<Rightarrow> (r # rs, w'')))"
| "subscribeCarriersChanged U C rl (SubOther f # xs) w = subscribeCarriersChanged U C rl xs (f w)"

text \<open>The reload two seconds after the start, unless the context is cancelled before.\<close>

definition boot_reload :: "uuid_lib \<Rightarrow> crypto \<Rightarrow> Reloader \<Rightarrow> bool \<Rightarrow> 'r edge \<Rightarrow> 'r edge" where
  "boot_reload U C rl cancelled w = (if cancelled then w else snd (ReloadAll U C rl w))"

end
