(* ===== verification/Edge_Routes.thy ===== *)
theory Edge_Routes
  imports Edge_Main
begin

text \<open>
  The routes of the edge service: the \<open>Mount\<close> functions of \<open>services/edge/internal/httpapi\<close> and the
  handler that \<open>services/edge/cmd/edge/main.go\<close> serves, a \<open>ServeMux\<close> behind the CORS middleware. What
  the mux answers to a request without a route is a parameter.
\<close>

section \<open>Requests and answers\<close>

text \<open>
  A request with the value of the session cookie, what decoding its body gives, the random bytes of
  its handler and, for a socket, what happens while it is open.
\<close>

record edge_request =
  er_Method :: string
  er_Path :: string
  er_Origin :: string
  er_Session :: string
  er_Drawn :: "string option"
  er_State :: "State option"
  er_Outbound :: "outboundBody option"
  er_Hangup :: "string option"
  er_Handshake :: bool
  er_Sent :: "nat \<Rightarrow> bool"
  er_Socket :: "ws_input list"
  er_Live :: "live_input list"

datatype edge_answer =
    Answer "edge_body reply"
  | Health
  | EventSocket "Event ws_answer"
  | LiveSocket "Wallboard ws_answer"

section \<open>The table\<close>

datatype edge_endpoint =
    StartSession | StopSession | AgentState | WebRTCSettings | OutboundCall | HangupCall | Events | LiveBoard

definition MountCalls :: "((string \<times> string) \<times> edge_endpoint) list" where
  "MountCalls = [((''POST'', ''/calls/outbound''), OutboundCall), ((''POST'', ''/calls/hangup''), HangupCall)]"

definition MountWS :: "((string \<times> string) \<times> edge_endpoint) list" where
  "MountWS = [((''GET'', ''/ws''), Events)]"

definition MountLiveWS :: "((string \<times> string) \<times> edge_endpoint) list" where
  "MountLiveWS = [((''GET'', ''/ws/live''), LiveBoard)]"

definition Mount :: "((string \<times> string) \<times> edge_endpoint) list" where
  "Mount =
     [((''POST'', ''/agent/session/start''), StartSession), ((''POST'', ''/agent/session/stop''), StopSession),
      ((''POST'', ''/agent/state''), AgentState), ((''GET'', ''/agent/webrtc-config''), WebRTCSettings)] @
     MountCalls @ MountWS @ MountLiveWS"

text \<open>A pattern with \<open>GET\<close> takes \<open>HEAD\<close> too.\<close>

definition mux_method :: "string \<Rightarrow> string" where
  "mux_method m = (if m = ''HEAD'' then ''GET'' else m)"

section \<open>The handler\<close>

text \<open>A handler that goes on to open a socket, behind a session check.\<close>

definition behind ::
  "('r edge, User) handler \<Rightarrow> (User \<Rightarrow> 'r edge \<Rightarrow> (edge_answer \<times> 'r edge) option) \<Rightarrow> 'r edge \<Rightarrow> (edge_answer \<times> 'r edge) option" where
  "behind g k w =
     (case g w of
        (Reply c u, w') \<Rightarrow> k u w'
      | (Fail c e, w') \<Rightarrow> Some (Answer (Fail c e), w')
      | (NoBody c, w') \<Rightarrow> Some (Answer (NoBody c), w')
      | (Panicked, w') \<Rightarrow> Some (Answer Panicked, w'))"

definition answered :: "'r edge_handler \<Rightarrow> 'r edge \<Rightarrow> (edge_answer \<times> 'r edge) option" where
  "answered m w = (case m w of (q, w') \<Rightarrow> Some (Answer q, w'))"

fun edge_serve :: "'r AgentServer \<Rightarrow> edge_request \<Rightarrow> edge_endpoint \<Rightarrow> 'r edge \<Rightarrow> (edge_answer \<times> 'r edge) option" where
  "edge_serve S x StartSession = answered (withAuth S (er_Session x) (\<lambda>u. handleStart S u (er_Drawn x)))"
| "edge_serve S x StopSession = answered (withAuth S (er_Session x) (handleStop S))"
| "edge_serve S x AgentState = answered (withAuth S (er_Session x) (\<lambda>u. handleState S u (er_State x)))"
| "edge_serve S x WebRTCSettings = answered (withAuth S (er_Session x) (handleWebRTCConfig S))"
| "edge_serve S x OutboundCall = answered (withAuth S (er_Session x) (\<lambda>u. handleOutbound S u (er_Outbound x)))"
| "edge_serve S x HangupCall = answered (withAuth S (er_Session x) (\<lambda>u. handleHangup S u (er_Hangup x)))"
| "edge_serve S x Events = behind (withAuth S (er_Session x) (\<lambda>u. replyH 200 u)) (\<lambda>u w.
     map_option (\<lambda>(a, h). (EventSocket a, w\<lparr>eg_hub := h\<rparr>))
       (handleWS S (er_Origin x) (er_Handshake x) (er_Sent x) u (er_Socket x) (eg_hub w)))"
| "edge_serve S x LiveBoard = behind (withSupervisorAuth S (er_Session x) (\<lambda>u. replyH 200 u)) (\<lambda>u w.
     map_option (\<lambda>(a, s). (LiveSocket a, w\<lparr>eg_redis := s\<rparr>))
       (handleLiveWS S (er_Origin x) (er_Handshake x) (er_Sent x) (er_Live x) (eg_redis w)))"

definition is_healthz :: "edge_request \<Rightarrow> bool" where
  "is_healthz x \<longleftrightarrow> mux_method (er_Method x) = ''GET'' \<and> er_Path x = ''/healthz''"

definition edge_mux ::
  "(string \<Rightarrow> string \<Rightarrow> int) \<Rightarrow> 'r AgentServer option \<Rightarrow> edge_request \<Rightarrow> 'r edge \<Rightarrow> (edge_answer \<times> 'r edge) option" where
  "edge_mux unrouted A x w =
     (let none = Some (Answer (NoBody (unrouted (er_Method x) (er_Path x))), w) in
      if is_healthz x then Some (Health, w)
      else case A of
        None \<Rightarrow> none
      | Some S \<Rightarrow>
          (case map_of Mount (mux_method (er_Method x), er_Path x) of
             None \<Rightarrow> none
           | Some ep \<Rightarrow> edge_serve S x ep w))"

text \<open>The handler that the process serves; without the agents there is no CORS middleware.\<close>

definition edge_served ::
  "(string \<Rightarrow> string \<Rightarrow> int) \<Rightarrow> 'r AgentServer option \<Rightarrow> edge_request \<Rightarrow> 'r edge \<Rightarrow> (edge_answer \<times> 'r edge) option" where
  "edge_served unrouted A x w =
     (case A of
        None \<Rightarrow> edge_mux unrouted A x w
      | Some S \<Rightarrow>
          if snd (CORSMiddleware (as_CORS S) (er_Origin x) (er_Method x)) then edge_mux unrouted A x w
          else Some (Answer (NoBody 204), w))"

section \<open>Lemmas\<close>

definition path_roles :: "string \<Rightarrow> UserRole set" where
  "path_roles path = (if path = ''/ws/live'' then {UserRoleAdmin, UserRoleSupervisor} else UNIV)"

text \<open>The refusals of the session checks.\<close>

definition refusal :: "'b reply \<Rightarrow> bool" where
  "refusal q \<longleftrightarrow> q \<in> {Fail 401 ''unauthorized'', Fail 403 ''forbidden'', Fail 403 ''totp_setup_required''}"

definition allowed :: "'r AgentServer \<Rightarrow> string \<Rightarrow> UserRole set \<Rightarrow> 'r edge \<Rightarrow> User \<Rightarrow> bool" where
  "allowed S tok roles w v \<longleftrightarrow> session_of (tabs (eg_db w)) (db_now (eg_db w)) (HashToken (as_crypto S) tok) v \<and> u_Role v \<in> roles \<and>
     \<not> (as_RequireAdmin2FA S \<and> u_Role v = UserRoleAdmin \<and> \<not> u_TOTPEnabled v)"

lemma guard_refuses:
  assumes "m = withAuth S tok next' \<and> roles = UNIV \<or> m = withSupervisorAuth S tok next' \<and> roles = {UserRoleAdmin, UserRoleSupervisor}"
    and "\<And>v. \<not> allowed S tok roles w v"
  shows "\<exists>q w'. m w = (q, w') \<and> refusal q \<and> untouched w w'"
proof -
  obtain q w' where m: "m w = (q, w')" by fastforce
  then show ?thesis using edge_guard [OF assms(1) m] assms(2) by (auto simp: refusal_def allowed_def)
qed

lemma mount_path:
  assumes "map_of Mount k = Some ep"
  shows "(ep = LiveBoard) = (snd k = ''/ws/live'')"
  using map_of_SomeD [OF assms] by (auto simp: Mount_def MountCalls_def MountWS_def MountLiveWS_def)

lemma answered_refusal:
  "m w = (q, w') \<Longrightarrow> refusal q \<Longrightarrow> answered m w = Some (Answer q, w')"
  by (simp add: answered_def)

lemma behind_refusal:
  "g w = (q, w') \<Longrightarrow> refusal q \<Longrightarrow> \<exists>q'. behind g k w = Some (Answer q', w') \<and> refusal q'"
  by (auto simp: behind_def refusal_def)

lemma edge_serve_refuses:
  assumes "\<And>v. \<not> allowed S (er_Session x) (if ep = LiveBoard then {UserRoleAdmin, UserRoleSupervisor} else UNIV) w v"
  shows "\<exists>q w'. edge_serve S x ep w = Some (Answer q, w') \<and> refusal q \<and> untouched w w'"
proof -
  have a: "\<exists>q w'. answered (withAuth S (er_Session x) k) w = Some (Answer q, w') \<and> refusal q \<and> untouched w w'" if "ep \<noteq> LiveBoard" for k
    using guard_refuses [of "withAuth S (er_Session x) k" S "er_Session x" k UNIV w] assms that answered_refusal by fastforce
  show ?thesis
  proof (cases ep)
    case Events
    then show ?thesis
      using guard_refuses [of "withAuth S (er_Session x) (\<lambda>u. replyH 200 u)" S "er_Session x" "\<lambda>u. replyH 200 u" UNIV w] assms
      by (auto dest!: behind_refusal)
  next
    case LiveBoard
    then show ?thesis
      using guard_refuses [of "withSupervisorAuth S (er_Session x) (\<lambda>u. replyH 200 u)" S "er_Session x" "\<lambda>u. replyH 200 u"
          "{UserRoleAdmin, UserRoleSupervisor}" w] assms
      by (auto dest!: behind_refusal)
  qed (use a in simp_all)
qed

section \<open>Properties\<close>

text \<open>
  C27. The edge is closed: whatever a request asks for, without a session of a user for whom its path
  is (a supervisor's or an administrator's for the live board, and never that of an administrator
  who still has to enrol the second factor) it is answered, without a call, a socket or a change,
  by a refusal, or as what anybody may ask: the health check, a preflight, a path without a route.
\<close>

theorem edge_closed:
  assumes "\<And>v. \<not> allowed S (er_Session x) (path_roles (er_Path x)) w v"
  shows "\<exists>q w'. edge_served unrouted (Some S) x w = Some (q, w') \<and> untouched w w' \<and>
    (q = Health \<and> is_healthz x \<or> q = Answer (NoBody 204) \<and> er_Method x = ''OPTIONS'' \<or>
     q = Answer (NoBody (unrouted (er_Method x) (er_Path x))) \<and> map_of Mount (mux_method (er_Method x), er_Path x) = None \<or>
     (\<exists>e. q = Answer e \<and> refusal e))"
proof -
  have same: "untouched w w" by (auto simp: untouched_def intro: exI [of _ "eg_db w"])
  consider "er_Method x = ''OPTIONS''" | "er_Method x \<noteq> ''OPTIONS''" "is_healthz x"
    | "er_Method x \<noteq> ''OPTIONS''" "\<not> is_healthz x" "map_of Mount (mux_method (er_Method x), er_Path x) = None"
    | ep where "er_Method x \<noteq> ''OPTIONS''" "\<not> is_healthz x" "map_of Mount (mux_method (er_Method x), er_Path x) = Some ep"
    by blast
  then show ?thesis
  proof cases
    case (4 ep)
    have "path_roles (er_Path x) = (if ep = LiveBoard then {UserRoleAdmin, UserRoleSupervisor} else UNIV)"
      using mount_path [OF 4(3)] by (simp add: path_roles_def)
    then obtain q w' where "edge_serve S x ep w = Some (Answer q, w')" "refusal q" "untouched w w'"
      using edge_serve_refuses [of S x ep w] assms by auto
    then show ?thesis using 4 by (simp add: edge_served_def edge_mux_def CORSMiddleware_def)
  qed (simp_all add: edge_served_def edge_mux_def CORSMiddleware_def same)
qed

definition board_request :: edge_request where
  "board_request =
     \<lparr>er_Method = ''GET'', er_Path = ''/ws/live'', er_Origin = [], er_Session = ''tok'', er_Drawn = None, er_State = None,
      er_Outbound = None, er_Hangup = None, er_Handshake = True, er_Sent = (\<lambda>_. True), er_Socket = [], er_Live = []\<rparr>"

theorem edge_closed_witness:
  "\<exists>e w'. edge_served (\<lambda>_ _. 404) (Some (sample_server mem_redis)) board_request (edge_init mr_init (session_db UserRoleAgent)) =
     Some (Answer e, w') \<and> refusal e"
proof -
  let ?w = "edge_init mr_init (session_db UserRoleAgent)"
  have "u \<in> set (users (tabs (session_db UserRoleAgent))) \<Longrightarrow> u_Role u = UserRoleAgent" for u
    by (auto simp: session_db_def db_of_def demo_user_def)
  then have "\<not> allowed (sample_server mem_redis) (er_Session board_request) (path_roles (er_Path board_request)) ?w v" for v
    by (auto simp: allowed_def session_of_def path_roles_def board_request_def)
  from edge_closed [OF this, where unrouted = "\<lambda>_ _. 404"] show ?thesis
    by (auto simp: is_healthz_def board_request_def Mount_def MountCalls_def MountWS_def MountLiveWS_def mux_method_def)
qed

end
