(* ===== verification/Spec2Isabelle.thy ===== *)
theory Spec2Isabelle
  imports Cps_Limiter Presence Authkit Store_Reports Store_Carriers Auth_Lockout Api_Campaigns Api_Reports Live_Hub Inbound_Router
    Edge_Http Esl_Client Seed Api_Routes Edge_Main Edge_Routes Start_Up
begin

text \<open>
  A verification library of CallVoice, a call-centre system: an API service in Go
  (\<open>services/api\<close>) with its PostgreSQL database, an edge service in Go (\<open>services/edge\<close>) that drives a
  FreeSWITCH telephony switch, and packages that both share (\<open>internal\<close>). Administrators set up
  carriers, inbound numbers, users and campaigns through the API; agents sign in, take leads and
  record dispositions there, and place and receive calls through the edge. The two services meet in
  the database (users, sessions, carriers, numbers) and on a Redis server (the agents' presence, the
  calls, and the channel \<open>carriers.changed\<close> on which the API announces a change of carriers).

  \<^bold>\<open>How the code is modelled.\<close> A Go function that returns \<open>(T, error)\<close> is a computation
  \<open>'s \<Rightarrow> (goerr + 'a) \<times> 's\<close> (\<open>CV_Prelude\<close>): \<open>bindE\<close> is \<open>if err != nil { return err }\<close>, \<open>wrapE\<close> is
  \<open>fmt.Errorf\<close> with \<open>%w\<close>, \<open>tryE\<close> hands the error to the code that looks at it, and the sentinel errors
  are constructors of \<open>goerr\<close>. An HTTP handler (\<open>Http\<close>) gives one reply: an error code, a body, a bare
  status, or a panic. What draws random bytes, or decodes a request, has the outcome as an
  argument. Integers are Go's: \<open>int\<close> with the wrap-around written out where it matters
  (\<open>wrap64\<close>, \<open>fits_int4\<close>), strings are the bytes. The state of the API is \<open>dbst\<close> (\<open>Database\<close>): the tables as
  lists of rows, the clock, the ids the server draws, and a script of failures, one entry for a
  statement or commit, so that every theorem over all states speaks of every pattern of failures.
  The state of the edge is the record \<open>edge\<close> (\<open>Edge_World\<close>): Redis, the database, the commands the
  switch was sent, the files it reads, the clock, the live hub and the channels that were answered.

  \<^bold>\<open>Standard library.\<close> \<open>Go_Strings\<close>, \<open>Go_Conv\<close>, \<open>Go_Utf8\<close>, \<open>Go_Time\<close>, \<open>Go_Clock\<close> and \<open>Go_Json\<close> model what
  the program uses of \<open>strings\<close>, \<open>strconv\<close>, \<open>encoding/{hex,base64,json}\<close>, \<open>unicode/utf8\<close> and \<open>time\<close>.

  \<^bold>\<open>Parameters.\<close> Code that is not in the repository is an argument of the definitions, with what is
  relied on as a locale: \<open>uuid_library\<close> and \<open>redis_service\<close> (\<open>Services\<close>), \<open>crypto_library\<close> (\<open>Authkit\<close>: Argon2id,
  SHA-256, HMAC, AES-GCM, TOTP) and \<open>db_library\<close> (\<open>Start_Up\<close>: pgx and golang-migrate), each with an
  instance in memory on which the witnesses compute. The switch is a function from the commands so
  far to its answer; chi with its CORS handler, and the mux's answer without a route, are parameters
  of \<open>Api_Routes\<close> and \<open>Edge_Routes\<close>. A server in \<open>redis_service\<close> may answer any command with an
  error, in which case it has done nothing (a script may have run), and no key expires in the
  middle of a call.

  \<^bold>\<open>Contracts inside the program.\<close> \<open>invariant_ops\<close> (\<open>CV_Prelude\<close>) is the contract of a component's
  operations, each keeping its invariant; it is interpreted on the operations of the user, carrier
  and lead stores and of the switch's client, and proved of the dialer. \<open>did_lookup\<close>
  (\<open>Inbound_Router\<close>) is the interface \<open>DIDLookup\<close> that the router calls, interpreted on the loader
  that the process gives it.

  \<^bold>\<open>The shared packages and the API.\<close>
  \<^item> \<open>Models\<close>: \<open>internal/models/models.go\<close>. A pointer or a nullable column is an option, so the \<open>scan\<close>
    functions of the stores have no counterpart.
  \<^item> \<open>Authkit\<close>: \<open>internal/authkit\<close> and \<open>internal/cryptokit\<close>. A password hash verifies, a pending token
    parses to its user until it expires and only if it was signed (C3), what is encrypted decrypts.
  \<^item> \<open>Cps_Limiter\<close>: \<open>internal/cps/limiter.go\<close> and \<open>services/edge/internal/cpsgate\<close>: in every second
    exactly the calls of the allowance pass (C1).
  \<^item> \<open>Store_Users\<close>, \<open>Store_Carriers\<close>, \<open>Store_Campaigns\<close>, \<open>Store_Leads\<close>, \<open>Store_Reports\<close>: \<open>services/api/internal/store\<close>,
    with the constraints of \<open>services/api/migrations\<close> as errors of the statements. Invariants over
    every sequence of operations (C4 to C6, C8), the lost update of campaigns (C7), and the report's
    SQL, placeholders included, against the filter it stands for (C9). \<open>Driver\<close> bounds the errors
    that a failing database can show behind pgx.
  \<^item> \<open>Api_Auth\<close>, \<open>Auth_Lockout\<close>: \<open>services/api/internal/httpapi/{auth,totp}.go\<close>: login, sessions, the second
    factor and the lockout (C10 to C12).
  \<^item> \<open>Api_Users\<close>, \<open>Api_Carriers\<close>, \<open>Api_Campaigns\<close>, \<open>Api_Reports\<close>: the other handlers of the API, with the CSV
    writer. \<open>Csv_Import\<close>: \<open>services/api/internal/csvimport\<close> over a model of the reader of
    \<open>encoding/csv\<close>; the rows that were written are read back (C13).
  \<^item> \<open>Api_Routes\<close>: \<open>Routes\<close>: the table of patterns, the middlewares and the handlers put together.
  \<^item> \<open>Seed\<close>: \<open>services/api/cmd/seed\<close>. \<open>Start_Up\<close>: \<open>services/api/internal/db\<close>, its migrations and
    \<open>services/api/cmd/api\<close>; start-up leaves open the pool it hands over and no other.

  \<^bold>\<open>The edge.\<close>
  \<^item> \<open>Presence\<close>: \<open>services/edge/internal/agent\<close>: the values of an agent's key and the optimistic
    transactions on it. Overlapping claims are an inductive step relation over the versions of a
    key: an agent is claimed at most once for every time it becomes available (C2).
  \<^item> \<open>Live_Hub\<close>, \<open>Wallboard\<close>: \<open>services/edge/internal/live\<close>. The hub refines a set of subscriptions
    (C14); the wallboard counts what is on Redis.
  \<^item> \<open>Fs_Gateway\<close>, \<open>Esl_Client\<close>: \<open>services/edge/internal/fs\<close>: the gateway files of the enabled carriers
    (C15), and a client that never holds two connections.
  \<^item> \<open>Dialer\<close>: \<open>services/edge/internal/dialer\<close>: the text of the command, the choice of a carrier, the
    counters of channels (C16 to C18).
  \<^item> \<open>Inbound_Router\<close>: \<open>services/edge/internal/inbound\<close> (C19 to C22).
  \<^item> \<open>Webrtc_Cred\<close>: \<open>services/edge/internal/webrtccred\<close>: credentials and the directory files.
  \<^item> \<open>Edge_Http\<close>, \<open>Edge_Routes\<close>: \<open>services/edge/internal/httpapi\<close>: the session checks, the handlers, the
    sockets and the mux. \<open>Edge_Main\<close>: \<open>services/edge/cmd/edge\<close>: the parts that run, as a function of
    the environment, and the subscriber of \<open>carriers.changed\<close>.

  \<^bold>\<open>Across the services\<close> (this theory, \<open>Api_Routes\<close>, \<open>Edge_Routes\<close>, \<open>Seed\<close>, \<open>Start_Up\<close>): who reaches
  which route of either service, a login whose cookie is good for the next request, a deployment
  that can be signed in to after seeding, a number that can be called once the API has stored it,
  and a carrier whose gateway is set up once the API has created it.

  \<^bold>\<open>Loops and bounds.\<close> Parsers and scanners terminate by the length of the rest of the input. The
  scans of Redis (\<open>scan_agents\<close>, \<open>scan_loop\<close>) follow cursors that the server chooses and may never end:
  they are \<open>partial_function (option)\<close>, and they return where the server's cursors come to an end
  (\<open>scan_ends\<close>), which is what \<open>SCAN\<close> documents. What waits for the network, a channel or a timer
  (\<open>RunReconnect\<close>, \<open>RunListener\<close>, \<open>ws_loop\<close>, \<open>live_loop\<close>, \<open>subscribeCarriersChanged\<close>) runs over the list of what
  happens until it is cancelled: every finite history is such a list, and no fuel is used. Statements
  of one transaction run without another's between them, except where a theorem separates them
  (\<open>Campaign_Get\<close> and \<open>Campaign_write\<close>; the steps of a claim).

  \<^bold>\<open>Not modelled.\<close> The web application (\<open>apps/web\<close>, TypeScript) and the helper of the tests
  (\<open>services/api/internal/testutil\<close>); serving HTTP, TLS and signals, logging, and the decoding of JSON and
  multipart bodies, whose results the handlers take as arguments; PostgreSQL beyond the statements
  that the stores send, of which each is one atomic step; Go's memory model: mutexes and goroutines
  of one process are taken as the order of their operations.
\<close>

section \<open>Lemmas\<close>

text \<open>White space at the end of a text does not reach into a part without white space.\<close>

lemma trim_with_keep:
  assumes "\<forall>q \<in> set ps. set q \<inter> set v = {}" and "v \<noteq> []"
  shows "\<exists>x. trim_with ps (u @ v) = x @ v"
proof (induction u rule: length_induct)
  case (1 u)
  show ?case
  proof (cases "List.find (\<lambda>p. p \<noteq> [] \<and> prefix p (u @ v)) ps")
    case None
    then show ?thesis by (subst trim_with.simps) simp
  next
    case (Some q)
    then have q: "q \<in> set ps" "q \<noteq> []" "prefix q (u @ v)" by (auto simp: find_Some_iff)
    have "prefix q u"
    proof (rule ccontr)
      assume "\<not> prefix q u"
      then obtain r where r: "q = u @ r" "r \<noteq> []" "prefix r v" using q(3) by (auto simp: prefix_append)
      then have "hd r \<in> set q \<inter> set v" using assms(2) by (auto simp: prefix_def)
      then show False using assms(1) q(1) by blast
    qed
    then obtain t where t: "u = q @ t" by (auto simp: prefix_def)
    then have "length t < length u" using q(2) by simp
    then obtain x where "trim_with ps (t @ v) = x @ v" using 1 by blast
    then show ?thesis using Some t by (subst trim_with.simps) simp
  qed
qed

definition no_space_chars :: "string \<Rightarrow> bool" where
  "no_space_chars p \<longleftrightarrow> (\<forall>q \<in> set go_spaces. set q \<inter> set p = {})"

lemma trim_space_prefix:
  assumes "no_space_chars p" and "p \<noteq> []" and "prefix p s"
  shows "prefix p (trim_space s)"
proof -
  obtain t where t: "s = p @ t" using assms(3) by (auto simp: prefix_def)
  have "no_space_at go_spaces s"
    unfolding no_space_at_def
  proof (intro ballI impI notI)
    fix q assume q: "q \<in> set go_spaces" "q \<noteq> []" "prefix q s"
    obtain a q' b p' where ab: "q = a # q'" "p = b # p'" using q(2) assms(2) by (meson neq_Nil_conv)
    then have "hd q = hd p" using q(3) t by simp
    then show False using q(1, 2) assms(1, 2) unfolding no_space_chars_def by (metis IntI empty_iff hd_in_set)
  qed
  then have l: "trim_left s = s" by (simp add: trim_left_def trim_with_id)
  have "\<exists>x. trim_with (map rev go_spaces) (rev t @ rev p) = x @ rev p"
    by (rule trim_with_keep) (use assms(1, 2) in \<open>auto simp: no_space_chars_def\<close>)
  moreover have "rev s = rev t @ rev p" by (simp add: t)
  ultimately show ?thesis by (auto simp: trim_space_def l trim_right_def)
qed

lemma has_lower_prefix: "prefix p s \<Longrightarrow> to_lower p = p \<Longrightarrow> prefix p (to_lower s)"
  by (auto simp: prefix_def to_lower_def)

text \<open>The destinations that the API takes are those that the router takes to its agents.\<close>

lemma isAgentPool_api:
  assumes "has_prefix dest ''agent_pool:'' \<or> dest = ''queue:default''"
  shows "isAgentPool dest"
proof (cases "dest = ''queue:default''")
  case True
  have "isAgentPool ''queue:default''" by code_simp
  then show ?thesis using True by simp
next
  case False
  have "to_lower ''agent_pool:'' = ''agent_pool:''" "no_space_chars ''agent_pool:''" by code_simp+
  then have "has_prefix (trim_space (to_lower dest)) ''agent_pool:''"
    using assms False by (intro trim_space_prefix has_lower_prefix) auto
  then show ?thesis by (simp add: isAgentPool_def Let_def)
qed

text \<open>A number that the API takes is its own normal form.\<close>

lemma NormalizeDID_e164:
  assumes "e164_match n"
  shows "NormalizeDID n = n"
proof -
  obtain d ds where n: "n = CHR ''+'' # d # ds" "list_all is_digit (d # ds)"
    using assms by (auto simp: e164_match_def split: list.splits)
  have "plain_char c" if "is_digit c" for c
    using that by (simp add: is_digit_def plain_char_def)
  then have "plain_char (last n)" using n last_in_set [of "d # ds"] by (simp add: list_all_iff)
  then have "trim_space n = n"
    by (intro trim_space_id trimmed_plain) (simp add: n(1) plain_char_def)
  moreover have "CHR ''@'' \<notin> set n" using n by (auto simp: list_all_iff is_digit_def)
  then have "takeWhile (\<lambda>c. c \<noteq> CHR ''@'') n = n" by (auto simp: takeWhile_eq_all_conv)
  moreover have "trim_prefix n ''sip:'' = n" by (simp add: trim_prefix_def n(1))
  ultimately show ?thesis by (simp add: NormalizeDID_def Let_def n(1))
qed

text \<open>What the row of a carrier that the API has created holds.\<close>

lemma handleCreateCarrier_created:
  assumes "handleCreateCarrier C U P S rnd (Some req) a = (Reply 201 b, a')"
  shows "\<exists>c enc. b = CarrierOut (toCarrierResponse c) \<and> create_password C S req rnd = Inr enc \<and> c_PasswordEncrypted c = enc \<and>
    c_Host c = trim_space (ccr_Host req) \<and> c_Enabled c = or_keep (ccr_Enabled req) True \<and>
    c_ID c \<notin> c_ID ` set (carriers (tabs (api_db a))) \<and>
    tabs (api_db a') = (tabs (api_db a))\<lparr>carriers := carriers (tabs (api_db a)) @ [c]\<rparr>"
proof -
  obtain enc where enc: "create_password C S req rnd = Inr enc"
    using assms by (cases "create_password C S req rnd") (auto simp: handleCreateCarrier_def split: if_splits)
  obtain r s1 where r: "Carrier_Create (create_input req enc) (api_db a) = (r, s1)" by fastforce
  obtain c where c: "r = Inr c"
    using assms enc r by (cases r) (auto simp: handleCreateCarrier_def callH_def on_db_def split: if_splits)
  then have i: "insert_carrier (create_input req enc) (api_db a) = (Inr c, s1)"
    using r by (simp add: Carrier_Create_def wrapE_Inr_iff)
  have out: "b = CarrierOut (toCarrierResponse c) \<and> api_db a' = s1"
    using assms enc r c
    by (auto simp: handleCreateCarrier_def callH_def on_db_def ignoreH_def publishCarriersChanged_def split: if_splits option.splits prod.splits)
  have row: "c_PasswordEncrypted c = enc \<and> c_Host c = trim_space (ccr_Host req) \<and> c_Enabled c = or_keep (ccr_Enabled req) True"
    using db_insert_ok [OF i [unfolded insert_carrier_def]]
    by (auto simp: Let_def create_input_def split: option.split_asm if_split_asm)
  show ?thesis using enc out row insert_carrier_ok [OF i] by blast
qed

text \<open>The two services read the same key.\<close>

lemma carrier_keys:
  assumes "NewServer env = Inr S" and "edge_reloader L env' = Inr (Some rl)"
    and "env' ''CARRIER_SECRET_KEY'' = env ''CARRIER_SECRET_KEY''"
  shows "rl_SecretKey rl = CarrierSecretKey S"
proof -
  have "ParseKey (env ''CARRIER_SECRET_KEY'') = Inr (CarrierSecretKey S)"
    using assms(1) by (auto simp: NewServer_def Let_def split: if_splits sum.splits option.splits)
  moreover have "ParseKey (env' ''CARRIER_SECRET_KEY'') = Inr (rl_SecretKey rl)"
    using assms(2) by (auto simp: edge_reloader_def split: if_splits sum.splits option.splits)
  ultimately show ?thesis using assms(3) by simp
qed

lemma edge_main_reloader: "edge_main L env = Inr p \<Longrightarrow> edge_reloader L env = Inr (ep_Reloader p)"
  by (auto simp: edge_main_def Let_def split: sum.splits)

lemma upsert_did_rows:
  "upsert_did_stmt n dest cid i now t = Inr (rows, t') \<Longrightarrow> rows = filter (\<lambda>d. d_Number d = n) (dids t')"
  by (auto simp: upsert_did_stmt_def Let_def split: if_splits)

section \<open>Properties\<close>

text \<open>
  C37. A number that the API stores can be called: its text is its own normal form, so the inbound
  router finds it, and with a destination that it takes to its agents.
\<close>

theorem did_routable:
  assumes "Routes L C U P S x a = (Reply 201 (DIDOut d), a')"
    and "rq_Method (in_request x) = ''POST''" and "rq_Path (in_request x) = ''/admin/dids''"
    and "eg_db w = api_db a'" and "db_faults (api_db a') = []"
  shows "NormalizeDID (d_Number d) = d_Number d \<and> isAgentPool (d_Destination d) \<and>
    (\<exists>d'. DIDLoader_LookupByNumber (d_Number d) w = (Inr d', w) \<and> d_Number d' = d_Number d \<and> d_Destination d' = d_Destination d)"
proof -
  have f: "find_route route_table ''POST'' (path_segments ''/admin/dids'') = Some (ForAdmin, CreateDID, [])" by code_simp
  have g: "guarded C S (in_request x) ForAdmin (serve C U P S x CreateDID []) a = (Reply 201 (DIDOut d), a')"
    using assms(1-3) f by (simp add: Routes_def Let_def split: if_splits)
  have "ForAdmin \<noteq> Open" by simp
  then obtain u s0 where "serve C U P S x CreateDID [] (Some u) (a\<lparr>api_db := s0\<rparr>) = (Reply 201 (DIDOut d), a')"
    using guarded_cases [OF g] by blast
  then obtain s1 where h: "handleCreateDID (in_CreateDID x) s0 = (Reply 201 d, s1)" "api_db a' = s1"
    by (auto simp: at_db_def split: prod.splits elim!: map_reply_Reply)
  obtain req where req: "in_CreateDID x = Some req" using h(1) by (cases "in_CreateDID x") (auto simp: handleCreateDID_def)
  define n where "n = trim_space (cdr_Number req)"
  define dest where "dest = (if trim_space (cdr_Destination req) = [] then ''agent_pool:default'' else trim_space (cdr_Destination req))"
  have ok: "e164_match n" "has_prefix dest ''agent_pool:'' \<or> dest = ''queue:default''"
    using h(1) req by (auto simp: handleCreateDID_def Let_def n_def dest_def split: if_splits)
  have cr: "DID_Create \<lparr>cd_Number = n, cd_Destination = dest, cd_CarrierID = cdr_CarrierID req\<rparr> s0 = (Inr d, s1)"
    using h(1) req by (auto simp: handleCreateDID_def Let_def n_def dest_def callH_iff split: if_splits)
  have dflt: "trim_space ''agent_pool:default'' = ''agent_pool:default''" by code_simp
  then have same: "trim_space n = n" "trim_space dest = dest" "dest \<noteq> []"
    by (auto simp: n_def dest_def)
  then obtain rows where "db_insert (upsert_did_stmt n dest (cdr_CarrierID req)) s0 = (Inr (d # rows), s1)"
    using cr by (auto simp: DID_Create_eq did_destination_def first_row_iff)
  note st = db_insert_ok [OF this]
  have "filter (\<lambda>d. d_Number d = n) (dids (tabs s1)) = d # rows"
    using upsert_did_rows [OF st] by simp
  then have "d \<in> set (filter (\<lambda>d. d_Number d = n) (dids (tabs s1)))" by simp
  then have d: "d \<in> set (dids (tabs s1))" "d_Number d = n" by auto
  have set: "did_set (tabs s1) n dest" by (rule upsert_did_set(1) [OF st])
  then have dd: "d_Destination d = dest" using d by (auto simp: did_set_def)
  have N: "NormalizeDID n = n" by (rule NormalizeDID_e164 [OF ok(1)])
  show ?thesis
    using did_set_found [of w n dest] set N d(2) dd isAgentPool_api [OF ok(2)] assms(4, 5) h(2) by simp
qed

theorem did_routable_witness:
  "\<exists>d a'. Routes sample_router ref_crypto ref_uuid (Some mem_redis) (demo_server\<lparr>RequireAdmin2FA := False\<rparr>)
      (sample_input (demo_request\<lparr>rq_Method := ''POST'', rq_Path := ''/admin/dids''\<rparr>)) (api_of (session_db UserRoleAdmin)) =
      (Reply 201 (DIDOut d), a') \<and>
     isAgentPool (d_Destination d)"
proof -
  let ?S = "demo_server\<lparr>RequireAdmin2FA := False\<rparr>" and ?rq = "demo_request\<lparr>rq_Method := ''POST'', rq_Path := ''/admin/dids''\<rparr>"
  let ?x = "sample_input ?rq" and ?s = "session_db UserRoleAdmin"
  have f: "find_route route_table ''POST'' (path_segments ''/admin/dids'') = Some (ForAdmin, CreateDID, [])" by code_simp
  have e: "e164_match ''+33140000000''" "trim_space ''+33140000000'' = ''+33140000000''"
    "trim_space ''agent_pool:default'' = ''agent_pool:default''" by code_simp+
  have db: "db_faults ?s = []" "dids (tabs ?s) = []" by (simp_all add: session_db_def db_of_def empty_tables_def)
  obtain d s1 where h: "handleCreateDID (in_CreateDID ?x) ?s = (Reply 201 d, s1)" "db_faults s1 = []"
    using db by (auto simp: handleCreateDID_def sample_input_def Let_def e callH_def DID_Create_def first_row_def bindE_def db_insert_def
        upsert_did_stmt_def upsert_did_def)
  have "RequireSession ref_crypto ?S ?rq (guard_roles ForAdmin (\<lambda>u. replyH 200 u)) ?s = (Reply 200 (demo_user UserRoleAdmin), ?s)"
    by (simp add: RequireSession_def lookupUserBySessionToken_def callH_def session_users_def demo_request_def session_db_def db_of_def
        demo_user_def RequireAdmin_def require_role_def adminTOTPSetupRequired_def)
  then have r: "Routes sample_router ref_crypto ref_uuid (Some mem_redis) ?S ?x (api_of ?s) = (Reply 201 (DIDOut d), (api_of ?s)\<lparr>api_db := s1\<rparr>)"
    using h f by (simp add: Routes_def Let_def sample_router_def guarded_def at_db_def api_of_def) (simp add: sample_input_def guarded_def at_db_def)
  have "rq_Method (in_request ?x) = ''POST''" "rq_Path (in_request ?x) = ''/admin/dids''" by (simp_all add: sample_input_def)
  then have "isAgentPool (d_Destination d)"
    using did_routable [OF r, of "edge_init mr_init s1"] h(2) by simp
  then show ?thesis using r by blast
qed


definition sample_env :: "string \<Rightarrow> string" where
  "sample_env k =
     (if k = ''CARRIER_SECRET_KEY'' then replicate 32 (CHR ''c'') else if k = ''SESSION_SECRET'' then replicate 32 (CHR ''k'')
      else if k = ''DATABASE_URL'' then ''postgres://db'' else [])"

definition sample_libs :: "mem_redis_state edge_libs" where
  "sample_libs = \<lparr>el_sqlOpen = (\<lambda>_. None), el_redis = (\<lambda>_. Inr mem_redis), el_esl = (\<lambda>_ _ _ _. Inr ''+OK''),
     el_uuid = ref_uuid, el_crypto = ref_crypto\<rparr>"


end
